(* ===== verification/Prelude.thy ===== *)
theory Prelude
  imports Main "HOL-Library.Word" "HOL-Library.AList" "HOL-Library.Char_ord"
    "HOL-Library.List_Lexorder"
begin

text \<open>
  What every component shares: the result of a Go call that may return an error or panic,
  byte slices and the big-endian codec of \<^verbatim>\<open>encoding/binary\<close>, time values, and the generic
  lemmas on association lists that stand for Go maps. A Go map is an association list with
  distinct keys (the order of \<^verbatim>\<open>range\<close> is the order of the list, which no property relies
  on); a mutex-protected method is one atomic state transformer; logging is not modelled.
\<close>

named_theorems go_defs \<open>the elementary operations of the Go run time\<close>

section \<open>Results\<close>

text \<open>\<open>Panic\<close> is a run-time panic: an index or a slice bound out of range.\<close>

datatype ('e, 'a) outcome = Ok 'a | Err 'e | Panic

fun obind :: "('e, 'a) outcome \<Rightarrow> ('a \<Rightarrow> ('e, 'b) outcome) \<Rightarrow> ('e, 'b) outcome" where
  "obind (Ok x) f = f x"
| "obind (Err e) f = Err e"
| "obind Panic f = Panic"

definition check :: "bool \<Rightarrow> 'e \<Rightarrow> ('e, unit) outcome" where
  "check b e = (if b then Ok () else Err e)"

lemma obind_Ok_iff [simp]: "obind m f = Ok y \<longleftrightarrow> (\<exists>x. m = Ok x \<and> f x = Ok y)"
  by (cases m) auto

lemma obind_not_Panic [intro]:
  "m \<noteq> Panic \<Longrightarrow> (\<And>x. m = Ok x \<Longrightarrow> f x \<noteq> Panic) \<Longrightarrow> obind m f \<noteq> Panic"
  by (cases m) auto

lemma obind_Panic_iff: "obind m f = Panic \<longleftrightarrow> m = Panic \<or> (\<exists>x. m = Ok x \<and> f x = Panic)"
  by (cases m) auto

lemma check_Ok_iff [simp]: "check b e = Ok u \<longleftrightarrow> b"
  by (simp add: check_def)

lemma check_not_Panic [simp]: "check b e \<noteq> Panic"
  by (simp add: check_def)

lemma check_True [simp]: "check True e = Ok ()"
  by (simp add: check_def)

lemma check_False [simp]: "check False e = Err e"
  by (simp add: check_def)

lemma obind_assoc: "obind (obind m f) g = obind m (\<lambda>x. obind (f x) g)"
  by (cases m) auto

lemma obind_check_if: "obind (check b e) f = (if b then f () else Err e)"
  by (simp add: check_def)

section \<open>Bytes and the big-endian codec\<close>

type_synonym u8 = "8 word"
type_synonym u16 = "16 word"
type_synonym u32 = "32 word"
type_synonym u64 = "64 word"
type_synonym bytes = "8 word list"

unbundle bit_operations_syntax

text \<open>\<open>slice xs lo hi\<close> is \<^verbatim>\<open>xs[lo:hi]\<close> of a slice whose capacity is its length.\<close>

definition slice :: "'a list \<Rightarrow> nat \<Rightarrow> nat \<Rightarrow> ('e, 'a list) outcome" where
  "slice xs lo hi = (if lo \<le> hi \<and> hi \<le> length xs then Ok (take (hi - lo) (drop lo xs)) else Panic)"

definition index :: "'a list \<Rightarrow> nat \<Rightarrow> ('e, 'a) outcome" where
  "index xs i = (if i < length xs then Ok (xs ! i) else Panic)"

definition be16 :: "u8 \<Rightarrow> u8 \<Rightarrow> u16" where
  "be16 hi lo = push_bit 8 (ucast hi) OR ucast lo"

text \<open>\<^verbatim>\<open>binary.BigEndian.Uint16(b)\<close> reads the first two bytes and panics on fewer.\<close>

fun Uint16 :: "bytes \<Rightarrow> ('e, u16) outcome" where
  "Uint16 (a # b # _) = Ok (be16 a b)"
| "Uint16 _ = Panic"

text \<open>The two bytes \<^verbatim>\<open>binary.BigEndian.PutUint16\<close> writes.\<close>

definition PutUint16 :: "u16 \<Rightarrow> bytes" where
  "PutUint16 v = [ucast (drop_bit 8 v), ucast v]"

lemma length_PutUint16 [simp]: "length (PutUint16 v) = 2"
  by (simp add: PutUint16_def)

lemma be16_PutUint16: "be16 (ucast (drop_bit 8 v)) (ucast v) = v"
  unfolding be16_def
  by (rule bit_word_eqI) (auto simp: bit_simps not_less)

lemma Uint16_PutUint16 [simp]: "Uint16 (PutUint16 v @ rest) = Ok v"
  by (simp add: PutUint16_def be16_PutUint16)

lemma PutUint16_be16 [simp]: "PutUint16 (be16 a b) = [a, b]"
proof -
  have "ucast (drop_bit 8 (be16 a b)) = a"
    unfolding be16_def by (rule bit_word_eqI) (auto simp: bit_simps dest: bit_imp_le_length)
  moreover have "ucast (be16 a b) = b"
    unfolding be16_def by (rule bit_word_eqI) (auto simp: bit_simps)
  ultimately show ?thesis by (simp add: PutUint16_def)
qed

lemma Uint16_Ok_iff: "Uint16 xs = Ok v \<longleftrightarrow> (\<exists>rest. xs = PutUint16 v @ rest)"
proof
  assume "Uint16 xs = Ok v"
  then show "\<exists>rest. xs = PutUint16 v @ rest"
    by (cases xs rule: Uint16.cases) auto
qed auto

lemma Uint16_not_Panic: "2 \<le> length xs \<Longrightarrow> Uint16 xs \<noteq> Panic"
  by (cases xs rule: Uint16.cases) auto

lemma Uint16_not_Err [simp]: "Uint16 xs \<noteq> Err e"
  by (cases xs rule: Uint16.cases) auto

lemma slice_not_Panic [simp]: "slice xs lo hi \<noteq> Panic \<longleftrightarrow> lo \<le> hi \<and> hi \<le> length xs"
  by (simp add: slice_def)

lemma slice_not_Err [simp]: "slice xs lo hi \<noteq> Err e"
  by (simp add: slice_def)

lemma slice_Ok_iff:
  "slice xs lo hi = Ok ys \<longleftrightarrow> lo \<le> hi \<and> hi \<le> length xs \<and> ys = take (hi - lo) (drop lo xs)"
  by (auto simp: slice_def)

lemma slice_middle [simp]:
  "lo = length pre \<Longrightarrow> hi = lo + length xs \<Longrightarrow> slice (pre @ xs @ rest) lo hi = Ok xs"
  by (simp add: slice_def)

lemma index_not_Panic [simp]: "index xs i \<noteq> Panic \<longleftrightarrow> i < length xs"
  by (simp add: index_def)

lemma index_not_Err [simp]: "index xs i \<noteq> Err e"
  by (simp add: index_def)

lemma index_Ok_iff: "index xs i = Ok x \<longleftrightarrow> i < length xs \<and> x = xs ! i"
  by (auto simp: index_def)

lemma index_middle [simp]: "i = length pre \<Longrightarrow> index (pre @ x # rest) i = Ok x"
  by (simp add: index_def)

lemmas slice_simps = slice_def index_def

section \<open>Strings as bytes\<close>

text \<open>A Go string is a byte string; \<open>string\<close> has one \<open>char\<close> per byte.\<close>

definition bytes_of_string :: "string \<Rightarrow> bytes" where
  "bytes_of_string s = map (\<lambda>c. of_nat (of_char c)) s"

definition string_of_bytes :: "bytes \<Rightarrow> string" where
  "string_of_bytes bs = map (\<lambda>b. char_of (unat b)) bs"

lemma unat_of_char [simp]: "unat (of_nat (of_char c) :: u8) = of_char c"
  by (simp add: unat_of_nat)

lemma string_of_bytes_of_string [simp]: "string_of_bytes (bytes_of_string s) = s"
  by (induction s) (simp_all add: string_of_bytes_def bytes_of_string_def)

lemma bytes_of_string_of_bytes [simp]: "bytes_of_string (string_of_bytes bs) = bs"
proof (induction bs)
  case Nil
  then show ?case by (simp add: string_of_bytes_def bytes_of_string_def)
next
  case (Cons b bs)
  have "unat b < 256" using unsigned_less [of b, where ?'a = nat] by simp
  then have "(of_nat (of_char (char_of (unat b))) :: u8) = b" by simp
  with Cons show ?case by (simp add: string_of_bytes_def bytes_of_string_def)
qed

lemma length_bytes_of_string [simp]: "length (bytes_of_string s) = length s"
  by (simp add: bytes_of_string_def)

lemma length_string_of_bytes [simp]: "length (string_of_bytes s) = length s"
  by (simp add: string_of_bytes_def)

section \<open>Time\<close>

text \<open>
  A \<^verbatim>\<open>time.Time\<close> is a number of nanoseconds since the zero time, so \<open>0\<close> is the value
  for which \<^verbatim>\<open>IsZero\<close> holds; \<^verbatim>\<open>Before\<close> and \<^verbatim>\<open>Equal\<close> are the order and equality of \<open>int\<close>.
  \<^verbatim>\<open>t.Sub(u)\<close> is a 64-bit \<^verbatim>\<open>Duration\<close> and saturates.
\<close>

type_synonym time = int

definition IsZero :: "time \<Rightarrow> bool" where
  "IsZero t \<longleftrightarrow> t = 0"

definition time_Sub :: "time \<Rightarrow> time \<Rightarrow> int" where
  "time_Sub t u = max (- (2 ^ 63)) (min (2 ^ 63 - 1) (t - u))"

lemma time_Sub_mono: "t \<le> t' \<Longrightarrow> time_Sub t u \<le> time_Sub t' u"
  by (simp add: time_Sub_def)

section \<open>Go maps as association lists\<close>

text \<open>\<^verbatim>\<open>m[k]\<close> is \<open>map_of m k\<close>, \<^verbatim>\<open>m[k] = v\<close> is \<open>AList.update k v m\<close> and \<^verbatim>\<open>delete(m, k)\<close> is
  \<open>AList.delete k m\<close>.\<close>

type_synonym ('k, 'v) gomap = "('k \<times> 'v) list"

definition wf_map :: "('k, 'v) gomap \<Rightarrow> bool" where
  "wf_map m \<longleftrightarrow> distinct (map fst m)"

lemma wf_map_Nil [simp]: "wf_map []"
  by (simp add: wf_map_def)

lemma wf_map_update [simp]: "wf_map m \<Longrightarrow> wf_map (AList.update k v m)"
  by (simp add: wf_map_def distinct_update)

lemma wf_map_delete [simp]: "wf_map m \<Longrightarrow> wf_map (AList.delete k m)"
  by (simp add: wf_map_def distinct_delete)

lemma wf_map_filter [simp]: "wf_map m \<Longrightarrow> wf_map (filter P m)"
  by (simp add: wf_map_def distinct_map_filter)

lemma map_of_update [simp]: "map_of (AList.update k v m) = (map_of m)(k \<mapsto> v)"
  by (rule update_conv')

lemma map_of_delete' [simp]: "map_of (AList.delete k m) = (map_of m)(k := None)"
  by (rule delete_conv')

lemma wf_map_in_set: "wf_map m \<Longrightarrow> (k, v) \<in> set m \<longleftrightarrow> map_of m k = Some v"
  by (simp add: wf_map_def)

lemma map_eqI: "(\<And>k v. m k = Some v \<longleftrightarrow> m' k = Some v) \<Longrightarrow> m = m'"
proof
  fix k
  assume a: "\<And>k v. m k = Some v \<longleftrightarrow> m' k = Some v"
  show "m k = m' k"
  proof (cases "m k")
    case None
    then show ?thesis using a [of k] by (cases "m' k") auto
  next
    case (Some v)
    then show ?thesis using a [of k v] by simp
  qed
qed

lemma length_wf_map: "wf_map m \<Longrightarrow> length m = card (dom (map_of m))"
proof -
  assume "wf_map m"
  then have "card (set (map fst m)) = length (map fst m)"
    unfolding wf_map_def by (rule distinct_card)
  then show ?thesis by (simp only: dom_map_of_conv_image_fst list.set_map length_map)
qed

lemma length_update:
  "wf_map m \<Longrightarrow> length (AList.update k v m) = (if map_of m k = None then Suc (length m) else length m)"
  by (cases "map_of m k") (auto simp: length_wf_map finite_dom_map_of insert_absorb domI domIff)

lemma length_delete:
  "wf_map m \<Longrightarrow> length (AList.delete k m) = (if map_of m k = None then length m else length m - 1)"
  by (cases "map_of m k") (auto simp: length_wf_map finite_dom_map_of card_Diff_singleton domI domIff)

lemma update_set: "wf_map m \<Longrightarrow> set (AList.update k v m) = insert (k, v) {(k', v') \<in> set m. k' \<noteq> k}"
  by (auto simp: wf_map_in_set split: if_splits)

lemma delete_set: "set (AList.delete k m) = {(k', v') \<in> set m. k' \<noteq> k}"
  by (auto simp: AList.delete_eq)

lemma map_of_filter_wf:
  "wf_map m \<Longrightarrow> map_of (filter P m) k = Some v \<longleftrightarrow> map_of m k = Some v \<and> P (k, v)"
  by (simp flip: wf_map_in_set)

lemma map_of_filter_wf_eq:
  assumes "wf_map m"
  shows "map_of (filter P m) k =
    (case map_of m k of None \<Rightarrow> None | Some v \<Rightarrow> if P (k, v) then Some v else None)"
proof (cases "map_of (filter P m) k")
  case None
  show ?thesis
  proof (cases "map_of m k")
    case (Some v)
    with assms None have "\<not> P (k, v)" using map_of_filter_wf [OF assms, of P k v] by simp
    with None Some show ?thesis by simp
  qed (use None in simp)
next
  case (Some v)
  with assms have "map_of m k = Some v \<and> P (k, v)" by (simp add: map_of_filter_wf)
  with Some show ?thesis by simp
qed

text \<open>Writing back a list of bindings, as the code does to undo a removal.\<close>

definition put_all :: "('k, 'v) gomap \<Rightarrow> ('k, 'v) gomap \<Rightarrow> ('k, 'v) gomap" where
  "put_all kvs m = foldl (\<lambda>acc (k, v). AList.update k v acc) m kvs"

lemma put_all_simps [simp]:
  "put_all [] m = m"
  "put_all ((k, v) # kvs) m = put_all kvs (AList.update k v m)"
  by (simp_all add: put_all_def)

lemma wf_map_put_all [simp]: "wf_map m \<Longrightarrow> wf_map (put_all kvs m)"
  by (induction kvs arbitrary: m) auto

lemma map_of_put_all: "wf_map kvs \<Longrightarrow> map_of (put_all kvs m) = map_of m ++ map_of kvs"
proof (induction kvs arbitrary: m)
  case (Cons kv kvs)
  obtain k v where kv: "kv = (k, v)" by (cases kv)
  with Cons.prems have "k \<notin> dom (map_of kvs)" and wf: "wf_map kvs"
    by (auto simp: wf_map_def dom_map_of_conv_image_fst)
  then show ?case using Cons.IH [OF wf] kv
    by (auto simp: fun_eq_iff map_add_def domIff split: option.splits)
qed simp

end
