(* ===== verification/Go_Strings.thy ===== *)
theory Go_Strings
  imports Prelude
begin

text \<open>
  The functions of the Go packages \<^verbatim>\<open>strings\<close>, \<^verbatim>\<open>strconv\<close> and \<^verbatim>\<open>time\<close> that the program calls
  on configuration text and host names. Strings are byte strings; white space and letter
  case are those of ASCII (a byte above 127 is neither), which is what Go computes for the
  ASCII strings host names and configuration files hold.
\<close>

section \<open>Characters\<close>

definition char_code :: "char \<Rightarrow> nat" where
  "char_code c = of_char c"

definition is_space :: "char \<Rightarrow> bool" where
  "is_space c \<longleftrightarrow> (9 \<le> char_code c \<and> char_code c \<le> 13) \<or> char_code c = 32"

definition is_digit :: "char \<Rightarrow> bool" where
  "is_digit c \<longleftrightarrow> 48 \<le> char_code c \<and> char_code c \<le> 57"

definition digit_val :: "char \<Rightarrow> nat" where
  "digit_val c = char_code c - 48"

definition is_upper :: "char \<Rightarrow> bool" where
  "is_upper c \<longleftrightarrow> 65 \<le> char_code c \<and> char_code c \<le> 90"

definition lower_char :: "char \<Rightarrow> char" where
  "lower_char c = (if is_upper c then char_of (char_code c + 32) else c)"

lemmas char_defs = char_code_def is_space_def is_digit_def digit_val_def is_upper_def
  lower_char_def

lemma char_code_lower: "is_upper c \<Longrightarrow> char_code (lower_char c) = char_code c + 32"
  by (simp add: char_defs take_bit_nat_eq_self_iff)

lemma lower_char_not_upper [simp]: "\<not> is_upper (lower_char c)"
proof (cases "is_upper c")
  case True
  then have "char_code (lower_char c) = char_code c + 32" by (rule char_code_lower)
  with True show ?thesis by (simp add: is_upper_def)
qed (simp add: lower_char_def)

lemma lower_char_id [simp]: "\<not> is_upper c \<Longrightarrow> lower_char c = c"
  by (simp add: lower_char_def)

lemma lower_char_idem [simp]: "lower_char (lower_char c) = lower_char c"
  by simp

lemma is_space_lower_char [simp]: "is_space (lower_char c) \<longleftrightarrow> is_space c"
proof (cases "is_upper c")
  case True
  then have "char_code (lower_char c) = char_code c + 32" by (rule char_code_lower)
  with True show ?thesis by (simp add: is_upper_def is_space_def)
qed simp

section \<open>Package strings\<close>

definition TrimSpace :: "string \<Rightarrow> string" where
  "TrimSpace s = rev (dropWhile is_space (rev (dropWhile is_space s)))"

definition ToLower :: "string \<Rightarrow> string" where
  "ToLower s = map lower_char s"

definition HasPrefix :: "string \<Rightarrow> string \<Rightarrow> bool" where
  "HasPrefix s p \<longleftrightarrow> take (length p) s = p"

definition HasSuffix :: "string \<Rightarrow> string \<Rightarrow> bool" where
  "HasSuffix s p \<longleftrightarrow> length p \<le> length s \<and> drop (length s - length p) s = p"

definition TrimSuffix :: "string \<Rightarrow> string \<Rightarrow> string" where
  "TrimSuffix s p = (if HasSuffix s p then take (length s - length p) s else s)"

definition TrimPrefix :: "string \<Rightarrow> string \<Rightarrow> string" where
  "TrimPrefix s p = (if HasPrefix s p then drop (length p) s else s)"

text \<open>\<^verbatim>\<open>strings.Split\<close> at a one-byte separator; the result is never empty.\<close>

fun Split :: "char \<Rightarrow> string \<Rightarrow> string list" where
  "Split sep [] = [[]]"
| "Split sep (c # cs) =
     (if c = sep then [] # Split sep cs
      else (case Split sep cs of [] \<Rightarrow> [[c]] | w # ws \<Rightarrow> (c # w) # ws))"

text \<open>\<^verbatim>\<open>strings.SplitN(s, sep, 2)\<close> at a one-byte separator.\<close>

definition SplitN2 :: "char \<Rightarrow> string \<Rightarrow> string list" where
  "SplitN2 sep s =
     (if sep \<in> set s
      then [takeWhile (\<lambda>c. c \<noteq> sep) s, tl (dropWhile (\<lambda>c. c \<noteq> sep) s)] else [s])"

text \<open>\<^verbatim>\<open>strings.Join\<close> with a one-byte separator.\<close>

fun Join :: "char \<Rightarrow> string list \<Rightarrow> string" where
  "Join sep [] = []"
| "Join sep [w] = w"
| "Join sep (w # ws) = w @ sep # Join sep ws"

lemma Split_nonempty [simp]: "Split sep s \<noteq> []"
  by (cases s) (auto split: list.splits)

lemma Join_Split [simp]: "Join sep (Split sep s) = s"
proof (induction s)
  case (Cons c cs)
  show ?case
  proof (cases "Split sep cs")
    case (Cons w ws)
    with Cons.IH show ?thesis by (cases ws) auto
  qed (use Split_nonempty in blast)
qed simp

lemma Split_no_sep: "sep \<notin> set s \<Longrightarrow> Split sep s = [s]"
  by (induction s) auto

lemma Split_append_sep: "sep \<notin> set w \<Longrightarrow> Split sep (w @ sep # s) = w # Split sep s"
  by (induction w) auto

lemma Split_Join:
  "ws \<noteq> [] \<Longrightarrow> \<forall>w \<in> set ws. sep \<notin> set w \<Longrightarrow> Split sep (Join sep ws) = ws"
  by (induction sep ws rule: Join.induct) (auto simp: Split_no_sep Split_append_sep)

lemma ToLower_idem [simp]: "ToLower (ToLower s) = ToLower s"
  by (simp add: ToLower_def comp_def)

lemma length_TrimSuffix_le: "length (TrimSuffix s p) \<le> length s"
  by (simp add: TrimSuffix_def)

lemma TrimSuffix_no: "\<not> HasSuffix s p \<Longrightarrow> TrimSuffix s p = s"
  by (simp add: TrimSuffix_def)

lemma TrimSuffix_append [simp]: "TrimSuffix (s @ p) p = s"
  by (simp add: TrimSuffix_def HasSuffix_def)

lemma HasPrefix_iff: "HasPrefix s p \<longleftrightarrow> (\<exists>r. s = p @ r)"
  by (metis HasPrefix_def append_eq_conv_conj append_take_drop_id)

lemma HasSuffix_iff: "HasSuffix s p \<longleftrightarrow> (\<exists>r. s = r @ p)"
proof
  assume "HasSuffix s p"
  then have "s = take (length s - length p) s @ p"
    by (metis HasSuffix_def append_take_drop_id)
  then show "\<exists>r. s = r @ p" by blast
qed (auto simp: HasSuffix_def)

lemma TrimSpace_id:
  "s = [] \<or> (\<not> is_space (hd s) \<and> \<not> is_space (last s)) \<Longrightarrow> TrimSpace s = s"
proof (cases s rule: rev_cases)
  case (snoc ys y)
  assume "s = [] \<or> (\<not> is_space (hd s) \<and> \<not> is_space (last s))"
  with snoc have "dropWhile is_space s = s" "\<not> is_space y"
    by (cases ys; simp)+
  with snoc show ?thesis by (simp add: TrimSpace_def)
qed (simp add: TrimSpace_def)

section \<open>Host names\<close>

text \<open>
  The canonical form \<^verbatim>\<open>TrimSuffix(ToLower(TrimSpace(host)), ".")\<close>, which the program spells
  out three times: \<^verbatim>\<open>normalizeHost\<close> (routing), \<^verbatim>\<open>normalizeProbeHost\<close> (the probe coordinator)
  and inside the list matchers of the configuration.
\<close>

definition canonical_host :: "string \<Rightarrow> string" where
  "canonical_host host = TrimSuffix (ToLower (TrimSpace host)) ''.''"

text \<open>A name in canonical form: no upper case, no outer white space, no final dot.\<close>

definition canonical :: "string \<Rightarrow> bool" where
  "canonical h \<longleftrightarrow> (\<forall>c \<in> set h. \<not> is_upper c) \<and>
     (h = [] \<or> \<not> is_space (hd h) \<and> \<not> is_space (last h) \<and> last h \<noteq> CHR ''.'')"

lemma HasSuffix_single: "HasSuffix h [c] \<longleftrightarrow> h \<noteq> [] \<and> last h = c"
  by (cases h rule: rev_cases) (auto simp: HasSuffix_iff)

lemma canonical_host_id: "canonical h \<Longrightarrow> canonical_host h = h"
proof -
  assume c: "canonical h"
  then have "TrimSpace h = h" by (auto simp: canonical_def intro: TrimSpace_id)
  moreover from c have "ToLower h = h" by (simp add: canonical_def ToLower_def map_idI)
  moreover from c have "\<not> HasSuffix h ''.''" by (auto simp: canonical_def HasSuffix_single)
  ultimately show ?thesis by (simp add: canonical_host_def TrimSuffix_no)
qed

lemma canonical_host_not_upper: "c \<in> set (canonical_host h) \<Longrightarrow> \<not> is_upper c"
proof -
  assume "c \<in> set (canonical_host h)"
  then have "c \<in> set (ToLower (TrimSpace h))"
    by (auto simp: canonical_host_def TrimSuffix_def dest: in_set_takeD split: if_splits)
  then show ?thesis by (auto simp: ToLower_def)
qed

lemma canonical_host_ToLower [simp]: "canonical_host (ToLower h) = canonical_host h"
proof -
  have dw: "dropWhile is_space (map lower_char xs) = map lower_char (dropWhile is_space xs)" for xs
    by (induction xs) auto
  have "TrimSpace (ToLower h) = ToLower (TrimSpace h)"
    by (simp add: TrimSpace_def ToLower_def dw rev_map)
  then show ?thesis by (simp add: canonical_host_def)
qed

lemma canonical_host_dot:
  "canonical h \<Longrightarrow> h \<noteq> [] \<Longrightarrow> canonical_host (h @ ''.'') = h"
proof -
  assume c: "canonical h" and ne: "h \<noteq> []"
  have "TrimSpace (h @ ''.'') = h @ ''.''"
    using c ne by (auto simp: canonical_def char_defs intro!: TrimSpace_id)
  moreover have "ToLower (h @ ''.'') = h @ ''.''"
    using c by (auto simp: canonical_def ToLower_def map_idI is_upper_def char_code_def)
  ultimately show ?thesis by (simp add: canonical_host_def)
qed

section \<open>Numbers\<close>

fun digits_value :: "nat \<Rightarrow> string \<Rightarrow> nat option" where
  "digits_value acc [] = Some acc"
| "digits_value acc (c # cs) =
     (if is_digit c then digits_value (10 * acc + digit_val c) cs else None)"

text \<open>\<^verbatim>\<open>strconv.Atoi\<close> on a 64-bit platform; \<open>None\<close> is a syntax or a range error.\<close>

definition Atoi :: "string \<Rightarrow> int option" where
  "Atoi s =
     (let neg = HasPrefix s ''-'';
          ds = (if neg \<or> HasPrefix s ''+'' then tl s else s)
      in if ds = [] then None
         else case digits_value 0 ds of
           None \<Rightarrow> None
         | Some n \<Rightarrow>
             (if neg then (if int n \<le> 2 ^ 63 then Some (- int n) else None)
              else if int n < 2 ^ 63 then Some (int n) else None))"

section \<open>Durations\<close>

text \<open>A \<^verbatim>\<open>time.Duration\<close> counts nanoseconds.\<close>

type_synonym duration = int

abbreviation Millisecond :: duration where "Millisecond \<equiv> 1000000"
abbreviation Second :: duration where "Second \<equiv> 1000000000"
abbreviation Minute :: duration where "Minute \<equiv> 60000000000"

text \<open>\<^verbatim>\<open>time.ParseDuration\<close> accepts a sign and then one or more decimal numbers with a unit.
  \<open>leadingInt\<close> and \<open>leadingFraction\<close> are the helpers of the Go library; the limit is that
  of its 64-bit counters. The library scales a fraction in floating point; the model takes
  the exact quotient, rounded down.\<close>

fun leadingInt :: "nat \<Rightarrow> string \<Rightarrow> (nat \<times> string) option" where
  "leadingInt x [] = Some (x, [])"
| "leadingInt x (c # cs) =
     (if \<not> is_digit c then Some (x, c # cs)
      else if 2 ^ 63 div 10 < x then None
      else if 2 ^ 63 < 10 * x + digit_val c then None
      else leadingInt (10 * x + digit_val c) cs)"

fun leadingFraction :: "nat \<Rightarrow> nat \<Rightarrow> bool \<Rightarrow> string \<Rightarrow> nat \<times> nat \<times> string" where
  "leadingFraction x scale overflow [] = (x, scale, [])"
| "leadingFraction x scale overflow (c # cs) =
     (if \<not> is_digit c then (x, scale, c # cs)
      else if overflow then leadingFraction x scale overflow cs
      else if (2 ^ 63 - 1) div 10 < x then leadingFraction x scale True cs
      else if 2 ^ 63 < 10 * x + digit_val c then leadingFraction x scale True cs
      else leadingFraction (10 * x + digit_val c) (10 * scale) False cs)"

definition unit_char :: "char \<Rightarrow> bool" where
  "unit_char c \<longleftrightarrow> c \<noteq> CHR ''.'' \<and> \<not> is_digit c"

definition unit_value :: "string \<Rightarrow> nat option" where
  "unit_value u =
     (if u = ''ns'' then Some 1
      else if u = ''us'' \<or> u = [CHR 0xC2, CHR 0xB5, CHR ''s''] \<or> u = [CHR 0xCE, CHR 0xBC, CHR ''s'']
        then Some 1000
      else if u = ''ms'' then Some 1000000
      else if u = ''s'' then Some 1000000000
      else if u = ''m'' then Some 60000000000
      else if u = ''h'' then Some 3600000000000 else None)"

text \<open>One round of the loop: the value of the leading number with its unit, and the rest.\<close>

definition duration_item :: "string \<Rightarrow> (nat \<times> string) option" where
  "duration_item s =
     (if s = [] \<or> \<not> (hd s = CHR ''.'' \<or> is_digit (hd s)) then None
      else case leadingInt 0 s of
        None \<Rightarrow> None
      | Some (v, s1) \<Rightarrow>
          (let pre = length s1 \<noteq> length s;
               dot = s1 \<noteq> [] \<and> hd s1 = CHR ''.'';
               (f, scale, s2) = (if dot then leadingFraction 0 1 False (tl s1) else (0, 1, s1));
               post = (dot \<and> length s2 \<noteq> length (tl s1));
               u = takeWhile unit_char s2;
               s3 = dropWhile unit_char s2
           in if \<not> pre \<and> \<not> post then None
              else if u = [] then None
              else case unit_value u of
                None \<Rightarrow> None
              | Some unit \<Rightarrow>
                  (if 2 ^ 63 div unit < v then None
                   else let w = v * unit + f * unit div scale
                        in if 0 < f \<and> 2 ^ 63 < w then None else Some (w, s3))))"

lemma leadingInt_length: "leadingInt x s = Some (v, s') \<Longrightarrow> length s' \<le> length s"
  by (induction x s rule: leadingInt.induct) (auto split: if_splits)

lemma leadingFraction_length: "leadingFraction x sc ov s = (f, sc', s') \<Longrightarrow> length s' \<le> length s"
  by (induction x sc ov s rule: leadingFraction.induct) (auto split: if_splits)

lemma dropWhile_shorter: "takeWhile P s \<noteq> [] \<Longrightarrow> length (dropWhile P s) < length s"
  by (metis length_append length_greater_0_conv less_add_same_cancel2 takeWhile_dropWhile_id)

lemma duration_item_length: "duration_item s = Some (w, s') \<Longrightarrow> length s' < length s"
proof -
  assume a: "duration_item s = Some (w, s')"
  then obtain v s1 where i: "leadingInt 0 s = Some (v, s1)"
    by (auto simp: duration_item_def split: if_splits option.splits)
  define r where "r = (if s1 \<noteq> [] \<and> hd s1 = CHR ''.'' then leadingFraction 0 1 False (tl s1) else (0, 1, s1))"
  obtain f sc s2 where r: "r = (f, sc, s2)" by (cases r)
  have le: "length s2 \<le> length s"
    using r leadingInt_length [OF i] leadingFraction_length [of 0 1 False "tl s1" f sc s2]
    by (cases s1) (auto simp: r_def split: if_splits)
  from a i r have "takeWhile unit_char s2 \<noteq> []" "s' = dropWhile unit_char s2"
    by (auto simp: duration_item_def r_def [symmetric] Let_def split: if_splits option.splits)
  with le dropWhile_shorter show ?thesis by (metis order_less_le_trans)
qed

function duration_loop :: "nat \<Rightarrow> string \<Rightarrow> nat option" where
  "duration_loop d s =
     (if s = [] then Some d
      else case duration_item s of
        None \<Rightarrow> None
      | Some (v, s') \<Rightarrow>
          (let d' = (d + v) mod 2 ^ 64 in if 2 ^ 63 < d' then None else duration_loop d' s'))"
  by pat_completeness auto
termination
  by (relation "measure (\<lambda>(d, s). length s)") (auto dest: duration_item_length)

declare duration_loop.simps [simp del]

definition ParseDuration :: "string \<Rightarrow> duration option" where
  "ParseDuration s =
     (let neg = HasPrefix s ''-'';
          s1 = (if neg \<or> HasPrefix s ''+'' then tl s else s)
      in if s1 = ''0'' then Some 0
         else if s1 = [] then None
         else case duration_loop 0 s1 of
           None \<Rightarrow> None
         | Some d \<Rightarrow>
             (if neg then Some (- int d)
              else if 2 ^ 63 - 1 < d then None else Some (int d)))"

lemma ParseDuration_examples:
  "ParseDuration ''15s'' = Some (15 * Second)"
  "ParseDuration ''5s'' = Some (5 * Second)"
  "ParseDuration ''1h30m'' = Some (90 * Minute)"
  "ParseDuration ''1.5s'' = Some (1500 * Millisecond)"
  "ParseDuration ''forever'' = None"
  "ParseDuration ''-3m'' = Some (-3 * Minute)"
  by (simp_all add: ParseDuration_def duration_loop.simps duration_item_def HasPrefix_def
    char_defs unit_char_def unit_value_def Let_def)


section \<open>UTF-8\<close>

text \<open>\<^verbatim>\<open>utf8.ValidString\<close>: every byte starts or continues a shortest encoding of a code point that is
  not a surrogate.\<close>

fun tail_bytes :: "nat \<Rightarrow> nat \<Rightarrow> nat list \<Rightarrow> bool" where
  "tail_bytes lo hi [] = False"
| "tail_bytes lo hi (b # bs) \<longleftrightarrow> lo \<le> b \<and> b \<le> hi"

fun utf8_bytes :: "nat list \<Rightarrow> bool" where
  "utf8_bytes [] = True"
| "utf8_bytes (b # bs) =
     (if b < 128 then utf8_bytes bs
      else if 194 \<le> b \<and> b \<le> 223 then tail_bytes 128 191 bs \<and> utf8_bytes (drop 1 bs)
      else if 224 \<le> b \<and> b \<le> 239 then
        tail_bytes (if b = 224 then 160 else 128) (if b = 237 then 159 else 191) bs
        \<and> tail_bytes 128 191 (drop 1 bs) \<and> utf8_bytes (drop 2 bs)
      else if 240 \<le> b \<and> b \<le> 244 then
        tail_bytes (if b = 240 then 144 else 128) (if b = 244 then 143 else 191) bs
        \<and> tail_bytes 128 191 (drop 1 bs) \<and> tail_bytes 128 191 (drop 2 bs) \<and> utf8_bytes (drop 3 bs)
      else False)"

definition ValidString :: "string \<Rightarrow> bool" where
  "ValidString s = utf8_bytes (map char_code s)"

lemma ValidString_ASCII: "list_all (\<lambda>c. char_code c < 128) s \<Longrightarrow> ValidString s"
  by (induction s) (simp_all add: ValidString_def)

lemma ValidString_examples:
  "ValidString ''unknown''" "ValidString [char_of (0xC3::nat), char_of (0xA9::nat)]"
  "\<not> ValidString [char_of (0xC3::nat)]" "\<not> ValidString [char_of (0xED::nat), char_of (0xA0::nat), char_of (0x80::nat)]"
  by (simp_all add: ValidString_def char_code_def)

end
