(* ===== verification/Domain_List.thy ===== *)
theory Domain_List
  imports Go_Strings
begin

text \<open>
  Domain lists (\<^verbatim>\<open>internal/config/lists.go\<close>): the parser of list files and the regular
  expressions that \<^verbatim>\<open>TemplateToRegex\<close> builds. The expressions are those of Go's \<^verbatim>\<open>regexp\<close>
  that the program uses (literals, a negated class, star and concatenation, anchored at both
  ends), matched by derivatives; \<open>lang\<close> is their language.
\<close>

section \<open>Anchored regular expressions\<close>

datatype cclass = This char | Except char

fun in_class :: "char \<Rightarrow> cclass \<Rightarrow> bool" where
  "in_class c (This d) = (c = d)"
| "in_class c (Except d) = (c \<noteq> d)"

datatype rx = Empty | Eps | Sym cclass | Seq rx rx | Alt rx rx | Star rx

fun nullable :: "rx \<Rightarrow> bool" where
  "nullable Empty = False"
| "nullable Eps = True"
| "nullable (Sym k) = False"
| "nullable (Seq a b) = (nullable a \<and> nullable b)"
| "nullable (Alt a b) = (nullable a \<or> nullable b)"
| "nullable (Star a) = True"

fun deriv :: "char \<Rightarrow> rx \<Rightarrow> rx" where
  "deriv c Empty = Empty"
| "deriv c Eps = Empty"
| "deriv c (Sym k) = (if in_class c k then Eps else Empty)"
| "deriv c (Seq a b) =
     (if nullable a then Alt (Seq (deriv c a) b) (deriv c b) else Seq (deriv c a) b)"
| "deriv c (Alt a b) = Alt (deriv c a) (deriv c b)"
| "deriv c (Star a) = Seq (deriv c a) (Star a)"

text \<open>\<^verbatim>\<open>Regexp.MatchString\<close> of \<^verbatim>\<open>^r$\<close>.\<close>

fun MatchString :: "rx \<Rightarrow> string \<Rightarrow> bool" where
  "MatchString r [] = nullable r"
| "MatchString r (c # s) = MatchString (deriv c r) s"

inductive_set star_of :: "string set \<Rightarrow> string set" for A where
  nil: "[] \<in> star_of A"
| app: "u \<in> A \<Longrightarrow> v \<in> star_of A \<Longrightarrow> u @ v \<in> star_of A"

fun lang :: "rx \<Rightarrow> string set" where
  "lang Empty = {}"
| "lang Eps = {[]}"
| "lang (Sym k) = {[c] |c. in_class c k}"
| "lang (Seq a b) = {u @ v |u v. u \<in> lang a \<and> v \<in> lang b}"
| "lang (Alt a b) = lang a \<union> lang b"
| "lang (Star a) = star_of (lang a)"

lemma nullable_lang: "nullable r \<longleftrightarrow> [] \<in> lang r"
  by (induction r) (auto intro: star_of.nil)

lemma star_of_Cons: "c # s \<in> star_of A \<longleftrightarrow> (\<exists>u v. c # u \<in> A \<and> v \<in> star_of A \<and> s = u @ v)"
proof
  show "\<exists>u v. c # u \<in> A \<and> v \<in> star_of A \<and> s = u @ v" if "c # s \<in> star_of A"
    using that
  proof (induction "c # s" rule: star_of.induct)
    case (app u v)
    then show ?case by (cases u) auto
  qed
  show "c # s \<in> star_of A" if "\<exists>u v. c # u \<in> A \<and> v \<in> star_of A \<and> s = u @ v"
    using that star_of.app [of "c # _" A] by fastforce
qed

lemma seq_Cons:
  "(\<exists>u v. c # s = u @ v \<and> P u \<and> Q v) \<longleftrightarrow> (P [] \<and> Q (c # s)) \<or> (\<exists>u v. s = u @ v \<and> P (c # u) \<and> Q v)"
  by (auto simp: Cons_eq_append_conv)

lemma deriv_lang: "s \<in> lang (deriv c r) \<longleftrightarrow> c # s \<in> lang r"
proof (induction r arbitrary: s)
  case (Seq a b)
  then show ?case using seq_Cons [of c s "\<lambda>u. u \<in> lang a" "\<lambda>v. v \<in> lang b"]
    by (auto simp: nullable_lang)
next
  case (Star a)
  then show ?case by (auto simp: star_of_Cons)
qed auto

lemma MatchString_lang: "MatchString r s \<longleftrightarrow> s \<in> lang r"
  by (induction s arbitrary: r) (simp_all add: nullable_lang deriv_lang)

section \<open>Templates\<close>

text \<open>The expression \<^verbatim>\<open>regexp.QuoteMeta(s)\<close> compiles to: the bytes of \<open>s\<close>.\<close>

fun literal :: "string \<Rightarrow> rx" where
  "literal [] = Eps"
| "literal (c # cs) = Seq (Sym (This c)) (literal cs)"

text \<open>\<^verbatim>\<open>(?:[^.]+\.)*\<close>\<close>

definition labels :: rx where
  "labels = Star (Seq (Sym (Except CHR ''.'')) (Seq (Star (Sym (Except CHR ''.''))) (Sym (This CHR ''.''))))"

definition TemplateToRegex :: "string \<Rightarrow> rx" where
  "TemplateToRegex template =
     (if HasPrefix template ''.''
      then Seq labels (literal (TrimPrefix template ''.''))
      else literal template)"

section \<open>List files\<close>

record DomainRecord =
  dr_RegexpText :: string
  dr_Regexp :: "rx option"
  dr_Actions :: "(string, string) gomap option"

datatype list_error = FileError | LineTooLong | BadName string

definition newline :: char where "newline = CHR 0x0A"

text \<open>\<^verbatim>\<open>bufio.Scanner\<close> in its default mode: lines without their \<^verbatim>\<open>\n\<close> and final \<^verbatim>\<open>\r\<close>; a line
  that fills the buffer of 65536 bytes is an error.\<close>

definition max_token :: nat where "max_token = 65536"

definition drop_cr :: "string \<Rightarrow> string" where
  "drop_cr l = TrimSuffix l [CHR 0x0D]"

definition raw_lines :: "string \<Rightarrow> string list" where
  "raw_lines content =
     (let segs = Split newline content in if last segs = [] then butlast segs else segs)"

definition parse_pair :: "(string, string) gomap \<Rightarrow> string \<Rightarrow> (string, string) gomap" where
  "parse_pair actions pair =
     (let p = TrimSpace pair
      in if p = '''' then actions
         else case SplitN2 CHR ''='' p of
           [k, v] \<Rightarrow> AList.update (TrimSpace k) (TrimSpace v) actions
         | [k] \<Rightarrow> AList.update (TrimSpace k) '''' actions
         | _ \<Rightarrow> actions)"

definition parse_actions :: "string \<Rightarrow> (string, string) gomap option" where
  "parse_actions part =
     (let actions = foldl parse_pair [] (Split CHR '','' (TrimSpace part))
      in if actions = [] then None else Some actions)"

text \<open>The records of one line of a list file.\<close>

definition parse_line :: "string \<Rightarrow> DomainRecord list" where
  "parse_line text_line =
     (let line = TrimSpace text_line
      in if line = '''' \<or> HasPrefix line ''#'' then []
         else
           let parts = SplitN2 CHR '';'' line;
               mainPart = TrimSpace (hd parts);
               actions = (if length parts > 1 then parse_actions (parts ! 1) else None);
               names = filter (\<lambda>n. n \<noteq> '''') (map TrimSpace (Split CHR '','' mainPart))
           in map (\<lambda>name. \<lparr>dr_RegexpText = name, dr_Regexp = Some (TemplateToRegex name),
                           dr_Actions = actions\<rparr>) names)"

text \<open>The first error of a sequence of checks.\<close>

fun first_error :: "'e option list \<Rightarrow> 'e option" where
  "first_error [] = None"
| "first_error (None # es) = first_error es"
| "first_error (Some e # es) = Some e"

lemma first_error_None: "first_error es = None \<longleftrightarrow> (\<forall>e \<in> set es. e = None)"
  by (induction es rule: first_error.induct) auto

text \<open>What can go wrong on one line: it fills the buffer of the scanner, or the expression of a name
  does not compile. \<^verbatim>\<open>regexp.Compile\<close> takes every quoted name that is valid UTF-8.\<close>

definition line_error :: "string \<Rightarrow> list_error option" where
  "line_error l =
     (if max_token \<le> length l then Some LineTooLong
      else first_error (map (\<lambda>r. if ValidString (dr_RegexpText r) then None else Some (BadName (dr_RegexpText r)))
             (parse_line (drop_cr l))))"

text \<open>\<^verbatim>\<open>DomainList.Load\<close> on the content of the file, \<open>None\<close> when it cannot be opened or read to its end.\<close>

definition LoadList :: "string option \<Rightarrow> list_error + DomainRecord list" where
  "LoadList content =
     (case content of
        None \<Rightarrow> Inl FileError
      | Some text \<Rightarrow>
          (let ls = raw_lines text
           in case first_error (map line_error ls) of
                Some e \<Rightarrow> Inl e
              | None \<Rightarrow> Inr (concat (map (\<lambda>l. parse_line (drop_cr l)) ls))))"

section \<open>What a template matches\<close>

lemma lang_literal [simp]: "lang (literal s) = {s}"
  by (induction s) auto

text \<open>A chain of labels: every label non-empty, without a dot, and followed by one.\<close>

inductive label_chain :: "string \<Rightarrow> bool" where
  none: "label_chain []"
| more: "l \<noteq> [] \<Longrightarrow> CHR ''.'' \<notin> set l \<Longrightarrow> label_chain p \<Longrightarrow> label_chain (l @ CHR ''.'' # p)"

lemma lang_not_dots: "s \<in> star_of {[c] |c. c \<noteq> d} \<longleftrightarrow> d \<notin> set s"
proof
  show "d \<notin> set s" if "s \<in> star_of {[c] |c. c \<noteq> d}"
    using that by (induction rule: star_of.induct) auto
  show "s \<in> star_of {[c] |c. c \<noteq> d}" if "d \<notin> set s"
    using that
  proof (induction s)
    case (Cons c s)
    then show ?case using star_of.app [of "[c]" "{[c] |c. c \<noteq> d}" s] by auto
  qed (rule star_of.nil)
qed

lemma label_lang:
  "lang (Seq (Sym (Except CHR ''.'')) (Seq (Star (Sym (Except CHR ''.''))) (Sym (This CHR ''.'')))) =
   {l @ ''.'' |l. l \<noteq> [] \<and> CHR ''.'' \<notin> set l}"
proof (intro set_eqI iffI)
  fix s assume "s \<in> {l @ ''.'' |l. l \<noteq> [] \<and> CHR ''.'' \<notin> set l}"
  then obtain c t where "s = [c] @ t @ ''.''" "c \<noteq> CHR ''.''" "CHR ''.'' \<notin> set t"
    by (auto simp: neq_Nil_conv)
  then show "s \<in> lang (Seq (Sym (Except CHR ''.'')) (Seq (Star (Sym (Except CHR ''.''))) (Sym (This CHR ''.''))))"
    by - (simp add: lang_not_dots, rule exI [of _ "[c]"], simp)
next
  fix s assume "s \<in> lang (Seq (Sym (Except CHR ''.'')) (Seq (Star (Sym (Except CHR ''.''))) (Sym (This CHR ''.''))))"
  then obtain c t where "s = (c # t) @ ''.''" "c \<noteq> CHR ''.''" "CHR ''.'' \<notin> set t"
    by (auto simp: lang_not_dots)
  then show "s \<in> {l @ ''.'' |l. l \<noteq> [] \<and> CHR ''.'' \<notin> set l}"
    by (intro CollectI exI [of _ "c # t"]) auto
qed

lemma lang_labels: "lang labels = {p. label_chain p}"
proof (intro set_eqI iffI; simp only: labels_def lang.simps(6) label_lang mem_Collect_eq)
  fix p assume "p \<in> star_of {l @ ''.'' |l. l \<noteq> [] \<and> CHR ''.'' \<notin> set l}"
  then show "label_chain p"
    by (induction rule: star_of.induct) (auto intro: label_chain.intros)
next
  fix p assume "label_chain p"
  then show "p \<in> star_of {l @ ''.'' |l. l \<noteq> [] \<and> CHR ''.'' \<notin> set l}"
  proof induction
    case (more l p)
    then show ?case using star_of.app [of "l @ ''.''" _ p] by auto
  qed (rule star_of.nil)
qed

lemma match_exact: "\<not> HasPrefix t ''.'' \<Longrightarrow> MatchString (TemplateToRegex t) host \<longleftrightarrow> host = t"
  by (simp add: TemplateToRegex_def MatchString_lang)

lemma match_suffix:
  "MatchString (TemplateToRegex (CHR ''.'' # t)) host \<longleftrightarrow> (\<exists>p. label_chain p \<and> host = p @ t)"
  by (auto simp: TemplateToRegex_def MatchString_lang lang_labels HasPrefix_def TrimPrefix_def)

end
