(* ===== verification/Config.thy ===== *)
theory Config
  imports Domain_List
begin

text \<open>
  The configuration (\<^verbatim>\<open>internal/config/config.go\<close>): the structs that the YAML package fills,
  the accessors with their defaults, the normalization of strategies, validation, and the
  choice of the policy for a host. The YAML package and the files are the environment of
  \<open>LoadConfig\<close>: the decoded document, the directory of the configuration file and the contents
  of the list files are its arguments.
\<close>

section \<open>Structs\<close>

record Strategy =
  sg_Name :: string
  sg_List :: string
  sg_Action :: string
  sg_Egress :: string
  sg_DPI :: string
  sg_Upstream :: string
  sg_Fallback :: string
  sg_Params :: "(string, string) gomap option"
  sg_ListRecords :: "DomainRecord list"

record Proxy =
  px_Address :: string
  px_Port :: int
  px_ShutdownTimeout :: string

record FakeSni =
  fs_Interface :: string
  fs_Ttl :: int

record Upstream =
  up_Address :: string
  up_Username :: string
  up_Password :: string
  up_ConnectTimeout :: string

record Detection =
  dt_FirstResponseTimeout :: string
  dt_ProbeTimeout :: string
  dt_ProbeFailureBackoff :: string
  dt_FallbackUpstream :: string
  dt_LearnedDomainsFile :: string
  dt_LearnedDomainTTL :: string
  dt_LearnedMaxEntries :: int
  dt_LearnAllowList :: string
  dt_LearnDenyList :: string
  dt_LearnAllowRecords :: "DomainRecord list"
  dt_LearnDenyRecords :: "DomainRecord list"

record Admin =
  ad_Address :: string
  ad_Port :: int

record UpstreamHealth =
  uh_Enabled :: bool
  uh_Interval :: string
  uh_Timeout :: string
  uh_FailureThreshold :: int
  uh_Cooldown :: string

record DefaultPolicy =
  dp_Egress :: string
  dp_DPI :: string
  dp_Upstream :: string
  dp_Fallback :: string

record ResolvedPolicy =
  rp_Name :: string
  rp_Egress :: string
  rp_DPI :: string
  rp_Upstream :: string
  rp_Fallback :: string
  rp_Params :: "(string, string) gomap option"

record Config =
  cf_Proxy :: Proxy
  cf_Admin :: Admin
  cf_FakeSni :: FakeSni
  cf_Upstreams :: "(string, Upstream) gomap"
  cf_UpstreamHealth :: UpstreamHealth
  cf_Detection :: Detection
  cf_Default :: DefaultPolicy
  cf_Strategy :: "Strategy list"

section \<open>Accessors with defaults\<close>

definition parseDuration :: "string \<Rightarrow> duration \<Rightarrow> duration" where
  "parseDuration value fallback =
     (if value = '''' then fallback
      else case ParseDuration value of None \<Rightarrow> fallback | Some d \<Rightarrow> d)"

definition GracefulTimeout :: "Proxy \<Rightarrow> duration" where
  "GracefulTimeout p = parseDuration (px_ShutdownTimeout p) (15 * Second)"

definition UpstreamTimeout :: "Upstream \<Rightarrow> duration" where
  "UpstreamTimeout u = parseDuration (up_ConnectTimeout u) (5 * Second)"

definition ResponseTimeout :: "Detection \<Rightarrow> duration" where
  "ResponseTimeout d = parseDuration (dt_FirstResponseTimeout d) (3 * Second)"

definition FallbackProbeTimeout :: "Detection \<Rightarrow> duration" where
  "FallbackProbeTimeout d = parseDuration (dt_ProbeTimeout d) (5 * Second)"

definition FailureBackoff :: "Detection \<Rightarrow> duration" where
  "FailureBackoff d = parseDuration (dt_ProbeFailureBackoff d) (5 * Minute)"

definition LearnedTTL :: "Detection \<Rightarrow> duration" where
  "LearnedTTL d = parseDuration (dt_LearnedDomainTTL d) 0"

definition LearnedLimit :: "Detection \<Rightarrow> int" where
  "LearnedLimit d = (if dt_LearnedMaxEntries d = 0 then 10000 else dt_LearnedMaxEntries d)"

definition CheckInterval :: "UpstreamHealth \<Rightarrow> duration" where
  "CheckInterval h = parseDuration (uh_Interval h) (30 * Second)"

definition CheckTimeout :: "UpstreamHealth \<Rightarrow> duration" where
  "CheckTimeout h = parseDuration (uh_Timeout h) (5 * Second)"

definition OpenCooldown :: "UpstreamHealth \<Rightarrow> duration" where
  "OpenCooldown h = parseDuration (uh_Cooldown h) (30 * Second)"

definition Threshold :: "UpstreamHealth \<Rightarrow> int" where
  "Threshold h = (if uh_FailureThreshold h \<le> 0 then 3 else uh_FailureThreshold h)"

definition AdminEnabled :: "Admin \<Rightarrow> bool" where
  "AdminEnabled a \<longleftrightarrow> 0 < ad_Port a"

section \<open>List matching\<close>

definition record_matches :: "string \<Rightarrow> DomainRecord \<Rightarrow> bool" where
  "record_matches host r = (case dr_Regexp r of None \<Rightarrow> False | Some re \<Rightarrow> MatchString re host)"

definition recordsMatch :: "DomainRecord list \<Rightarrow> string \<Rightarrow> bool" where
  "recordsMatch records host =
     (let h = TrimSuffix (ToLower (TrimSpace host)) ''.'' in list_ex (record_matches h) records)"

definition strategy_matches :: "Strategy \<Rightarrow> string \<Rightarrow> bool" where
  "strategy_matches s host =
     (let h = TrimSuffix (ToLower (TrimSpace host)) ''.'' in list_ex (record_matches h) (sg_ListRecords s))"

definition CanLearn :: "Detection \<Rightarrow> string \<Rightarrow> bool \<times> string" where
  "CanLearn d host =
     (if recordsMatch (dt_LearnDenyRecords d) host then (False, ''deny_list'')
      else if dt_LearnAllowList d \<noteq> '''' \<and> \<not> recordsMatch (dt_LearnAllowRecords d) host
        then (False, ''not_in_allow_list'')
      else (True, ''''))"

section \<open>Normalization and validation\<close>

definition normalizeStrategy :: "Config \<Rightarrow> Strategy \<Rightarrow> Strategy" where
  "normalizeStrategy c s =
     (let act = ToLower (sg_Action s);
          s1 = (if sg_Egress s = ''''
                then s\<lparr>sg_Egress := (if act = ''socks5'' then ''socks5'' else ''direct'')\<rparr> else s);
          s2 = (if sg_DPI s1 = ''''
                then s1\<lparr>sg_DPI := (if act = ''fake-sni'' \<or> act = ''fragment'' then act else ''none'')\<rparr> else s1);
          s3 = (if sg_Upstream s2 = ''''
                then (case sg_Params s2 of
                        None \<Rightarrow> s2
                      | Some ps \<Rightarrow> s2\<lparr>sg_Upstream := (case map_of ps ''upstream'' of None \<Rightarrow> '''' | Some u \<Rightarrow> u)\<rparr>)
                else s2)
      in if sg_Fallback s3 = '''' then s3\<lparr>sg_Fallback := dt_FallbackUpstream (cf_Detection c)\<rparr> else s3)"

datatype config_error =
    ReadConfigError | BadShutdownTimeout | NonPositiveShutdownTimeout
  | UpstreamWithoutAddress string | BadConnectTimeout string
  | BadFirstResponseTimeout | BadProbeTimeout | BadBackoff | NonPositiveBackoff
  | NegativeMaxEntries | BadTTL | NegativeTTL | BadAdminPort
  | BadHealthDuration string | NonPositiveHealthDuration string | NegativeThreshold
  | UnsupportedEgress string string | UnsupportedDPI string string
  | UnknownUpstream string string | UnknownFallback string string
  | FilterListError string list_error | StrategyListError string list_error

definition validatePolicy ::
  "Config \<Rightarrow> string \<Rightarrow> string \<Rightarrow> string \<Rightarrow> string \<Rightarrow> string \<Rightarrow> config_error option" where
  "validatePolicy c name egress dpi upstream fallback =
     (if egress \<noteq> ''direct'' \<and> egress \<noteq> ''socks5'' then Some (UnsupportedEgress name egress)
      else if dpi \<noteq> ''none'' \<and> dpi \<noteq> ''fragment'' \<and> dpi \<noteq> ''fake-sni'' then Some (UnsupportedDPI name dpi)
      else if egress = ''socks5'' \<and> map_of (cf_Upstreams c) upstream = None
        then Some (UnknownUpstream name upstream)
      else if fallback \<noteq> '''' \<and> fallback \<noteq> ''none'' \<and> map_of (cf_Upstreams c) fallback = None
        then Some (UnknownFallback name fallback)
      else None)"

text \<open>A duration that may be absent: it must parse, and its value must pass a test.\<close>

definition check_duration :: "string \<Rightarrow> 'e \<Rightarrow> (duration \<Rightarrow> bool) \<Rightarrow> 'e \<Rightarrow> 'e option" where
  "check_duration value bad test e =
     (if value = '''' then None
      else case ParseDuration value of
        None \<Rightarrow> Some bad
      | Some d \<Rightarrow> if test d then None else Some e)"

definition check_upstream :: "string \<times> Upstream \<Rightarrow> config_error option" where
  "check_upstream nu =
     (case nu of (name, u) \<Rightarrow>
        if TrimSpace (up_Address u) = '''' then Some (UpstreamWithoutAddress name)
        else check_duration (up_ConnectTimeout u) (BadConnectTimeout name) (\<lambda>_. True) (BadConnectTimeout name))"

definition check_strategy :: "Config \<Rightarrow> Strategy \<Rightarrow> config_error option" where
  "check_strategy c s = validatePolicy c (sg_Name s) (sg_Egress s) (sg_DPI s) (sg_Upstream s) (sg_Fallback s)"

definition check_health :: "UpstreamHealth \<Rightarrow> config_error option" where
  "check_health h =
     (if \<not> uh_Enabled h then None
      else first_error
        [check_duration (uh_Interval h) (BadHealthDuration ''interval'') (\<lambda>d. 0 < d) (NonPositiveHealthDuration ''interval''),
         check_duration (uh_Timeout h) (BadHealthDuration ''timeout'') (\<lambda>d. 0 < d) (NonPositiveHealthDuration ''timeout''),
         check_duration (uh_Cooldown h) (BadHealthDuration ''cooldown'') (\<lambda>d. 0 < d) (NonPositiveHealthDuration ''cooldown''),
         if uh_FailureThreshold h < 0 then Some NegativeThreshold else None])"

definition Validate :: "Config \<Rightarrow> config_error option" where
  "Validate c =
     (let d = cf_Detection c
      in first_error
       ([check_duration (px_ShutdownTimeout (cf_Proxy c)) BadShutdownTimeout (\<lambda>t. 0 < t) NonPositiveShutdownTimeout]
        @ map check_upstream (cf_Upstreams c)
        @ [check_duration (dt_FirstResponseTimeout d) BadFirstResponseTimeout (\<lambda>_. True) BadFirstResponseTimeout,
           check_duration (dt_ProbeTimeout d) BadProbeTimeout (\<lambda>_. True) BadProbeTimeout,
           check_duration (dt_ProbeFailureBackoff d) BadBackoff (\<lambda>b. 0 < b) NonPositiveBackoff,
           if dt_LearnedMaxEntries d < 0 then Some NegativeMaxEntries else None,
           check_duration (dt_LearnedDomainTTL d) BadTTL (\<lambda>t. 0 \<le> t) NegativeTTL,
           if ad_Port (cf_Admin c) < 0 \<or> 65535 < ad_Port (cf_Admin c) then Some BadAdminPort else None,
           check_health (cf_UpstreamHealth c)]
        @ map (check_strategy c) (cf_Strategy c)
        @ [validatePolicy c ''default'' (dp_Egress (cf_Default c)) (dp_DPI (cf_Default c))
             (dp_Upstream (cf_Default c)) (dp_Fallback (cf_Default c))]))"

section \<open>Policies\<close>

fun first_match :: "string \<Rightarrow> Strategy list \<Rightarrow> Strategy option" where
  "first_match host [] = None"
| "first_match host (s # ss) = (if strategy_matches s host then Some s else first_match host ss)"

definition PolicyFor :: "Config \<Rightarrow> string \<Rightarrow> string \<Rightarrow> ResolvedPolicy" where
  "PolicyFor c host learnedUpstream =
     (let d = cf_Default c;
          p0 = \<lparr>rp_Name = ''default'', rp_Egress = dp_Egress d, rp_DPI = dp_DPI d,
                rp_Upstream = dp_Upstream d, rp_Fallback = dp_Fallback d, rp_Params = None\<rparr>;
          p1 = (if rp_Fallback p0 = '''' then p0\<lparr>rp_Fallback := dt_FallbackUpstream (cf_Detection c)\<rparr> else p0);
          p2 = (case first_match host (cf_Strategy c) of
                  None \<Rightarrow> p1
                | Some s \<Rightarrow> \<lparr>rp_Name = sg_Name s, rp_Egress = sg_Egress s, rp_DPI = sg_DPI s,
                            rp_Upstream = sg_Upstream s, rp_Fallback = sg_Fallback s, rp_Params = sg_Params s\<rparr>)
      in if map_of (cf_Upstreams c) learnedUpstream \<noteq> None \<and> rp_Egress p2 \<noteq> ''socks5'' \<and> rp_Fallback p2 \<noteq> ''none''
         then p2\<lparr>rp_Name := ''learned-domain'', rp_Egress := ''socks5'', rp_DPI := ''none'',
                 rp_Upstream := learnedUpstream\<rparr>
         else p2)"

definition policy_TTL :: "ResolvedPolicy \<Rightarrow> int \<Rightarrow> int" where
  "policy_TTL p defaultTTL =
     (case rp_Params p of
        None \<Rightarrow> defaultTTL
      | Some ps \<Rightarrow>
          (let v = (case map_of ps ''ttl'' of None \<Rightarrow> '''' | Some v \<Rightarrow> v)
           in if v = '''' then defaultTTL
              else case Atoi v of
                None \<Rightarrow> defaultTTL
              | Some ttl \<Rightarrow> if ttl < 1 \<or> 255 < ttl then defaultTTL else ttl))"

text \<open>\<^verbatim>\<open>IsFakeStrategy\<close> slices off the last byte of the host, which panics on the empty host.\<close>

definition IsFakeStrategy :: "Config \<Rightarrow> string \<Rightarrow> (config_error, bool \<times> string) outcome" where
  "IsFakeStrategy c targetHost =
     (if list_ex (\<lambda>cr. sg_Action cr = ''fake-sni'' \<and> list_ex (record_matches targetHost) (sg_ListRecords cr))
           (cf_Strategy c)
      then (if targetHost = '''' then Panic else Ok (True, butlast targetHost @ ''x''))
      else Ok (False, targetHost))"

section \<open>Loading\<close>

text \<open>\<^verbatim>\<open>path/filepath\<close> on a Unix system; \<open>Join\<close> is applied to an absolute directory only.\<close>

definition IsAbs :: "string \<Rightarrow> bool" where
  "IsAbs p \<longleftrightarrow> HasPrefix p ''/''"

fun clean_step :: "string list \<Rightarrow> string \<Rightarrow> string list" where
  "clean_step stack elem =
     (if elem = '''' \<or> elem = ''.'' then stack
      else if elem = ''..'' then (if stack = [] then [] else butlast stack)
      else stack @ [elem])"

definition JoinPath :: "string \<Rightarrow> string \<Rightarrow> string" where
  "JoinPath dir p =
     CHR ''/'' # Join CHR ''/'' (foldl clean_step [] (Split CHR ''/'' (dir @ CHR ''/'' # p)))"

definition resolve_path :: "string \<Rightarrow> string \<Rightarrow> string" where
  "resolve_path baseDir p = (if IsAbs p then p else JoinPath baseDir p)"

definition set_defaults :: "string \<Rightarrow> Config \<Rightarrow> Config" where
  "set_defaults baseDir c =
     (let d0 = cf_Default c;
          d1 = (if dp_Egress d0 = '''' then d0\<lparr>dp_Egress := ''direct''\<rparr> else d0);
          d2 = (if dp_DPI d1 = '''' then d1\<lparr>dp_DPI := ''none''\<rparr> else d1);
          a = cf_Admin c;
          a1 = (if AdminEnabled a \<and> ad_Address a = '''' then a\<lparr>ad_Address := ''127.0.0.1''\<rparr> else a);
          t = cf_Detection c;
          t1 = (if dt_FallbackUpstream t \<noteq> '''' \<and> dt_LearnedDomainsFile t = ''''
                then t\<lparr>dt_LearnedDomainsFile := JoinPath baseDir ''learned-domains.yml''\<rparr>
                else if dt_LearnedDomainsFile t \<noteq> '''' \<and> \<not> IsAbs (dt_LearnedDomainsFile t)
                then t\<lparr>dt_LearnedDomainsFile := JoinPath baseDir (dt_LearnedDomainsFile t)\<rparr> else t)
      in c\<lparr>cf_Default := d2, cf_Admin := a1, cf_Detection := t1\<rparr>)"

definition load_filter ::
  "(string \<Rightarrow> string option) \<Rightarrow> string \<Rightarrow> string \<Rightarrow> config_error + (string \<times> DomainRecord list option)" where
  "load_filter read_file baseDir path =
     (if path = '''' then Inr ('''', None)
      else let p = resolve_path baseDir path
           in case LoadList (read_file p) of
                Inl e \<Rightarrow> Inl (FilterListError p e)
              | Inr records \<Rightarrow> Inr (p, Some records))"

definition load_filters :: "(string \<Rightarrow> string option) \<Rightarrow> string \<Rightarrow> Config \<Rightarrow> config_error + Config" where
  "load_filters read_file baseDir c =
     (let t = cf_Detection c
      in case load_filter read_file baseDir (dt_LearnAllowList t) of
           Inl e \<Rightarrow> Inl e
         | Inr (pa, ra) \<Rightarrow>
             (case load_filter read_file baseDir (dt_LearnDenyList t) of
                Inl e \<Rightarrow> Inl e
              | Inr (pd, rd) \<Rightarrow>
                  Inr (c\<lparr>cf_Detection := t\<lparr>
                    dt_LearnAllowList := pa,
                    dt_LearnAllowRecords := (case ra of None \<Rightarrow> dt_LearnAllowRecords t | Some r \<Rightarrow> r),
                    dt_LearnDenyList := pd,
                    dt_LearnDenyRecords := (case rd of None \<Rightarrow> dt_LearnDenyRecords t | Some r \<Rightarrow> r)\<rparr>\<rparr>)))"

definition load_strategy ::
  "(string \<Rightarrow> string option) \<Rightarrow> string \<Rightarrow> Config \<Rightarrow> Strategy \<Rightarrow> config_error + Strategy" where
  "load_strategy read_file baseDir c s =
     (let s1 = normalizeStrategy c s
      in if sg_List s1 = '''' then Inr s1
         else let s2 = s1\<lparr>sg_List := resolve_path baseDir (sg_List s1)\<rparr>
              in case LoadList (read_file (sg_List s2)) of
                   Inl e \<Rightarrow> Inl (StrategyListError (sg_Name s2) e)
                 | Inr records \<Rightarrow> Inr (s2\<lparr>sg_ListRecords := records\<rparr>))"

fun load_strategies ::
  "(string \<Rightarrow> string option) \<Rightarrow> string \<Rightarrow> Config \<Rightarrow> Strategy list \<Rightarrow> config_error + Strategy list" where
  "load_strategies read_file baseDir c [] = Inr []"
| "load_strategies read_file baseDir c (s # ss) =
     (case load_strategy read_file baseDir c s of
        Inl e \<Rightarrow> Inl e
      | Inr s' \<Rightarrow>
          (case load_strategies read_file baseDir c ss of
             Inl e \<Rightarrow> Inl e
           | Inr ss' \<Rightarrow> Inr (s' # ss')))"

text \<open>
  \<open>decoded\<close> is the result of reading the file and decoding it (\<open>None\<close> for either failure), with
  the fields that carry the YAML tag \<^verbatim>\<open>-\<close> empty; \<open>baseDir\<close> is its absolute directory.
\<close>

definition LoadConfig ::
  "Config option \<Rightarrow> string \<Rightarrow> (string \<Rightarrow> string option) \<Rightarrow> config_error + Config" where
  "LoadConfig decoded baseDir read_file =
     (case decoded of
        None \<Rightarrow> Inl ReadConfigError
      | Some c \<Rightarrow>
          (case load_filters read_file baseDir (set_defaults baseDir c) of
             Inl e \<Rightarrow> Inl e
           | Inr c1 \<Rightarrow>
               (case load_strategies read_file baseDir c1 (cf_Strategy c1) of
                  Inl e \<Rightarrow> Inl e
                | Inr ss \<Rightarrow>
                    (let c2 = c1\<lparr>cf_Strategy := ss\<rparr>
                     in case Validate c2 of Some e \<Rightarrow> Inl e | None \<Rightarrow> Inr c2))))"

end
