(* ===== verification/Upstream_Manager.thy ===== *)
theory Upstream_Manager
  imports Config
begin

text \<open>
  The health and circuit-breaker manager of the SOCKS5 upstreams
  (\<^verbatim>\<open>internal/upstream/manager.go\<close>). Every method holds the mutex for its whole body, so a
  method is one function on the manager; the clock reading is an argument, and a \<^verbatim>\<open>nil\<close> manager
  is \<open>None\<close>. An error is its text.
\<close>

section \<open>State\<close>

record State =
  us_Name :: string
  us_Address :: string
  us_Health :: string
  us_Circuit :: string
  us_ConsecutiveFailures :: int
  us_LastCheck :: time
  us_LastSuccess :: time
  us_OpenUntil :: time
  us_LastError :: string

record managedState = State +
  ms_halfOpenInFlight :: bool

record Manager =
  mg_config :: UpstreamHealth
  mg_upstreams :: "(string, Upstream) gomap"
  mg_states :: "(string, managedState) gomap"

definition fresh_state :: "string \<Rightarrow> Upstream \<Rightarrow> managedState" where
  "fresh_state name u =
     \<lparr>us_Name = name, us_Address = up_Address u, us_Health = ''unknown'', us_Circuit = ''closed'',
      us_ConsecutiveFailures = 0, us_LastCheck = 0, us_LastSuccess = 0, us_OpenUntil = 0, us_LastError = '''',
      ms_halfOpenInFlight = False\<rparr>"

definition New :: "(string, Upstream) gomap \<Rightarrow> UpstreamHealth \<Rightarrow> Manager" where
  "New upstreams health =
     \<lparr>mg_config = health, mg_upstreams = upstreams,
      mg_states = map (\<lambda>(name, u). (name, fresh_state name u)) upstreams\<rparr>"

section \<open>Operations\<close>

definition Enabled :: "Manager option \<Rightarrow> bool" where
  "Enabled m \<longleftrightarrow> (case m of None \<Rightarrow> False | Some mg \<Rightarrow> uh_Enabled (mg_config mg))"

definition put_state :: "string \<Rightarrow> managedState \<Rightarrow> Manager \<Rightarrow> Manager" where
  "put_state name s m = m\<lparr>mg_states := AList.update name s (mg_states m)\<rparr>"

definition Allow :: "time \<Rightarrow> string \<Rightarrow> Manager \<Rightarrow> bool \<times> Manager" where
  "Allow now name m =
     (if \<not> uh_Enabled (mg_config m) then (True, m)
      else case map_of (mg_states m) name of
        None \<Rightarrow> (False, m)
      | Some s \<Rightarrow>
          if us_Circuit s \<noteq> ''open'' \<and> us_Circuit s \<noteq> ''half-open'' then (True, m)
          else if us_Circuit s = ''open'' \<and> now < us_OpenUntil s then (False, m)
          else if ms_halfOpenInFlight s then (False, m)
          else (True, put_state name (s\<lparr>us_Circuit := ''half-open'', ms_halfOpenInFlight := True\<rparr>) m))"

definition unknown_state :: "string \<Rightarrow> State" where
  "unknown_state name =
     \<lparr>us_Name = name, us_Address = '''', us_Health = ''unknown'', us_Circuit = ''closed'',
      us_ConsecutiveFailures = 0, us_LastCheck = 0, us_LastSuccess = 0, us_OpenUntil = 0, us_LastError = ''''\<rparr>"

definition after_result :: "UpstreamHealth \<Rightarrow> time \<Rightarrow> string option \<Rightarrow> managedState \<Rightarrow> managedState" where
  "after_result cfg now err s0 =
     (let s = s0\<lparr>us_LastCheck := now, ms_halfOpenInFlight := False\<rparr>
      in case err of
        None \<Rightarrow> s\<lparr>us_Health := ''healthy'', us_Circuit := ''closed'', us_ConsecutiveFailures := 0,
                  us_LastSuccess := now, us_OpenUntil := 0, us_LastError := ''''\<rparr>
      | Some e \<Rightarrow>
          (let f = s\<lparr>us_Health := ''unhealthy'', us_ConsecutiveFailures := us_ConsecutiveFailures s + 1,
                     us_LastError := e\<rparr>
           in if uh_Enabled cfg \<and> (us_Circuit f = ''half-open'' \<or> Threshold cfg \<le> us_ConsecutiveFailures f)
              then f\<lparr>us_Circuit := ''open'', us_OpenUntil := now + OpenCooldown cfg\<rparr>
              else f))"

definition Record :: "time \<Rightarrow> string \<Rightarrow> string option \<Rightarrow> Manager \<Rightarrow> State \<times> Manager" where
  "Record now name err m =
     (case map_of (mg_states m) name of
        None \<Rightarrow> (unknown_state name, m)
      | Some s \<Rightarrow>
          (let s' = after_result (mg_config m) now err s
           in (State.truncate s', put_state name s' m)))"

definition Allow_opt :: "time \<Rightarrow> string \<Rightarrow> Manager option \<Rightarrow> bool \<times> Manager option" where
  "Allow_opt now name m =
     (case m of None \<Rightarrow> (True, None) | Some mg \<Rightarrow> apsnd Some (Allow now name mg))"

definition Record_opt :: "time \<Rightarrow> string \<Rightarrow> string option \<Rightarrow> Manager option \<Rightarrow> State \<times> Manager option" where
  "Record_opt now name err m =
     (case m of None \<Rightarrow> (unknown_state name, None) | Some mg \<Rightarrow> apsnd Some (Record now name err mg))"

definition State_of :: "string \<Rightarrow> Manager option \<Rightarrow> State option" where
  "State_of name m =
     (case m of None \<Rightarrow> None | Some mg \<Rightarrow> map_option State.truncate (map_of (mg_states mg) name))"

definition States :: "Manager option \<Rightarrow> State list" where
  "States m =
     (case m of None \<Rightarrow> []
      | Some mg \<Rightarrow> sort_key us_Name (map (\<lambda>(n, s). State.truncate s) (mg_states mg)))"

text \<open>\<^verbatim>\<open>CheckAll\<close>: \<open>probe name u\<close> is the result of the check of the upstream \<open>u\<close> and the time it
  ends; the upstreams are checked one after the other in the order of their names.\<close>

fun check_names ::
  "(string \<Rightarrow> Upstream \<Rightarrow> time \<times> string option) \<Rightarrow> string list \<Rightarrow> Manager \<Rightarrow> State list \<times> Manager" where
  "check_names probe [] m = ([], m)"
| "check_names probe (n # ns) m =
     (case map_of (mg_upstreams m) n of
        None \<Rightarrow> check_names probe ns m
      | Some u \<Rightarrow>
          (let (now, err) = probe n u;
               (st, m1) = Record now n err m;
               (sts, m2) = check_names probe ns m1
           in (st # sts, m2)))"

definition CheckAll ::
  "(string \<Rightarrow> Upstream \<Rightarrow> time \<times> string option) \<Rightarrow> Manager \<Rightarrow> State list \<times> Manager" where
  "CheckAll probe m =
     (if \<not> uh_Enabled (mg_config m) then (States (Some m), m)
      else check_names probe (sort (map fst (mg_upstreams m))) m)"

section \<open>Lemmas on one upstream\<close>

definition circuit_of :: "Manager \<Rightarrow> string \<Rightarrow> string option" where
  "circuit_of m name = map_option us_Circuit (map_of (mg_states m) name)"

lemma put_state_simps [simp]:
  "mg_config (put_state n s m) = mg_config m"
  "mg_upstreams (put_state n s m) = mg_upstreams m"
  "map_of (mg_states (put_state n s m)) n' = (if n' = n then Some s else map_of (mg_states m) n')"
  by (simp_all add: put_state_def map_of_update)

lemma Allow_frame [simp]:
  "mg_config (snd (Allow t n m)) = mg_config m"
  "mg_upstreams (snd (Allow t n m)) = mg_upstreams m"
  "n' \<noteq> n \<Longrightarrow> map_of (mg_states (snd (Allow t n m))) n' = map_of (mg_states m) n'"
  by (simp_all add: Allow_def split: option.split)

lemma Record_frame [simp]:
  "mg_config (snd (Record t n e m)) = mg_config m"
  "mg_upstreams (snd (Record t n e m)) = mg_upstreams m"
  "n' \<noteq> n \<Longrightarrow> map_of (mg_states (snd (Record t n e m))) n' = map_of (mg_states m) n'"
  by (simp_all add: Record_def Let_def split: option.split)

lemma Record_at:
  "map_of (mg_states (snd (Record t n e m))) n = map_option (after_result (mg_config m) t e) (map_of (mg_states m) n)"
  by (simp add: Record_def Let_def split: option.split)

lemma check_names_frame [simp]:
  "mg_config (snd (check_names p ns m)) = mg_config m"
  "mg_upstreams (snd (check_names p ns m)) = mg_upstreams m"
  by (induction ns arbitrary: m) (auto simp: Let_def case_prod_beta split: option.split)

section \<open>Invariant\<close>

definition breaker_ok :: "UpstreamHealth \<Rightarrow> managedState \<Rightarrow> bool" where
  "breaker_ok cfg s \<longleftrightarrow>
     us_Circuit s \<in> {''closed'', ''open'', ''half-open''}
     \<and> (us_Circuit s = ''half-open'' \<longleftrightarrow> ms_halfOpenInFlight s)
     \<and> (us_Circuit s \<noteq> ''closed'' \<longrightarrow> uh_Enabled cfg \<and> us_Health s = ''unhealthy''
          \<and> Threshold cfg \<le> us_ConsecutiveFailures s)
     \<and> (us_Circuit s = ''closed'' \<and> uh_Enabled cfg \<longrightarrow> us_ConsecutiveFailures s < Threshold cfg)
     \<and> 0 \<le> us_ConsecutiveFailures s
     \<and> (us_Health s = ''unhealthy'' \<longleftrightarrow> us_ConsecutiveFailures s \<noteq> 0)"

definition manager_ok :: "Manager \<Rightarrow> bool" where
  "manager_ok m \<longleftrightarrow>
     dom (map_of (mg_states m)) = dom (map_of (mg_upstreams m))
     \<and> (\<forall>n s. map_of (mg_states m) n = Some s \<longrightarrow> us_Name s = n \<and> breaker_ok (mg_config m) s)"

lemma manager_okD: "manager_ok m \<Longrightarrow> map_of (mg_states m) n = Some s \<Longrightarrow> us_Name s = n \<and> breaker_ok (mg_config m) s"
  by (simp add: manager_ok_def)

lemma Threshold_pos [simp]: "0 < Threshold cfg"
  by (simp add: Threshold_def)

lemma fresh_ok: "breaker_ok cfg (fresh_state n u)" "us_Name (fresh_state n u) = n"
  by (simp_all add: breaker_ok_def fresh_state_def)

lemma map_of_New: "map_of (mg_states (New us h)) n = map_option (fresh_state n) (map_of us n)"
  by (induction us) (auto simp: New_def)

lemma manager_ok_New: "manager_ok (New us h)"
proof -
  have "mg_upstreams (New us h) = us" by (simp add: New_def)
  then show ?thesis
    by (auto simp: manager_ok_def map_of_New fresh_ok dom_def map_option_case split: option.splits)
qed

lemma after_result_ok: "breaker_ok cfg s \<Longrightarrow> breaker_ok cfg (after_result cfg t e s)"
  by (cases e) (auto simp: breaker_ok_def after_result_def Let_def)

lemma after_result_name [simp]: "us_Name (after_result cfg t e s) = us_Name s"
  by (simp add: after_result_def Let_def split: option.split)

lemma put_state_ok:
  assumes "manager_ok m" "n \<in> dom (map_of (mg_upstreams m))" "us_Name s = n" "breaker_ok (mg_config m) s"
  shows "manager_ok (put_state n s m)"
  using assms by (auto simp: manager_ok_def put_state_def)

lemma Record_ok:
  assumes "manager_ok m" shows "manager_ok (snd (Record t n e m))"
proof (cases "map_of (mg_states m) n")
  case (Some s)
  with assms have "n \<in> dom (map_of (mg_upstreams m))" by (auto simp: manager_ok_def)
  with assms Some show ?thesis
    using manager_okD [OF assms Some]
    by (simp add: Record_def Let_def put_state_ok after_result_ok)
qed (use assms in \<open>simp add: Record_def\<close>)

lemma Allow_ok:
  assumes "manager_ok m" shows "manager_ok (snd (Allow t n m))"
proof (cases "map_of (mg_states m) n")
  case (Some s)
  with assms have "n \<in> dom (map_of (mg_upstreams m))" by (auto simp: manager_ok_def)
  moreover have "breaker_ok (mg_config m) (s\<lparr>us_Circuit := ''half-open'', ms_halfOpenInFlight := True\<rparr>)"
    if "us_Circuit s = ''open'' \<or> us_Circuit s = ''half-open''"
    using manager_okD [OF assms Some] that by (auto simp: breaker_ok_def)
  ultimately show ?thesis
    using assms Some manager_okD [OF assms Some] by (simp add: Allow_def put_state_ok)
qed (use assms in \<open>simp add: Allow_def\<close>)

lemma check_names_ok: "manager_ok m \<Longrightarrow> manager_ok (snd (check_names p ns m))"
proof (induction ns arbitrary: m)
  case (Cons n ns)
  then show ?case using Record_ok [of m "fst (p n u)" n "snd (p n u)" for u]
    by (auto simp: Let_def case_prod_beta split: option.split)
qed simp

lemma CheckAll_ok: "manager_ok m \<Longrightarrow> manager_ok (snd (CheckAll p m))"
  by (simp add: CheckAll_def check_names_ok)

section \<open>One request at a time behind a tripped breaker\<close>

text \<open>How many of the requests that concern us are admitted in a sequence of requests.\<close>

fun admissions :: "('a \<Rightarrow> 'm \<Rightarrow> bool \<times> 'm) \<Rightarrow> ('a \<Rightarrow> bool) \<Rightarrow> 'a list \<Rightarrow> 'm \<Rightarrow> nat" where
  "admissions ask mine [] m = 0"
| "admissions ask mine (a # as) m =
     (case ask a m of (ok, m') \<Rightarrow> (if ok \<and> mine a then 1 else 0) + admissions ask mine as m')"

locale half_open_gate =
  fixes ask :: "'a \<Rightarrow> 'm \<Rightarrow> bool \<times> 'm"
    and mine :: "'a \<Rightarrow> bool"
    and tripped busy :: "'m \<Rightarrow> bool"
  assumes tripped_kept: "tripped m \<Longrightarrow> tripped (snd (ask a m))"
    and busy_kept: "tripped m \<Longrightarrow> busy m \<Longrightarrow> busy (snd (ask a m))"
    and busy_rejects: "tripped m \<Longrightarrow> busy m \<Longrightarrow> mine a \<Longrightarrow> \<not> fst (ask a m)"
    and admitted_busy: "tripped m \<Longrightarrow> mine a \<Longrightarrow> fst (ask a m) \<Longrightarrow> busy (snd (ask a m))"
begin

lemma busy_admits_none: "tripped m \<Longrightarrow> busy m \<Longrightarrow> admissions ask mine as m = 0"
proof (induction as arbitrary: m)
  case (Cons a as)
  then show ?case
    using Cons.IH [OF tripped_kept busy_kept] busy_rejects [of m a] by (auto simp: case_prod_beta)
qed simp

lemma at_most_one: "tripped m \<Longrightarrow> admissions ask mine as m \<le> 1"
proof (induction as arbitrary: m)
  case (Cons a as)
  then show ?case
    using Cons.IH [OF tripped_kept] busy_admits_none [OF tripped_kept admitted_busy, of m a]
    by (auto simp: case_prod_beta)
qed simp

end

definition tripped :: "string \<Rightarrow> Manager \<Rightarrow> bool" where
  "tripped n m \<longleftrightarrow> uh_Enabled (mg_config m) \<and> circuit_of m n \<in> {Some ''open'', Some ''half-open''}"

definition busy :: "string \<Rightarrow> Manager \<Rightarrow> bool" where
  "busy n m \<longleftrightarrow> (\<exists>s. map_of (mg_states m) n = Some s \<and> ms_halfOpenInFlight s)"

definition ask :: "time \<times> string \<Rightarrow> Manager \<Rightarrow> bool \<times> Manager" where
  "ask a m = Allow (fst a) (snd a) m"

interpretation gate: half_open_gate ask "\<lambda>a. snd a = n" "tripped n" "busy n" for n
proof
  fix m :: Manager and a :: "time \<times> string"
  assume t: "tripped n m"
  show "tripped n (snd (ask a m))" using t
    by (cases "snd a = n") (auto simp: tripped_def circuit_of_def ask_def Allow_def split: option.splits)
  show "busy n (snd (ask a m))" if "busy n m" using t that
    by (cases "snd a = n") (auto simp: busy_def ask_def Allow_def split: option.splits)
  show "\<not> fst (ask a m)" if "busy n m" "snd a = n" using t that
    by (auto simp: tripped_def circuit_of_def busy_def ask_def Allow_def split: option.splits)
  show "busy n (snd (ask a m))" if "snd a = n" "fst (ask a m)" using t that
    by (auto simp: tripped_def circuit_of_def busy_def ask_def Allow_def split: option.splits if_splits)
qed

end
