(* ===== verification/Upstream_Props.thy ===== *)
theory Upstream_Props
  imports Upstream_Manager
begin

text \<open>
  Properties of the circuit breaker: its invariant over every sequence of operations, when it
  opens, rejects and admits, and what a recovered proxy does to it.
\<close>

section \<open>Runs of the manager\<close>

text \<open>The operations of a running proxy: a request asks, its dial reports, the health monitor
  checks. The clock is unconstrained.\<close>

inductive manager_step :: "Manager \<Rightarrow> Manager \<Rightarrow> bool" where
  asks: "manager_step m (snd (Allow now name m))"
| reports: "manager_step m (snd (Record now name err m))"
| checks: "manager_step m (snd (CheckAll probe m))"

inductive manager_reachable :: "(string, Upstream) gomap \<Rightarrow> UpstreamHealth \<Rightarrow> Manager \<Rightarrow> bool"
  for upstreams health where
  start: "manager_reachable upstreams health (New upstreams health)"
| step: "manager_reachable upstreams health m \<Longrightarrow> manager_step m m' \<Longrightarrow> manager_reachable upstreams health m'"

inductive_cases manager_stepE: "manager_step m m'"

lemma CheckAll_frame [simp]:
  "mg_config (snd (CheckAll p m)) = mg_config m" "mg_upstreams (snd (CheckAll p m)) = mg_upstreams m"
  by (simp_all add: CheckAll_def)

text \<open>C8. In every run from \<open>New\<close> each configured upstream, and no other name, has a state. Its
  circuit is closed, open or half-open: half-open exactly while the mark of the one admitted
  request is set, and closed exactly when health checks are off or fewer failures in a row were
  recorded than the threshold. The upstream is unhealthy exactly after a failure, so always
  while its circuit is not closed.\<close>

theorem breaker_states_are_consistent:
  assumes "manager_reachable upstreams health m"
  shows "mg_upstreams m = upstreams \<and> mg_config m = health \<and> manager_ok m"
  using assms
proof induction
  case start
  show ?case using manager_ok_New by (simp add: New_def)
next
  case (step m m')
  from step.hyps(2) show ?case
    by cases (use step.IH in \<open>simp_all add: Allow_ok Record_ok CheckAll_ok\<close>)
qed

section \<open>Opening\<close>

definition failures :: "string \<Rightarrow> (time \<times> string) list \<Rightarrow> Manager \<Rightarrow> Manager" where
  "failures name es m = foldl (\<lambda>m (t, e). snd (Record t name (Some e) m)) m es"

lemma failures_snoc: "failures n (es @ [(t, e)]) m = snd (Record t n (Some e) (failures n es m))"
  by (simp add: failures_def)

lemma failures_frame [simp]: "mg_config (failures n es m) = mg_config m"
  by (induction es rule: rev_induct) (auto simp: failures_snoc failures_def)

text \<open>C23. From a closed circuit with a clean record, a run of failures opens the circuit exactly
  when it reaches the threshold: one failure less keeps it closed, and from there on it is
  open until the last failure plus the cooldown.\<close>

theorem breaker_opens_at_threshold:
  assumes "uh_Enabled (mg_config m)" "map_of (mg_states m) name = Some s"
    and "us_Circuit s = ''closed''" "us_ConsecutiveFailures s = 0"
  shows "\<exists>s'. map_of (mg_states (failures name es m)) name = Some s'
      \<and> us_ConsecutiveFailures s' = int (length es)
      \<and> (int (length es) < Threshold (mg_config m) \<longrightarrow> us_Circuit s' = ''closed'')
      \<and> (Threshold (mg_config m) \<le> int (length es) \<longrightarrow> us_Circuit s' = ''open''
           \<and> us_OpenUntil s' = fst (last es) + OpenCooldown (mg_config m))"
proof (induction es rule: rev_induct)
  case Nil
  show ?case using assms Threshold_pos [of "mg_config m"] by (simp add: failures_def del: Threshold_pos)
next
  case (snoc te es)
  obtain t e where te: "te = (t, e)" by (cases te)
  from snoc obtain s' where s': "map_of (mg_states (failures name es m)) name = Some s'"
      "us_ConsecutiveFailures s' = int (length es)"
      "int (length es) < Threshold (mg_config m) \<Longrightarrow> us_Circuit s' = ''closed''"
      "Threshold (mg_config m) \<le> int (length es) \<Longrightarrow> us_Circuit s' = ''open''"
    by blast
  have "map_of (mg_states (failures name (es @ [te]) m)) name = Some (after_result (mg_config m) t (Some e) s')"
    by (simp add: te failures_snoc Record_at s')
  then show ?case using assms(1) s'
    by (auto simp: te after_result_def Let_def)
qed

section \<open>Rejecting and probing\<close>

text \<open>C9. While a circuit is open or half-open, however many requests ask and whenever they ask,
  and whatever the requests for other upstreams do in between, at most one of them is
  admitted before the next result is recorded.\<close>

theorem tripped_breaker_admits_at_most_one:
  assumes "tripped name m"
  shows "admissions ask (\<lambda>a. snd a = name) asks m \<le> 1"
  using assms by (rule gate.at_most_one)

text \<open>C24. A failed request opens a half-open circuit again; until its cooldown has passed no
  request is admitted, and the first one that asks afterwards is.\<close>

theorem open_breaker_waits_for_cooldown:
  assumes "manager_ok m" "circuit_of m name = Some ''half-open''"
    and m': "m' = snd (Record now name (Some e) m)"
  shows "circuit_of m' name = Some ''open''
    \<and> (\<forall>asks. (\<forall>a \<in> set asks. snd a = name \<longrightarrow> fst a < now + OpenCooldown (mg_config m))
          \<longrightarrow> admissions ask (\<lambda>a. snd a = name) asks m' = 0)
    \<and> (\<forall>t. now + OpenCooldown (mg_config m) \<le> t \<longrightarrow> fst (Allow t name m'))"
proof -
  obtain s where s: "map_of (mg_states m) name = Some s" "us_Circuit s = ''half-open''"
    using assms(2) by (auto simp: circuit_of_def)
  let ?until = "now + OpenCooldown (mg_config m)"
  define shut where "shut x \<longleftrightarrow> uh_Enabled (mg_config x) \<and> (\<exists>s. map_of (mg_states x) name = Some s
     \<and> us_Circuit s = ''open'' \<and> us_OpenUntil s = ?until \<and> \<not> ms_halfOpenInFlight s)" for x :: Manager
  have en: "uh_Enabled (mg_config m)" using manager_okD [OF assms(1) s(1)] s(2) by (simp add: breaker_ok_def)
  have sh: "shut m'" using s en
    by (simp add: shut_def m' Record_at after_result_def Let_def)
  have "admissions ask (\<lambda>a. snd a = name) asks x = 0"
    if "shut x" "\<forall>a \<in> set asks. snd a = name \<longrightarrow> fst a < ?until" for asks x
    using that
  proof (induction asks arbitrary: x)
    case (Cons a asks)
    have "shut (snd (ask a x))" using Cons.prems
      by (cases "snd a = name")
        (simp_all add: shut_def ask_def, auto simp: Allow_def)
    moreover have "\<not> (fst (ask a x) \<and> snd a = name)" using Cons.prems
      by (auto simp: shut_def ask_def Allow_def)
    ultimately show ?case using Cons by (auto simp: case_prod_beta)
  qed simp
  moreover have "fst (Allow t name m')" if "?until \<le> t" for t
    using sh that by (auto simp: shut_def Allow_def)
  ultimately show ?thesis using sh by (auto simp: shut_def circuit_of_def)
qed

section \<open>Recovering\<close>

lemma check_names_other:
  "n \<notin> set ns \<Longrightarrow> map_of (mg_states (snd (check_names p ns m))) n = map_of (mg_states m) n"
  by (induction ns arbitrary: m) (auto simp: Let_def case_prod_beta split: option.split)

lemma check_names_at:
  assumes "distinct ns" "n \<in> set ns" "map_of (mg_upstreams m) n = Some u"
  shows "map_of (mg_states (snd (check_names p ns m))) n =
    map_option (after_result (mg_config m) (fst (p n u)) (snd (p n u))) (map_of (mg_states m) n)"
  using assms
proof (induction ns arbitrary: m)
  case (Cons k ns)
  show ?case
  proof (cases "k = n")
    case True
    then show ?thesis using Cons.prems
      by (simp add: Let_def case_prod_beta check_names_other Record_at)
  next
    case False
    then show ?thesis using Cons.prems Cons.IH [of m] Cons.IH [of "snd (Record (fst (p k w)) k (snd (p k w)) m)" for w]
      by (auto simp: Let_def case_prod_beta split: option.split)
  qed
qed simp

text \<open>A round of health checks gives every configured upstream the result of its own check,
  whatever state its circuit was in: a proxy that answers is healthy and closed at once, also
  before its cooldown ends, and one that does not answer counts a failure and stays shut if it
  was half-open.\<close>

theorem check_round_settles_every_upstream:
  assumes "manager_ok m" "wf_map (mg_upstreams m)" "uh_Enabled (mg_config m)"
    and "map_of (mg_upstreams m) name = Some u" "m' = snd (CheckAll probe m)"
  shows "\<exists>s s'. map_of (mg_states m) name = Some s \<and> map_of (mg_states m') name = Some s'
    \<and> us_LastCheck s' = fst (probe name u)
    \<and> (snd (probe name u) = None \<longrightarrow>
         us_Circuit s' = ''closed'' \<and> us_Health s' = ''healthy'' \<and> us_ConsecutiveFailures s' = 0)
    \<and> (snd (probe name u) \<noteq> None \<longrightarrow> us_Health s' = ''unhealthy''
         \<and> us_ConsecutiveFailures s' = us_ConsecutiveFailures s + 1
         \<and> (us_Circuit s' = ''closed'' \<longleftrightarrow>
              us_Circuit s = ''closed'' \<and> us_ConsecutiveFailures s + 1 < Threshold (mg_config m)))"
proof -
  have "name \<in> dom (map_of (mg_states m))" using assms(1,4) by (auto simp: manager_ok_def)
  then obtain s where s: "map_of (mg_states m) name = Some s" by blast
  have "distinct (sort (map fst (mg_upstreams m)))" "name \<in> set (sort (map fst (mg_upstreams m)))"
    using assms(2,4) by (auto simp: wf_map_def dest: map_of_SomeD intro: image_eqI [of _ fst "(name, u)"])
  from check_names_at [OF this assms(4)] s
  have s': "map_of (mg_states m') name = Some (after_result (mg_config m) (fst (probe name u)) (snd (probe name u)) s)"
    using assms(3,5) by (simp add: CheckAll_def)
  have "breaker_ok (mg_config m) s" using manager_okD [OF assms(1) s] by simp
  then show ?thesis using s s' assms(3)
    by (cases "snd (probe name u)") (auto simp: after_result_def breaker_ok_def Let_def)
qed

text \<open>The one-request rule does not survive a result that arrives from elsewhere: a health check
  that fails while the half-open request is still in flight clears the in-flight mark, so
  after the cooldown a second half-open request is admitted although the first has not ended.\<close>

theorem failed_check_admits_second_probe:
  assumes "manager_ok m" "tripped name m" "Allow t name m = (True, m1)"
    and "m2 = snd (Record t' name (Some e) m1)" "t' + OpenCooldown (mg_config m) \<le> t''"
  shows "fst (Allow t'' name m2) \<and> circuit_of (snd (Allow t'' name m2)) name = Some ''half-open''"
proof -
  obtain s where s: "map_of (mg_states m) name = Some s" using assms(2) by (auto simp: tripped_def circuit_of_def)
  have "map_of (mg_states m1) name = Some (s\<lparr>us_Circuit := ''half-open'', ms_halfOpenInFlight := True\<rparr>)
      \<and> uh_Enabled (mg_config m1) \<and> mg_config m1 = mg_config m"
    using assms(2,3) s by (auto simp: tripped_def circuit_of_def Allow_def split: if_splits)
  then show ?thesis using assms(4,5)
    by (auto simp: Record_def after_result_def Let_def Allow_def circuit_of_def)
qed

section \<open>A sample manager\<close>

definition sample_health :: UpstreamHealth where
  "sample_health = \<lparr>uh_Enabled = True, uh_Interval = '''', uh_Timeout = '''', uh_FailureThreshold = 1, uh_Cooldown = ''''\<rparr>"

definition sample_upstream :: Upstream where
  "sample_upstream = \<lparr>up_Address = ''p:1'', up_Username = '''', up_Password = '''', up_ConnectTimeout = ''''\<rparr>"

definition sample_manager :: Manager where
  "sample_manager = New [(''vpn'', sample_upstream)] sample_health"

lemmas manager_eval = sample_manager_def sample_upstream_def sample_health_def New_def fresh_state_def Allow_def Record_def
  after_result_def Threshold_def OpenCooldown_def parseDuration_def put_state_def circuit_of_def tripped_def
  CheckAll_def Let_def

definition tripped_manager :: Manager where
  "tripped_manager = snd (Record 1 ''vpn'' (Some ''down'') sample_manager)"

definition probing_manager :: Manager where
  "probing_manager = snd (Allow (31 * Second) ''vpn'' tripped_manager)"

lemma sample_ok: "manager_ok tripped_manager" "manager_ok probing_manager" "manager_ok sample_manager"
  by (simp_all add: tripped_manager_def probing_manager_def sample_manager_def Allow_ok Record_ok manager_ok_New)

lemma sample_circuits:
  "tripped ''vpn'' tripped_manager" "circuit_of probing_manager ''vpn'' = Some ''half-open''"
  by (simp_all add: tripped_manager_def probing_manager_def manager_eval)

lemma breaker_states_are_consistent_witness:
  "manager_ok (snd (Allow 5 ''vpn'' sample_manager)) \<and> fst (Allow 5 ''vpn'' sample_manager)"
proof -
  have "manager_reachable [(''vpn'', sample_upstream)] sample_health (snd (Allow 5 ''vpn'' sample_manager))"
    unfolding sample_manager_def by (rule manager_reachable.step [OF manager_reachable.start manager_step.asks])
  from breaker_states_are_consistent [OF this] show ?thesis by (simp add: manager_eval)
qed

lemma breaker_opens_at_threshold_witness:
  "circuit_of (failures ''vpn'' [(7, ''down'')] sample_manager) ''vpn'' = Some ''open''"
proof -
  obtain s where "uh_Enabled (mg_config sample_manager)" "map_of (mg_states sample_manager) ''vpn'' = Some s"
      "us_Circuit s = ''closed''" "us_ConsecutiveFailures s = 0" "Threshold (mg_config sample_manager) = 1"
    by (simp add: manager_eval)
  then show ?thesis
    using breaker_opens_at_threshold [of sample_manager "''vpn''" s "[(7, ''down'')]"]
    by (auto simp: circuit_of_def)
qed

lemma tripped_breaker_admits_at_most_one_witness:
  "admissions ask (\<lambda>a. snd a = ''vpn'') [(31 * Second, ''vpn''), (32 * Second, ''vpn'')] tripped_manager \<le> 1
   \<and> fst (ask (31 * Second, ''vpn'') tripped_manager)"
  using tripped_breaker_admits_at_most_one [OF sample_circuits(1)]
  by (simp add: ask_def tripped_manager_def manager_eval)

lemma open_breaker_waits_for_cooldown_witness:
  "\<not> fst (Allow 5 ''vpn'' (snd (Record 0 ''vpn'' (Some ''x'') probing_manager)))
   \<and> fst (Allow (30 * Second) ''vpn'' (snd (Record 0 ''vpn'' (Some ''x'') probing_manager)))"
proof -
  have c: "OpenCooldown (mg_config probing_manager) = 30 * Second"
    by (simp add: probing_manager_def tripped_manager_def manager_eval)
  have "admissions ask (\<lambda>a. snd a = ''vpn'') [(5, ''vpn'')] (snd (Record 0 ''vpn'' (Some ''x'') probing_manager)) = 0"
    using open_breaker_waits_for_cooldown [OF sample_ok(2) sample_circuits(2) refl, of 0 "''x''"] c
    by (auto dest!: spec [of _ "[(5, ''vpn'')]"])
  moreover have "fst (Allow (30 * Second) ''vpn'' (snd (Record 0 ''vpn'' (Some ''x'') probing_manager)))"
    using open_breaker_waits_for_cooldown [OF sample_ok(2) sample_circuits(2) refl, of 0 "''x''"] c by simp
  ultimately show ?thesis by (simp add: ask_def case_prod_beta split: if_splits)
qed

lemma check_round_settles_every_upstream_witness:
  "circuit_of (snd (CheckAll (\<lambda>n u. (9, None)) tripped_manager)) ''vpn'' = Some ''closed''"
proof -
  have "wf_map (mg_upstreams tripped_manager)" "uh_Enabled (mg_config tripped_manager)"
      "map_of (mg_upstreams tripped_manager) ''vpn'' = Some sample_upstream"
    by (simp_all add: tripped_manager_def manager_eval wf_map_def)
  from check_round_settles_every_upstream [OF sample_ok(1) this refl, of "\<lambda>n u. (9, None)"]
  show ?thesis by (auto simp: circuit_of_def)
qed

lemma failed_check_admits_second_probe_witness:
  "\<exists>m1. Allow (31 * Second) ''vpn'' tripped_manager = (True, m1)
     \<and> fst (Allow (90 * Second) ''vpn'' (snd (Record (32 * Second) ''vpn'' (Some ''check'') m1)))"
proof -
  obtain m1 where m1: "Allow (31 * Second) ''vpn'' tripped_manager = (True, m1)"
    by (simp add: tripped_manager_def manager_eval)
  have "OpenCooldown (mg_config tripped_manager) = 30 * Second"
    by (simp add: tripped_manager_def manager_eval)
  with failed_check_admits_second_probe [OF sample_ok(1) sample_circuits(1) m1 refl, of "32 * Second" "90 * Second"] m1
  show ?thesis by simp
qed

end
