(* ===== verification/Net_Conn.thy ===== *)
theory Net_Conn
  imports Go_Strings
begin

text \<open>
  Connections. A \<^verbatim>\<open>net.Conn\<close> is a record of what is still to arrive, how the stream ends, what
  has been delivered to the other side, and a script of the results of the next writes; a write
  beyond the script takes everything. \<^verbatim>\<open>io.ReadFull\<close>, \<^verbatim>\<open>io.CopyN\<close> and the write loop
  \<^verbatim>\<open>writeAll\<close>/\<^verbatim>\<open>writeConn\<close> work on it. The locale \<open>ordered_writer\<close> is the contract of every way
  the program has to write to a connection.
\<close>

section \<open>Connections\<close>

datatype io_error = EOF | UnexpectedEOF | ConnError

record conn =
  cn_in :: bytes
  cn_end :: io_error
  cn_out :: bytes
  cn_script :: "(nat \<times> io_error option) list"

definition open_conn :: "bytes \<Rightarrow> conn" where
  "open_conn input = \<lparr>cn_in = input, cn_end = EOF, cn_out = [], cn_script = []\<rparr>"

definition ReadFull :: "nat \<Rightarrow> conn \<Rightarrow> (io_error + bytes) \<times> conn" where
  "ReadFull n c =
     (if n \<le> length (cn_in c) then (Inr (take n (cn_in c)), c\<lparr>cn_in := drop n (cn_in c)\<rparr>)
      else (Inl (if cn_end c = EOF \<and> cn_in c \<noteq> [] then UnexpectedEOF else cn_end c), c\<lparr>cn_in := []\<rparr>))"

text \<open>\<^verbatim>\<open>io.CopyN(io.Discard, conn, n)\<close>\<close>

definition CopyDiscard :: "nat \<Rightarrow> conn \<Rightarrow> io_error option \<times> conn" where
  "CopyDiscard n c =
     (if n \<le> length (cn_in c) then (None, c\<lparr>cn_in := drop n (cn_in c)\<rparr>)
      else (Some (cn_end c), c\<lparr>cn_in := []\<rparr>))"

text \<open>One \<^verbatim>\<open>Write\<close>: the number of bytes taken and the error.\<close>

definition Write :: "conn \<Rightarrow> bytes \<Rightarrow> (nat \<times> io_error option) \<times> conn" where
  "Write c data =
     (case cn_script c of
        [] \<Rightarrow> ((length data, None), c\<lparr>cn_out := cn_out c @ data\<rparr>)
      | (n, e) # script \<Rightarrow>
          (let k = min n (length data)
           in ((k, e), c\<lparr>cn_out := cn_out c @ take k data, cn_script := script\<rparr>)))"

text \<open>The contract of \<^verbatim>\<open>io.Writer\<close>: a write that takes less than it is given returns an error.\<close>

definition full_or_error :: "conn \<Rightarrow> bool" where
  "full_or_error c \<longleftrightarrow> (\<forall>(n, e) \<in> set (cn_script c). e = None \<longrightarrow> 32768 \<le> n)"

text \<open>\<^verbatim>\<open>writeAll\<close> and \<^verbatim>\<open>writeConn\<close>\<close>

function writeConn :: "conn \<Rightarrow> bytes \<Rightarrow> io_error option \<times> conn" where
  "writeConn c data =
     (if data = [] then (None, c)
      else case Write c data of
        ((n, Some e), c') \<Rightarrow> (Some e, c')
      | ((n, None), c') \<Rightarrow> if n = 0 then (Some UnexpectedEOF, c') else writeConn c' (drop n data))"
  by pat_completeness auto
termination by (relation "measure (\<lambda>(c, data). length data)") auto

declare writeConn.simps [simp del]

section \<open>The contract of a writer\<close>

text \<open>A writer returns an error or nothing, and delivers a prefix of the data: all of it when there
  is no error.\<close>

fun put_list :: "('c \<Rightarrow> bytes \<Rightarrow> io_error option \<times> 'c) \<Rightarrow> 'c \<Rightarrow> bytes list \<Rightarrow> io_error option \<times> 'c" where
  "put_list put c [] = (None, c)"
| "put_list put c (d # ds) =
     (case put c d of (Some e, c') \<Rightarrow> (Some e, c') | (None, c') \<Rightarrow> put_list put c' ds)"

locale ordered_writer =
  fixes put :: "'c \<Rightarrow> bytes \<Rightarrow> io_error option \<times> 'c"
    and delivered :: "'c \<Rightarrow> bytes"
    and fit :: "'c \<Rightarrow> bool"
    and small :: "bytes \<Rightarrow> bool"
  assumes delivers: "fit c \<Longrightarrow> small data \<Longrightarrow> put c data = (e, c') \<Longrightarrow>
      fit c' \<and> (\<exists>k \<le> length data. delivered c' = delivered c @ take k data \<and> (e = None \<longrightarrow> k = length data))"
begin

lemma put_list_delivers:
  "fit c \<Longrightarrow> \<forall>d \<in> set ds. small d \<Longrightarrow> put_list put c ds = (e, c') \<Longrightarrow>
   fit c' \<and>
   (   \<exists>k \<le> length (concat ds). delivered c' = delivered c @ take k (concat ds) \<and> (e = None \<longrightarrow> k = length (concat ds)))"
proof (induction ds arbitrary: c)
  case (Cons d ds)
  obtain e1 c1 where w: "put c d = (e1, c1)" by (cases "put c d")
  have "small d" using Cons.prems(2) by simp
  from delivers [OF Cons.prems(1) this w] obtain k where
    k: "fit c1" "k \<le> length d" "delivered c1 = delivered c @ take k d" "e1 = None \<longrightarrow> k = length d" by auto
  show ?case
  proof (cases e1)
    case None
    then obtain j where "j \<le> length (concat ds)" "delivered c' = delivered c1 @ take j (concat ds)"
        "e = None \<longrightarrow> j = length (concat ds)"
      and "fit c'"
      using Cons.IH [OF k(1)] Cons.prems(2,3) w by auto
    then show ?thesis using None k by (auto intro!: exI [of _ "k + j"])
  next
    case (Some x)
    then show ?thesis using Cons.prems(3) w k by (auto intro!: exI [of _ k])
  qed
qed simp

end

lemma Write_frame: "Write c data = ((n, e), c') \<Longrightarrow> cn_in c' = cn_in c \<and> cn_end c' = cn_end c"
  by (auto simp: Write_def Let_def split: list.splits prod.splits)

lemma Write_cases:
  assumes "Write c data = ((n, e), c')"
  shows "n \<le> length data" "cn_out c' = cn_out c @ take n data" "cn_in c' = cn_in c"
    "full_or_error c \<Longrightarrow> full_or_error c'"
    "full_or_error c \<Longrightarrow> e = None \<Longrightarrow> length data \<le> 32768 \<Longrightarrow> n = length data"
  using assms by (auto simp: Write_def full_or_error_def Let_def split: list.splits prod.splits)

lemma writeConn_delivers:
  "writeConn c data = (e, c') \<Longrightarrow> \<exists>k \<le> length data. cn_out c' = cn_out c @ take k data \<and> (e = None \<longrightarrow> k = length data)"
proof (induction c data arbitrary: rule: writeConn.induct)
  case (1 c data)
  show ?case
  proof (cases "data = []")
    case False
    obtain n w c1 where W: "Write c data = ((n, w), c1)" by (metis prod.collapse)
    note d = Write_cases [OF W]
    show ?thesis
    proof (cases "w = None \<and> n \<noteq> 0")
      case True
      then have "writeConn c1 (drop n data) = (e, c')"
        using "1.prems" False W by (subst (asm) writeConn.simps) simp
      then obtain k where "k \<le> length (drop n data)" "cn_out c' = cn_out c1 @ take k (drop n data)"
          "e = None \<longrightarrow> k = length (drop n data)"
        using "1.IH" [OF False W [symmetric] refl] True by auto
      then show ?thesis using d(1,2)
        by (intro exI [of _ "n + k"]) (auto simp: take_add)
    next
      case no: False
      then have "c' = c1" "e \<noteq> None"
        using "1.prems" False W by (subst (asm) writeConn.simps, auto split: option.splits if_splits)+
      then show ?thesis using d(1,2) by auto
    qed
  qed (use "1.prems" in \<open>simp add: writeConn.simps\<close>)
qed

interpretation conn_writer: ordered_writer writeConn cn_out "\<lambda>_. True" "\<lambda>_. True"
  by unfold_locales (use writeConn_delivers in auto)

lemma writeConn_in: "cn_in (snd (writeConn c data)) = cn_in c \<and> cn_end (snd (writeConn c data)) = cn_end c"
proof (induction c data rule: writeConn.induct)
  case (1 c data)
  obtain n w c1 where W: "Write c data = ((n, w), c1)" by (metis prod.collapse)
  note Write_frame [OF W]
  then show ?case using "1.IH" [OF _ W [symmetric] refl] W
    by (cases w; cases "data = []") (simp_all add: writeConn.simps [of c data] writeConn.simps [of c "[]"])
qed

lemma writeConn_unscripted:
  "cn_script c = [] \<Longrightarrow> writeConn c data = (None, c\<lparr>cn_out := cn_out c @ data\<rparr>)"
  by (subst writeConn.simps) (simp add: Write_def writeConn.simps)

end
