(* ===== verification/Ip_Addr.thy ===== *)
theory Ip_Addr
  imports Go_Strings
begin

text \<open>
  The textual forms of IP addresses, as far as the program uses them: \<^verbatim>\<open>net.ParseIP\<close> (of
  \<^verbatim>\<open>net/netip\<close>: dotted decimal without leading zeros, and IPv6 without a zone), \<^verbatim>\<open>To4\<close> and the
  \<^verbatim>\<open>String\<close> of an IPv4 address. An address is its 16 bytes.
\<close>

section \<open>Parsing\<close>

definition octet :: "string \<Rightarrow> u8 option" where
  "octet s =
     (if s = '''' \<or> (1 < length s \<and> hd s = CHR ''0'') then None
      else case digits_value 0 s of
        None \<Rightarrow> None
      | Some v \<Rightarrow> if 255 < v then None else Some (of_nat v))"

fun octets :: "string list \<Rightarrow> bytes option" where
  "octets [] = Some []"
| "octets (s # ss) =
     (case octet s of None \<Rightarrow> None | Some b \<Rightarrow>
        (case octets ss of None \<Rightarrow> None | Some bs \<Rightarrow> Some (b # bs)))"

definition parseIPv4 :: "string \<Rightarrow> bytes option" where
  "parseIPv4 s = (let fields = Split CHR ''.'' s in if length fields = 4 then octets fields else None)"

definition hex_val :: "char \<Rightarrow> nat option" where
  "hex_val c =
     (let k = char_code c
      in if is_digit c then Some (k - 48)
         else if 97 \<le> k \<and> k \<le> 102 then Some (k - 87)
         else if 65 \<le> k \<and> k \<le> 70 then Some (k - 55) else None)"

fun hex_value :: "nat \<Rightarrow> string \<Rightarrow> nat" where
  "hex_value acc [] = acc"
| "hex_value acc (c # cs) = (case hex_val c of None \<Rightarrow> acc | Some v \<Rightarrow> hex_value (16 * acc + v) cs)"

text \<open>
  The loop of \<^verbatim>\<open>parseIPv6\<close>: the bytes so far, the position of \<^verbatim>\<open>::\<close> if one was seen, and the rest
  of the text. The result is the bytes, the position and the text that is left.
\<close>

function hextets :: "bytes \<Rightarrow> nat option \<Rightarrow> string \<Rightarrow> (bytes \<times> nat option \<times> string) option" where
  "hextets ip ellipsis s =
     (if 16 \<le> length ip then Some (ip, ellipsis, s)
      else
        let ds = takeWhile (\<lambda>c. hex_val c \<noteq> None) s; rest = drop (length ds) s; v = hex_value 0 ds
        in if ds = [] \<or> 4 < length ds then None
           else if rest \<noteq> [] \<and> hd rest = CHR ''.'' then
             (if (ellipsis = None \<and> length ip \<noteq> 12) \<or> 16 < length ip + 4 then None
              else case parseIPv4 s of None \<Rightarrow> None | Some b4 \<Rightarrow> Some (ip @ b4, ellipsis, ''''))
           else
             let ip' = ip @ [of_nat (v div 256), of_nat (v mod 256)]
             in if rest = [] then Some (ip', ellipsis, '''')
                else if hd rest \<noteq> CHR '':'' \<or> length rest = 1 then None
                else let s' = tl rest
                     in if hd s' = CHR '':''
                        then (if ellipsis \<noteq> None then None
                              else if tl s' = [] then Some (ip', Some (length ip'), '''')
                              else hextets ip' (Some (length ip')) (tl s'))
                        else hextets ip' ellipsis s')"
  by pat_completeness auto
termination by (relation "measure (\<lambda>(ip, e, s). 16 - length ip)") auto

declare hextets.simps [simp del]

definition expand_ip :: "bytes \<times> nat option \<times> string \<Rightarrow> bytes option" where
  "expand_ip r =
     (case r of (ip, ellipsis, s) \<Rightarrow>
        if s \<noteq> '''' then None
        else if length ip < 16
          then map_option (\<lambda>e. take e ip @ replicate (16 - length ip) 0 @ drop e ip) ellipsis
        else if ellipsis \<noteq> None then None else Some ip)"

definition parseIPv6 :: "string \<Rightarrow> bytes option" where
  "parseIPv6 s =
     (if HasPrefix s ''::''
      then (if length s = 2 then Some (replicate 16 0)
            else Option.bind (hextets [] (Some 0) (drop 2 s)) expand_ip)
      else Option.bind (hextets [] None s) expand_ip)"

definition ip4_prefix :: bytes where
  "ip4_prefix = replicate 10 0 @ [0xFF, 0xFF]"

text \<open>\<^verbatim>\<open>net.ParseIP\<close>: the first dot or colon decides; an address with a zone is not accepted.\<close>

definition ParseIP :: "string \<Rightarrow> bytes option" where
  "ParseIP s =
     (case filter (\<lambda>c. c \<in> {CHR ''.'', CHR '':'', CHR ''%''}) s of
        [] \<Rightarrow> None
      | c # _ \<Rightarrow>
          if c = CHR ''.'' then map_option (\<lambda>b4. ip4_prefix @ b4) (parseIPv4 s)
          else if c = CHR '':'' then (if CHR ''%'' \<in> set s then None else parseIPv6 s)
          else None)"

definition To4 :: "bytes \<Rightarrow> bytes option" where
  "To4 ip =
     (if length ip = 4 then Some ip
      else if length ip = 16 \<and> take 12 ip = ip4_prefix then Some (drop 12 ip)
      else None)"

section \<open>Printing\<close>

definition digit_char :: "nat \<Rightarrow> char" where
  "digit_char d = char_of (48 + d)"

definition byte_string :: "u8 \<Rightarrow> string" where
  "byte_string b =
     (let n = unat b
      in if n < 10 then [digit_char n]
         else if n < 100 then [digit_char (n div 10), digit_char (n mod 10)]
         else [digit_char (n div 100), digit_char (n div 10 mod 10), digit_char (n mod 10)])"

text \<open>\<^verbatim>\<open>IP.String\<close> of four bytes.\<close>

definition ip4_string :: "bytes \<Rightarrow> string" where
  "ip4_string ip = Join CHR ''.'' (map byte_string ip)"

section \<open>An IPv4 address reads back\<close>

lemma digit_char_simps [simp]:
  "d < 10 \<Longrightarrow> char_code (digit_char d) = 48 + d" "d < 10 \<Longrightarrow> is_digit (digit_char d)" "d < 10 \<Longrightarrow> digit_val (digit_char d) = d"
  by (simp_all add: digit_char_def char_code_def is_digit_def digit_val_def)

lemma digit_char_zero [simp]: "d < 10 \<Longrightarrow> digit_char d = CHR ''0'' \<longleftrightarrow> d = 0"
proof -
  have "char_code CHR ''0'' = 48" by (simp add: char_code_def)
  then show "d < 10 \<Longrightarrow> ?thesis" using digit_char_simps(1) [of d] by (metis add_cancel_right_right digit_char_def add_0_right char_of_eq_iff char_code_def of_char_of)
qed

lemma octet_digits:
  "x < 10 \<Longrightarrow> octet [digit_char x] = Some (of_nat x)"
  "x < 10 \<Longrightarrow> x \<noteq> 0 \<Longrightarrow> y < 10 \<Longrightarrow> octet [digit_char x, digit_char y] = Some (of_nat (10 * x + y))"
  "x < 10 \<Longrightarrow> x \<noteq> 0 \<Longrightarrow> y < 10 \<Longrightarrow> z < 10 \<Longrightarrow> 10 * (10 * x + y) + z < 256 \<Longrightarrow>
   octet [digit_char x, digit_char y, digit_char z] = Some (of_nat (10 * (10 * x + y) + z))"
  by (simp_all add: octet_def del: of_nat_add of_nat_mult)

lemma octet_byte_string: "octet (byte_string b) = Some b"
proof -
  define n where "n = unat b"
  have n: "n < 256" using unsigned_less [of b, where ?'a = nat] by (simp add: n_def)
  consider "n < 10" | "10 \<le> n" "n < 100" | "100 \<le> n" by linarith
  then have "octet (byte_string b) = Some (of_nat n)"
  proof cases
    case 1
    then have "byte_string b = [digit_char n]" by (simp add: byte_string_def n_def)
    with 1 show ?thesis by (simp only: octet_digits)
  next
    case 2
    then have s: "byte_string b = [digit_char (n div 10), digit_char (n mod 10)]"
      by (simp add: byte_string_def n_def Let_def)
    have "n div 10 < 10" "n div 10 \<noteq> 0" "n mod 10 < 10" "10 * (n div 10) + n mod 10 = n" using 2 by auto
    then show ?thesis using octet_digits(2) [of "n div 10" "n mod 10"] by (simp only: s simp_thms)
  next
    case 3
    then have s: "byte_string b = [digit_char (n div 100), digit_char (n div 10 mod 10), digit_char (n mod 10)]"
      by (simp add: byte_string_def n_def Let_def)
    have "n div 100 < 10" "n div 100 \<noteq> 0" "n div 10 mod 10 < 10" "n mod 10 < 10" using n 3 by auto
    moreover have "n div 100 = n div 10 div 10" by (simp add: div_mult2_eq [symmetric])
    then have "10 * (10 * (n div 100) + n div 10 mod 10) + n mod 10 = n"
      by (simp only: mult_div_mod_eq)
    ultimately show ?thesis using n octet_digits(3) [of "n div 100" "n div 10 mod 10" "n mod 10"] by (simp only: s simp_thms)
  qed
  then show ?thesis by (simp add: n_def)
qed

lemma byte_string_digits: "c \<in> set (byte_string b) \<Longrightarrow> is_digit c"
proof -
  have "unat b < 256" using unsigned_less [of b, where ?'a = nat] by simp
  then show "c \<in> set (byte_string b) \<Longrightarrow> is_digit c"
    by (auto simp: byte_string_def Let_def split: if_splits intro!: digit_char_simps(2))
qed

lemma byte_string_no_sep: "CHR ''.'' \<notin> set (byte_string b)" "CHR '':'' \<notin> set (byte_string b)"
    "CHR ''%'' \<notin> set (byte_string b)"
  using byte_string_digits [of "CHR ''.''" b] byte_string_digits [of "CHR '':''" b] byte_string_digits [of "CHR ''%''" b]
  by (auto simp: char_defs)

lemma octets_byte_strings: "octets (map byte_string bs) = Some bs"
  by (induction bs) (simp_all add: octet_byte_string)

lemma Split_ip4: "length ip = 4 \<Longrightarrow> Split CHR ''.'' (ip4_string ip) = map byte_string ip"
  unfolding ip4_string_def by (rule Split_Join) (auto simp: byte_string_no_sep)

lemma ParseIP_ip4_string:
  assumes "length ip = 4" shows "ParseIP (ip4_string ip) = Some (ip4_prefix @ ip)"
proof -
  obtain a b c d where ip: "ip = [a, b, c, d]" using assms by (auto simp: length_Suc_conv numeral_eq_Suc)
  have f: "filter (\<lambda>c. c \<in> {CHR ''.'', CHR '':'', CHR ''%''}) (byte_string x) = []" for x
    using byte_string_no_sep [of x] by (auto simp: filter_empty_conv)
  have "filter (\<lambda>c. c \<in> {CHR ''.'', CHR '':'', CHR ''%''}) (ip4_string ip) = ''...''"
    using f by (simp add: ip ip4_string_def)
  then show ?thesis using assms
    by (simp add: ParseIP_def parseIPv4_def Split_ip4 Let_def octets_byte_strings)
qed

end
