(* ===== verification/Socks_Client.thy ===== *)
theory Socks_Client
  imports Net_Conn Ip_Addr Config
begin

text \<open>
  The SOCKS5 client of \<^verbatim>\<open>internal/socksclient/client.go\<close>: negotiation of the method,
  username/password authentication, the CONNECT request, and \<open>Dial\<close> and \<open>Check\<close> over them. The
  TCP dial is the environment: it gives a connection or an error. A deadline that passes is an
  error of a read or a write.
\<close>

datatype client_error =
    NoAddress | ConnectFailed | DeadlineFailed | WriteGreeting io_error | ReadGreeting io_error | BadVersion u8
  | MethodsRejected | UnsupportedMethod u8 | CredentialsTooLong | WriteAuth io_error | ReadAuth io_error
  | AuthFailed | BadHostLength nat | WriteConnect io_error | ReadConnect io_error
  | BadReplyVersion u8 | ConnectRefused u8 | BadReserved u8 | UnsupportedAddressType u8 | ReadAddress io_error

definition greeting :: "Upstream \<Rightarrow> bytes" where
  "greeting u =
     (let methods = (if up_Username u \<noteq> '''' \<or> up_Password u \<noteq> '''' then [0, 2] else [0])
      in [5, of_nat (length methods)] @ methods)"

definition auth_request :: "string \<Rightarrow> string \<Rightarrow> bytes" where
  "auth_request username password =
     [1, of_nat (length username)] @ bytes_of_string username
     @ [of_nat (length password)] @ bytes_of_string password"

definition authenticate :: "conn \<Rightarrow> string \<Rightarrow> string \<Rightarrow> client_error option \<times> conn" where
  "authenticate c username password =
     (if 255 < length username \<or> 255 < length password then (Some CredentialsTooLong, c)
      else case writeConn c (auth_request username password) of
        (Some e, c1) \<Rightarrow> (Some (WriteAuth e), c1)
      | (None, c1) \<Rightarrow>
          (case ReadFull 2 c1 of
             (Inl e, c2) \<Rightarrow> (Some (ReadAuth e), c2)
           | (Inr r, c2) \<Rightarrow> (if r ! 0 \<noteq> 1 \<or> r ! 1 \<noteq> 0 then Some AuthFailed else None, c2)))"

definition negotiate :: "conn \<Rightarrow> Upstream \<Rightarrow> client_error option \<times> conn" where
  "negotiate c u =
     (case writeConn c (greeting u) of
        (Some e, c1) \<Rightarrow> (Some (WriteGreeting e), c1)
      | (None, c1) \<Rightarrow>
          (case ReadFull 2 c1 of
             (Inl e, c2) \<Rightarrow> (Some (ReadGreeting e), c2)
           | (Inr r, c2) \<Rightarrow>
               if r ! 0 \<noteq> 5 then (Some (BadVersion (r ! 0)), c2)
               else if r ! 1 = 0 then (None, c2)
               else if r ! 1 = 2 then authenticate c2 (up_Username u) (up_Password u)
               else if r ! 1 = 0xFF then (Some MethodsRejected, c2)
               else (Some (UnsupportedMethod (r ! 1)), c2)))"

definition discardAddress :: "conn \<Rightarrow> u8 \<Rightarrow> client_error option \<times> conn" where
  "discardAddress c atyp =
     (let discard = (\<lambda>n c. case CopyDiscard (n + 2) c of
                       (None, c') \<Rightarrow> (None, c') | (Some e, c') \<Rightarrow> (Some (ReadAddress e), c'))
      in if atyp = 1 then discard 4 c
         else if atyp = 4 then discard 16 c
         else if atyp = 3 then
           (case ReadFull 1 c of
              (Inl e, c1) \<Rightarrow> (Some (ReadAddress e), c1)
            | (Inr b, c1) \<Rightarrow> discard (unat (b ! 0)) c1)
         else (Some (UnsupportedAddressType atyp), c))"

text \<open>The CONNECT request; \<open>None\<close> when the host name is too long or empty.\<close>

definition connect_request :: "string \<Rightarrow> u16 \<Rightarrow> bytes option" where
  "connect_request host port =
     (case ParseIP host of
        Some ip \<Rightarrow>
          (case To4 ip of
             Some ip4 \<Rightarrow> Some ([5, 1, 0] @ [1] @ ip4 @ PutUint16 port)
           | None \<Rightarrow> Some ([5, 1, 0] @ [4] @ ip @ PutUint16 port))
      | None \<Rightarrow>
          if host = '''' \<or> 255 < length host then None
          else Some ([5, 1, 0] @ [3, of_nat (length host)] @ bytes_of_string host @ PutUint16 port))"

definition connect :: "conn \<Rightarrow> string \<Rightarrow> u16 \<Rightarrow> client_error option \<times> conn" where
  "connect c host port =
     (case connect_request host port of
        None \<Rightarrow> (Some (BadHostLength (length host)), c)
      | Some request \<Rightarrow>
          (case writeConn c request of
             (Some e, c1) \<Rightarrow> (Some (WriteConnect e), c1)
           | (None, c1) \<Rightarrow>
               (case ReadFull 4 c1 of
                  (Inl e, c2) \<Rightarrow> (Some (ReadConnect e), c2)
                | (Inr h, c2) \<Rightarrow>
                    if h ! 0 \<noteq> 5 then (Some (BadReplyVersion (h ! 0)), c2)
                    else if h ! 1 \<noteq> 0 then (Some (ConnectRefused (h ! 1)), c2)
                    else if h ! 2 \<noteq> 0 then (Some (BadReserved (h ! 2)), c2)
                    else discardAddress c2 (h ! 3))))"

text \<open>What the TCP dial gives: a connection, and whether its deadline can be set before the handshake
  and cleared after it.\<close>

record dialled =
  dl_conn :: conn
  dl_set_ok :: bool
  dl_clear_ok :: bool

text \<open>\<^verbatim>\<open>Dial\<close> and \<^verbatim>\<open>Check\<close>: \<open>tcp address\<close> is the result of the TCP dial.\<close>

definition Dial ::
  "(string \<Rightarrow> dialled option) \<Rightarrow> Upstream \<Rightarrow> string \<Rightarrow> u16 \<Rightarrow> client_error + conn" where
  "Dial tcp u host port =
     (if up_Address u = '''' then Inl NoAddress
      else case tcp (up_Address u) of
        None \<Rightarrow> Inl ConnectFailed
      | Some d \<Rightarrow>
          if \<not> dl_set_ok d then Inl DeadlineFailed
          else case negotiate (dl_conn d) u of
            (Some e, c1) \<Rightarrow> Inl e
          | (None, c1) \<Rightarrow>
              (case connect c1 host port of
                 (Some e, c2) \<Rightarrow> Inl e
               | (None, c2) \<Rightarrow> if \<not> dl_clear_ok d then Inl DeadlineFailed else Inr c2))"

definition Check :: "(string \<Rightarrow> dialled option) \<Rightarrow> Upstream \<Rightarrow> client_error option" where
  "Check tcp u =
     (if up_Address u = '''' then Some NoAddress
      else case tcp (up_Address u) of
        None \<Rightarrow> Some ConnectFailed
      | Some d \<Rightarrow>
          if \<not> dl_set_ok d then Some DeadlineFailed
          else fst (negotiate (dl_conn d) u))"

end
