(* ===== verification/Client_Props.thy ===== *)
theory Client_Props
  imports Socks_Client
begin

text \<open>
  Properties of the SOCKS5 client: what a successful dial has exchanged with the proxy, byte by
  byte, and when credentials are sent.
\<close>

section \<open>Reading and writing\<close>

lemma ReadFull_Inr:
  "ReadFull n c = (Inr bs, c') \<Longrightarrow> cn_in c = bs @ cn_in c' \<and> length bs = n \<and> cn_out c' = cn_out c"
  by (auto simp: ReadFull_def split: if_splits)

lemma CopyDiscard_None:
  "CopyDiscard n c = (None, c') \<Longrightarrow> \<exists>bs. cn_in c = bs @ cn_in c' \<and> length bs = n \<and> cn_out c' = cn_out c"
  by (auto simp: CopyDiscard_def split: if_splits intro!: exI [of _ "take n (cn_in c)"])

lemma writeConn_None:
  "writeConn c data = (None, c') \<Longrightarrow> cn_out c' = cn_out c @ data \<and> cn_in c' = cn_in c"
  using writeConn_delivers [of c data None c'] writeConn_in [of c data] by auto

lemma list_of_2: "length xs = 2 \<Longrightarrow> xs = [xs ! 0, xs ! 1]"
  by (rule nth_equalityI) (auto simp: less_2_cases_iff)

lemma list_of_4: "length xs = 4 \<Longrightarrow> xs = [xs ! 0, xs ! 1, xs ! 2, xs ! 3]"
  by (auto simp: numeral_eq_Suc length_Suc_conv)

lemma authenticate_None:
  assumes "authenticate c user pass = (None, c')"
  shows "cn_in c = [1, 0] @ cn_in c' \<and> cn_out c' = cn_out c @ auth_request user pass"
proof -
  obtain c1 r where w: "writeConn c (auth_request user pass) = (None, c1)"
    and r: "ReadFull 2 c1 = (Inr r, c')" "r ! 0 = 1" "r ! 1 = 0"
    using assms by (auto simp: authenticate_def split: if_splits prod.splits option.splits sum.splits)
  have "r = [1, 0]" using list_of_2 [of r] ReadFull_Inr [OF r(1)] r(2,3) by simp
  then show ?thesis using writeConn_None [OF w] ReadFull_Inr [OF r(1)] by simp
qed

lemma negotiate_None:
  assumes "negotiate c u = (None, c')"
  shows "cn_in c = [5, 0] @ cn_in c' \<and> cn_out c' = cn_out c @ greeting u
    \<or> cn_in c = [5, 2, 1, 0] @ cn_in c' \<and> cn_out c' = cn_out c @ greeting u @ auth_request (up_Username u) (up_Password u)"
proof -
  obtain c1 r c2 where w: "writeConn c (greeting u) = (None, c1)" and r: "ReadFull 2 c1 = (Inr r, c2)" "r ! 0 = 5"
    and k: "(if r ! 1 = 0 then (None, c2) else if r ! 1 = 2 then authenticate c2 (up_Username u) (up_Password u)
             else if r ! 1 = 0xFF then (Some MethodsRejected, c2) else (Some (UnsupportedMethod (r ! 1)), c2)) = (None, c')"
    using assms by (auto simp: negotiate_def split: if_splits prod.splits option.splits sum.splits)
  note w' = writeConn_None [OF w] and r' = ReadFull_Inr [OF r(1)]
  have rr: "r = [5, r ! 1]" using list_of_2 [of r] r' r(2) by simp
  consider "r ! 1 = 0" "c' = c2" | "r ! 1 = 2" "authenticate c2 (up_Username u) (up_Password u) = (None, c')"
    using k by (auto split: if_splits)
  then show ?thesis
  proof cases
    case 1
    then show ?thesis using w' r' rr by (metis append_assoc)
  next
    case 2
    then show ?thesis using w' r' rr authenticate_None [OF 2(2)]
      by (metis append_Cons append_Nil append_assoc)
  qed
qed

text \<open>The length of the address and port that follow a reply of the given type.\<close>

definition bound_address :: "u8 \<Rightarrow> bytes \<Rightarrow> bool" where
  "bound_address atyp addr \<longleftrightarrow>
     (atyp = 1 \<and> length addr = 6) \<or> (atyp = 4 \<and> length addr = 18)
     \<or> (atyp = 3 \<and> addr \<noteq> [] \<and> length addr = 1 + unat (hd addr) + 2)"

lemma discardAddress_None:
  assumes "discardAddress c atyp = (None, c')"
  shows "\<exists>addr. bound_address atyp addr \<and> cn_in c = addr @ cn_in c' \<and> cn_out c' = cn_out c"
proof -
  consider "atyp = 1" "CopyDiscard 6 c = (None, c')" | "atyp = 4" "CopyDiscard 18 c = (None, c')"
    | b c1 where "atyp = 3" "ReadFull 1 c = (Inr b, c1)" "CopyDiscard (unat (b ! 0) + 2) c1 = (None, c')"
    using assms by (auto simp: discardAddress_def Let_def split: if_splits option.splits prod.splits sum.splits)
  then show ?thesis
  proof cases
    case 3
    obtain rest where "cn_in c1 = rest @ cn_in c'" "length rest = unat (b ! 0) + 2" "cn_out c' = cn_out c1"
      using CopyDiscard_None [OF 3(3)] by blast
    moreover obtain x where "b = [x]" using ReadFull_Inr [OF 3(2)] by (auto simp: length_Suc_conv)
    ultimately show ?thesis using ReadFull_Inr [OF 3(2)] 3(1)
      by (intro exI [of _ "x # rest"]) (simp add: bound_address_def)
  qed (use CopyDiscard_None in \<open>fastforce simp: bound_address_def\<close>)+
qed

lemma connect_None:
  assumes "connect c host port = (None, c')"
  shows "\<exists>req atyp addr. connect_request host port = Some req \<and> bound_address atyp addr
    \<and> cn_in c = [5, 0, 0, atyp] @ addr @ cn_in c' \<and> cn_out c' = cn_out c @ req"
proof -
  obtain req c1 h c2 where q: "connect_request host port = Some req" and w: "writeConn c req = (None, c1)"
    and r: "ReadFull 4 c1 = (Inr h, c2)" "h ! 0 = 5" "h ! 1 = 0" "h ! 2 = 0" and d: "discardAddress c2 (h ! 3) = (None, c')"
    using assms by (auto simp: connect_def split: if_splits prod.splits option.splits sum.splits)
  have "h = [5, 0, 0, h ! 3]" using list_of_4 [of h] ReadFull_Inr [OF r(1)] r(2-) by simp
  with discardAddress_None [OF d] q writeConn_None [OF w] ReadFull_Inr [OF r(1)] show ?thesis
    by (metis append_assoc)
qed

text \<open>C15. A dial through a proxy that succeeds has consumed exactly the handshake: the proxy sent the
  choice of a method, the acceptance of the credentials if it chose the password method, and a
  reply of success with a bound address of the length its type announces, and everything after
  that is still unread, so no byte of the target is lost; and the client sent exactly the
  greeting, the credentials only if they were asked for, and the request.\<close>

theorem dial_consumes_exactly_the_handshake:
  assumes "Dial tcp u host port = Inr c'"
  shows "\<exists>d req auth atyp addr. tcp (up_Address u) = Some d \<and> connect_request host port = Some req
    \<and> bound_address atyp addr
    \<and> cn_in (dl_conn d) = (if auth then [5, 2, 1, 0] else [5, 0]) @ [5, 0, 0, atyp] @ addr @ cn_in c'
    \<and> cn_out c' = cn_out (dl_conn d) @ greeting u
        @ (if auth then auth_request (up_Username u) (up_Password u) else []) @ req"
proof -
  obtain d c1 where d: "tcp (up_Address u) = Some d" "negotiate (dl_conn d) u = (None, c1)" "connect c1 host port = (None, c')"
    using assms by (auto simp: Dial_def split: if_splits option.splits prod.splits)
  obtain req atyp addr where c: "connect_request host port = Some req" "bound_address atyp addr"
      "cn_in c1 = [5, 0, 0, atyp] @ addr @ cn_in c'" "cn_out c' = cn_out c1 @ req"
    using connect_None [OF d(3)] by blast
  from negotiate_None [OF d(2)] show ?thesis
  proof (elim disjE)
    assume "cn_in (dl_conn d) = [5, 0] @ cn_in c1 \<and> cn_out c1 = cn_out (dl_conn d) @ greeting u"
    then show ?thesis using d(1) c
      by (intro exI [of _ d] exI [of _ req] exI [of _ False] exI [of _ atyp] exI [of _ addr]) simp
  next
    assume "cn_in (dl_conn d) = [5, 2, 1, 0] @ cn_in c1
      \<and> cn_out c1 = cn_out (dl_conn d) @ greeting u @ auth_request (up_Username u) (up_Password u)"
    then show ?thesis using d(1) c
      by (intro exI [of _ d] exI [of _ req] exI [of _ True] exI [of _ atyp] exI [of _ addr]) simp
  qed
qed

definition sample_proxy :: Upstream where
  "sample_proxy = \<lparr>up_Address = ''p:1'', up_Username = ''u'', up_Password = ''s'', up_ConnectTimeout = ''''\<rparr>"

definition sample_tcp :: "string \<Rightarrow> dialled option" where
  "sample_tcp a = Some \<lparr>dl_conn = open_conn [5, 2, 1, 0, 5, 0, 0, 1, 10, 0, 0, 1, 0, 80, 42], dl_set_ok = True, dl_clear_ok = True\<rparr>"

lemma dial_consumes_exactly_the_handshake_witness:
  "\<exists>c'. Dial sample_tcp sample_proxy ''a.io'' 443 = Inr c' \<and> cn_in c' = [42]
     \<and> (\<exists>req auth. connect_request ''a.io'' 443 = Some req
          \<and> cn_out c' = greeting sample_proxy @ (if auth then auth_request ''u'' ''s'' else []) @ req)"
proof -
  have "ParseIP ''a.io'' = None" by (simp add: ParseIP_def parseIPv4_def)
  then obtain c' where c: "Dial sample_tcp sample_proxy ''a.io'' 443 = Inr c'" "cn_in c' = [42]"
    by (simp add: Dial_def sample_tcp_def sample_proxy_def negotiate_def authenticate_def connect_def connect_request_def
        discardAddress_def CopyDiscard_def ReadFull_def writeConn_unscripted open_conn_def Let_def)
  obtain d req auth where x: "sample_tcp (up_Address sample_proxy) = Some d" "connect_request ''a.io'' 443 = Some req"
      "cn_out c' = cn_out (dl_conn d) @ greeting sample_proxy
        @ (if auth then auth_request (up_Username sample_proxy) (up_Password sample_proxy) else []) @ req"
    using dial_consumes_exactly_the_handshake [OF c(1)] by blast
  have "cn_out (dl_conn d) = []" using x(1) by (auto simp: sample_tcp_def open_conn_def)
  moreover have "up_Username sample_proxy = ''u''" "up_Password sample_proxy = ''s''" by (simp_all add: sample_proxy_def)
  ultimately show ?thesis using c x(2,3) by (intro exI [of _ c'] conjI exI [of _ req] exI [of _ auth]) simp_all
qed

end
