(* ===== verification/Capture.thy ===== *)
theory Capture
  imports Ip_Addr
begin

text \<open>
  The capture of TCP sessions (\<^verbatim>\<open>cmd/capture.go\<close> with cgo, \<^verbatim>\<open>cmd/capture_nocgo.go\<close> without, and
  \<^verbatim>\<open>CaptureSessionInfo\<close> of \<^verbatim>\<open>cmd/micro-socks.go\<close>): the buffer of observed handshakes in both
  builds, what is recorded of a packet, and the fake packet that is built from it. The pcap
  handle and the packet library are outside: a packet is the layers the library decodes, and a
  fake packet the layers it serializes.
\<close>

section \<open>Sessions\<close>

record SessionInfo =
  si_SrcMAC :: bytes
  si_DstMAC :: bytes
  si_SrcIP :: bytes
  si_DstIP :: bytes
  si_SrcPort :: u16
  si_DstPort :: u16
  si_ISN :: u32
  si_Ack :: u32

text \<open>\<^verbatim>\<open>net.IP.Equal\<close>: an IPv4 address and its IPv6 form are the same.\<close>

definition ip_Equal :: "bytes \<Rightarrow> bytes \<Rightarrow> bool" where
  "ip_Equal a b =
     (if length a = length b then a = b
      else if length a = 4 \<and> length b = 16 then b = ip4_prefix @ a
      else if length a = 16 \<and> length b = 4 then a = ip4_prefix @ b
      else False)"

definition same_session :: "SessionInfo \<Rightarrow> SessionInfo \<Rightarrow> bool" where
  "same_session si entry \<longleftrightarrow>
     ip_Equal (si_SrcIP entry) (si_SrcIP si) \<and> ip_Equal (si_DstIP entry) (si_DstIP si)
     \<and> si_SrcPort entry = si_SrcPort si \<and> si_DstPort entry = si_DstPort si"

record RingSessionBuffer =
  rb_Entries :: "SessionInfo list"

text \<open>\<^verbatim>\<open>Append\<close> with cgo: once there are more than 500 entries, the last 500 are copied over the
  first ones and the slice is cut.\<close>

definition rotate_entries :: "'a list \<Rightarrow> 'a list" where
  "rotate_entries es =
     (if 500 < length es then take 500 (drop (length es - 500) es @ drop 500 es) else es)"

definition Append :: "SessionInfo \<Rightarrow> RingSessionBuffer \<Rightarrow> RingSessionBuffer" where
  "Append si r = r\<lparr>rb_Entries := rotate_entries (rb_Entries r @ [si])\<rparr>"

text \<open>Without cgo nothing is dropped.\<close>

definition Append_nocgo :: "SessionInfo \<Rightarrow> RingSessionBuffer \<Rightarrow> RingSessionBuffer" where
  "Append_nocgo si r = r\<lparr>rb_Entries := rb_Entries r @ [si]\<rparr>"

definition LookupSession :: "SessionInfo \<Rightarrow> RingSessionBuffer \<Rightarrow> SessionInfo option" where
  "LookupSession si r = find (same_session si) (rb_Entries r)"

section \<open>Packets\<close>

record packet =
  pk_eth :: "(bytes \<times> bytes) option"
  pk_ip4 :: "(bytes \<times> bytes) option"
  pk_tcp :: "(u16 \<times> u16) option"
  pk_SYN :: bool
  pk_ACK :: bool
  pk_Seq :: u32
  pk_Ack :: u32

text \<open>The pairs hold source and destination. What the capture thread records of a packet: the
  answer of a server to the first packet of a connection, seen from the client.\<close>

definition observed :: "packet \<Rightarrow> SessionInfo option" where
  "observed p =
     (case (pk_eth p, pk_ip4 p, pk_tcp p) of
        (Some (ethSrc, ethDst), Some (ipSrc, ipDst), Some (srcPort, dstPort)) \<Rightarrow>
          if pk_SYN p \<and> pk_ACK p
          then Some \<lparr>si_SrcMAC = ethDst, si_DstMAC = ethSrc, si_SrcIP = ipDst, si_DstIP = ipSrc,
                     si_SrcPort = dstPort, si_DstPort = srcPort, si_ISN = pk_Ack p, si_Ack = pk_Seq p + 1\<rparr>
          else None
      | _ \<Rightarrow> None)"

text \<open>The capture thread and \<^verbatim>\<open>TrackSessions\<close> on a sequence of packets.\<close>

fun TrackSessions :: "packet list \<Rightarrow> RingSessionBuffer \<Rightarrow> RingSessionBuffer" where
  "TrackSessions [] r = r"
| "TrackSessions (p # ps) r =
     TrackSessions ps (case observed p of None \<Rightarrow> r | Some si \<Rightarrow> Append si r)"

text \<open>The layers of the fake packet.\<close>

record fake_packet =
  fp_SrcMAC :: bytes
  fp_DstMAC :: bytes
  fp_TTL :: u8
  fp_SrcIP :: bytes
  fp_DstIP :: bytes
  fp_SrcPort :: u16
  fp_DstPort :: u16
  fp_Seq :: u32
  fp_Ack :: u32
  fp_Window :: u16
  fp_ACK :: bool
  fp_PSH :: bool
  fp_payload :: bytes

definition fake_layers :: "SessionInfo \<Rightarrow> u8 \<Rightarrow> bytes \<Rightarrow> fake_packet" where
  "fake_layers si ttl data =
     \<lparr>fp_SrcMAC = si_SrcMAC si, fp_DstMAC = si_DstMAC si, fp_TTL = ttl, fp_SrcIP = si_SrcIP si, fp_DstIP = si_DstIP si,
      fp_SrcPort = si_SrcPort si, fp_DstPort = si_DstPort si, fp_Seq = si_ISN si, fp_Ack = si_Ack si, fp_Window = 8192,
      fp_ACK = True, fp_PSH = True, fp_payload = data\<rparr>"

text \<open>\<open>serialize\<close> is \<^verbatim>\<open>gopacket.SerializeLayers\<close> with lengths and checksums fixed.\<close>

definition PrepareFakePacket :: "(fake_packet \<Rightarrow> 'p option) \<Rightarrow> SessionInfo \<Rightarrow> u8 \<Rightarrow> bytes \<Rightarrow> 'p option" where
  "PrepareFakePacket serialize si ttl data = serialize (fake_layers si ttl data)"

text \<open>What a connection asks for: the addresses are those of \<^verbatim>\<open>net.TCPAddr\<close>, the ports are cut to
  16 bits.\<close>

record tcp_conn =
  tc_local :: "bytes \<times> int"
  tc_remote :: "bytes \<times> int"

definition CaptureSessionInfo :: "tcp_conn \<Rightarrow> RingSessionBuffer \<Rightarrow> SessionInfo option" where
  "CaptureSessionInfo c r =
     LookupSession \<lparr>si_SrcMAC = [], si_DstMAC = [], si_SrcIP = fst (tc_local c), si_DstIP = fst (tc_remote c),
       si_SrcPort = of_int (snd (tc_local c)), si_DstPort = of_int (snd (tc_remote c)), si_ISN = 0, si_Ack = 0\<rparr> r"

section \<open>The contract of the buffer\<close>

text \<open>A window on a growing log: the last \<open>cap\<close> elements, or all of them.\<close>

definition window :: "nat option \<Rightarrow> 'a list \<Rightarrow> 'a list" where
  "window cap xs = (case cap of None \<Rightarrow> xs | Some n \<Rightarrow> drop (length xs - n) xs)"

locale log_window =
  fixes add :: "'a \<Rightarrow> 'b \<Rightarrow> 'b"
    and contents :: "'b \<Rightarrow> 'a list"
    and cap :: "nat option"
  assumes add_contents: "contents b = window cap xs \<Longrightarrow> contents (add x b) = window cap (xs @ [x])"
begin

lemma contents_fold: "contents b = window cap xs \<Longrightarrow> contents (fold add ys b) = window cap (xs @ ys)"
proof (induction ys arbitrary: b xs)
  case (Cons y ys)
  from Cons.IH [OF add_contents [OF Cons.prems, of y]] show ?case by simp
qed simp

lemma contents_from_empty: "contents b = [] \<Longrightarrow> contents (fold add ys b) = window cap ys"
  using contents_fold [of b "[]" ys] by (simp add: window_def split: option.splits)

end

lemma rotate_window: "es = drop (length xs - 500) xs \<Longrightarrow> rotate_entries (es @ [x]) = window (Some 500) (xs @ [x])"
proof (cases "500 \<le> length xs")
  case True
  then have "Suc (length xs - 500) = length xs - 499" by simp
  moreover assume "es = drop (length xs - 500) xs"
  ultimately show ?thesis using True by (simp add: rotate_entries_def window_def)
qed (simp add: rotate_entries_def window_def)

interpretation ring: log_window Append rb_Entries "Some 500"
  by unfold_locales (simp add: Append_def rotate_window window_def)

interpretation full_log: log_window Append_nocgo rb_Entries None
  by unfold_locales (simp add: Append_nocgo_def window_def)

end
