(* ===== verification/Capture_Props.thy ===== *)
theory Capture_Props
  imports Capture
begin

text \<open>
  Properties of the capture: the buffer is a window on the handshakes seen so far, a fake packet
  continues the handshake of its connection, and reused ports find the old handshake.
\<close>

definition empty_buffer :: RingSessionBuffer where
  "empty_buffer = \<lparr>rb_Entries = []\<rparr>"

text \<open>The buffer refines the log of all sessions: with cgo it answers like the last 500 of
  them, without cgo like all of them, so both builds agree on the first 500 sessions; it never
  holds more than 500.\<close>

theorem capture_buffer_is_a_window:
  "LookupSession si (fold Append ss empty_buffer) = find (same_session si) (drop (length ss - 500) ss)
   \<and> LookupSession si (fold Append_nocgo ss empty_buffer) = find (same_session si) ss
   \<and> length (rb_Entries (fold Append ss empty_buffer)) = min 500 (length ss)"
  using ring.contents_from_empty [of empty_buffer ss] full_log.contents_from_empty [of empty_buffer ss]
  by (simp add: LookupSession_def empty_buffer_def window_def)

lemma TrackSessions_fold: "TrackSessions ps r = fold Append (List.map_filter observed ps) r"
  by (induction ps arbitrary: r) (simp_all add: List.map_filter_simps split: option.split)

lemma find_append: "find P (xs @ ys) = (case find P xs of None \<Rightarrow> find P ys | Some x \<Rightarrow> Some x)"
  by (induction xs) auto

lemma find_None_drop: "find P xs = None \<Longrightarrow> find P (drop n xs) = None"
  by (auto simp: find_None_iff dest: in_set_dropD)

lemma ip_Equal_refl [simp]: "ip_Equal a a"
  by (simp add: ip_Equal_def)

text \<open>C27. The fake packet continues the handshake of its connection: if the server answered the
  first packet of the connection with \<open>p\<close>, no earlier handshake had the same addresses and ports,
  and fewer than 500 handshakes were seen since, then the connection finds the sequence numbers
  of \<open>p\<close>, and the packet goes from the client to the server with the next sequence number of the
  client and acknowledges the first of the server.\<close>

theorem fake_packet_continues_handshake:
  assumes p: "observed p = Some si" "pk_ip4 p = Some (server, client)" "pk_tcp p = Some (sport, cport)"
    and fresh: "\<forall>q \<in> set before. \<forall>e. observed q = Some e \<longrightarrow> \<not> same_session si e"
    and few: "length (List.map_filter observed later) < 500"
    and c: "tc_local c = (client, int (unat cport))" "tc_remote c = (server, int (unat sport))"
  shows "CaptureSessionInfo c (TrackSessions (before @ p # later) empty_buffer) = Some si
    \<and> (let f = fake_layers si ttl data in
         fp_SrcIP f = client \<and> fp_DstIP f = server \<and> fp_SrcPort f = cport \<and> fp_DstPort f = sport
         \<and> fp_Seq f = pk_Ack p \<and> fp_Ack f = pk_Seq p + 1 \<and> fp_TTL f = ttl \<and> fp_payload f = data)"
proof -
  let ?b = "List.map_filter observed before" and ?l = "List.map_filter observed later"
  let ?key = "\<lparr>si_SrcMAC = [], si_DstMAC = [], si_SrcIP = client, si_DstIP = server, si_SrcPort = cport,
    si_DstPort = sport, si_ISN = 0, si_Ack = 0\<rparr>"
  have si: "si_SrcIP si = client" "si_DstIP si = server" "si_SrcPort si = cport" "si_DstPort si = sport"
      "si_ISN si = pk_Ack p" "si_Ack si = pk_Seq p + 1"
    using p by (auto simp: observed_def split: option.splits if_splits)
  have key: "same_session ?key e = same_session si e" for e by (simp add: same_session_def si)
  have none: "find (same_session ?key) ?b = None"
    using fresh by (auto simp: find_None_iff key map_filter_def)
  have me: "same_session ?key si" by (simp add: same_session_def si)
  have "find (same_session ?key) (drop (length (?b @ si # ?l) - 500) (?b @ si # ?l)) = Some si"
    using few me none find_None_drop [OF none] by (simp add: find_append)
  moreover have "CaptureSessionInfo c (TrackSessions (before @ p # later) empty_buffer)
      = LookupSession ?key (fold Append (?b @ si # ?l) empty_buffer)"
    by (simp add: CaptureSessionInfo_def c TrackSessions_fold List.map_filter_def p(1))
  ultimately show ?thesis using ring.contents_from_empty [of empty_buffer "?b @ si # ?l"] si
    by (simp add: LookupSession_def empty_buffer_def window_def fake_layers_def Let_def)
qed

text \<open>A reused pair of addresses and ports finds the old handshake: while an entry for the same
  addresses and ports is in the buffer, recording the new handshake of a later connection does
  not change the answer of the lookup, so the fake packet of the later connection carries the
  sequence numbers of the earlier one.\<close>

theorem reused_ports_get_stale_session:
  assumes "LookupSession si r = Some old" "length (rb_Entries r) < 500"
  shows "LookupSession si (Append new r) = Some old"
  using assms by (simp add: LookupSession_def Append_def rotate_entries_def find_append)

section \<open>Sample packets\<close>

definition sample_packet :: "u32 \<Rightarrow> packet" where
  "sample_packet n =
     \<lparr>pk_eth = Some ([1], [2]), pk_ip4 = Some ([9, 9, 9, 9], [10, 0, 0, 1]), pk_tcp = Some (443, 50000),
      pk_SYN = True, pk_ACK = True, pk_Seq = n, pk_Ack = n + 7\<rparr>"

definition sample_conn :: tcp_conn where
  "sample_conn = \<lparr>tc_local = ([10, 0, 0, 1], 50000), tc_remote = ([9, 9, 9, 9], 443)\<rparr>"

lemma fake_packet_continues_handshake_witness:
  "\<exists>si. CaptureSessionInfo sample_conn (TrackSessions [sample_packet 5] empty_buffer) = Some si
     \<and> fp_Seq (fake_layers si 7 []) = 12 \<and> fp_Ack (fake_layers si 7 []) = 6"
proof -
  obtain si where o: "observed (sample_packet 5) = Some si" by (simp add: observed_def sample_packet_def)
  show ?thesis
    using fake_packet_continues_handshake [OF o, of "[9, 9, 9, 9]" "[10, 0, 0, 1]" 443 50000 "[]" "[]" sample_conn 7 "[]"]
    by (auto simp: sample_packet_def sample_conn_def Let_def List.map_filter_simps)
qed

lemma reused_ports_get_stale_session_witness:
  "\<exists>si. CaptureSessionInfo sample_conn (TrackSessions [sample_packet 5, sample_packet 100] empty_buffer) = Some si \<and> si_ISN si = 12"
proof -
  obtain a b where o: "observed (sample_packet 5) = Some a" "observed (sample_packet 100) = Some b" "si_ISN a = 12"
    by (simp add: observed_def sample_packet_def)
  let ?r = "Append a empty_buffer"
  have e: "rb_Entries ?r = [a]" by (simp add: Append_def empty_buffer_def rotate_entries_def)
  have "LookupSession a ?r = Some a" by (simp add: LookupSession_def e same_session_def)
  from reused_ports_get_stale_session [OF this, of b] have l: "LookupSession a (Append b ?r) = Some a" by (simp add: e)
  have k: "same_session \<lparr>si_SrcMAC = [], si_DstMAC = [], si_SrcIP = [10, 0, 0, 1], si_DstIP = [9, 9, 9, 9],
      si_SrcPort = 50000, si_DstPort = 443, si_ISN = 0, si_Ack = 0\<rparr> = same_session a"
    using o(1) by (auto simp: same_session_def fun_eq_iff observed_def sample_packet_def)
  show ?thesis using l o by (simp add: CaptureSessionInfo_def sample_conn_def LookupSession_def k)
qed

end
