(* ===== verification/Learned.thy ===== *)
theory Learned
  imports Go_Strings
begin

text \<open>
  The learned routing table of \<^verbatim>\<open>internal/routing/learned.go\<close>: \<open>Store\<close> with its lookups,
  insertion with least-recently-used eviction, deletion, expiry and persistence. The file
  system and the YAML library are the environment: a \<open>save_fault\<close> says which step of a
  save fails, and \<open>'y yaml\<close> holds the encoder and the decoder of the third-party package,
  whose documents have an abstract type \<open>'y\<close>.
\<close>

section \<open>Data\<close>

record LearnedDomain =
  ld_Host :: string
  ld_Upstream :: string
  ld_LearnedAt :: time
  ld_LastUsedAt :: time
  ld_HitCount :: u64
  ld_Reason :: string

record learnedFile =
  lf_Version :: int
  lf_Domains :: "LearnedDomain list"

text \<open>\<open>st_file\<close> is the content of the file at \<open>st_path\<close>, \<open>None\<close> when there is none.\<close>

record 'y Store =
  st_path :: string
  st_domains :: "(string, LearnedDomain) gomap"
  st_dirty :: bool
  st_file :: "'y option"

datatype store_error =
    ReadError | ParseError | EmptyHost | EmptyUpstream | EncodeError | CreateTempError
  | WriteError | SyncError | CloseError | RenameError

record 'y yaml =
  y_marshal :: "learnedFile \<Rightarrow> 'y option"
  y_unmarshal :: "'y \<Rightarrow> learnedFile option"

datatype save_fault = NoFault | FailCreate | FailWrite | FailSync | FailClose | FailRename

text \<open>What reading the file gives: its content, no such file, or another failure.\<close>

datatype 'y read_result = ReadOk 'y | ReadNotExist | ReadFailed

section \<open>Operations\<close>

definition normalizeHost :: "string \<Rightarrow> string" where
  "normalizeHost host = TrimSuffix (ToLower (TrimSpace host)) ''.''"

definition load_entry :: "(string, LearnedDomain) gomap \<Rightarrow> LearnedDomain \<Rightarrow> (string, LearnedDomain) gomap" where
  "load_entry m entry =
     (let e = entry\<lparr>ld_Host := normalizeHost (ld_Host entry)\<rparr>
      in if ld_Host e = '''' \<or> ld_Upstream e = '''' then m else AList.update (ld_Host e) e m)"

definition Load :: "'y yaml \<Rightarrow> string \<Rightarrow> 'y read_result \<Rightarrow> store_error + 'y Store" where
  "Load Y path content =
     (let store = \<lparr>st_path = path, st_domains = [], st_dirty = False, st_file = None\<rparr>
      in if path = '''' then Inr store
         else case content of
           ReadNotExist \<Rightarrow> Inr store
         | ReadFailed \<Rightarrow> Inl ReadError
         | ReadOk data \<Rightarrow>
             (case y_unmarshal Y data of
                None \<Rightarrow> Inl ParseError
              | Some file \<Rightarrow>
                  Inr (store\<lparr>st_domains := foldl load_entry [] (lf_Domains file),
                             st_file := Some data\<rparr>)))"

definition Lookup :: "'y Store \<Rightarrow> string \<Rightarrow> LearnedDomain option" where
  "Lookup s host = map_of (st_domains s) (normalizeHost host)"

definition LookupActive :: "'y Store \<Rightarrow> string \<Rightarrow> duration \<Rightarrow> time \<Rightarrow> LearnedDomain option" where
  "LookupActive s host ttl now =
     (case Lookup s host of
        None \<Rightarrow> None
      | Some entry \<Rightarrow>
          if 0 < ttl \<and> ttl \<le> time_Sub now (ld_LearnedAt entry) then None else Some entry)"

definition MarkUsed :: "'y Store \<Rightarrow> string \<Rightarrow> time \<Rightarrow> bool \<times> 'y Store" where
  "MarkUsed s host now =
     (let h = normalizeHost host
      in case map_of (st_domains s) h of
        None \<Rightarrow> (False, s)
      | Some entry \<Rightarrow>
          (True, s\<lparr>st_domains := AList.update h
                     (entry\<lparr>ld_HitCount := ld_HitCount entry + 1, ld_LastUsedAt := now\<rparr>)
                     (st_domains s),
                   st_dirty := True\<rparr>))"

definition lessRecentlyUsed :: "LearnedDomain \<Rightarrow> LearnedDomain \<Rightarrow> bool" where
  "lessRecentlyUsed left right =
     (let leftUsed = (if IsZero (ld_LastUsedAt left) then ld_LearnedAt left else ld_LastUsedAt left);
          rightUsed = (if IsZero (ld_LastUsedAt right) then ld_LearnedAt right else ld_LastUsedAt right)
      in if leftUsed \<noteq> rightUsed then leftUsed < rightUsed
         else if ld_LearnedAt left \<noteq> ld_LearnedAt right then ld_LearnedAt left < ld_LearnedAt right
         else ld_Host left < ld_Host right)"

definition evictionCandidateLocked :: "(string, LearnedDomain) gomap \<Rightarrow> LearnedDomain option" where
  "evictionCandidateLocked m =
     foldl (\<lambda>candidate entry. case candidate of
              None \<Rightarrow> Some entry
            | Some c \<Rightarrow> if lessRecentlyUsed entry c then Some entry else candidate)
       None (map snd m)"

text \<open>\<^verbatim>\<open>Entries\<close>: the values sorted by host name.\<close>

definition Entries :: "'y Store \<Rightarrow> LearnedDomain list" where
  "Entries s = sort_key ld_Host (map snd (st_domains s))"

text \<open>
  \<^verbatim>\<open>saveLocked\<close> writes a temporary file and renames it over the old one: the file at the
  path changes in the last step only.
\<close>

definition saveLocked :: "'y yaml \<Rightarrow> save_fault \<Rightarrow> 'y Store \<Rightarrow> store_error option \<times> 'y Store" where
  "saveLocked Y fault s =
     (if st_path s = '''' then (None, s)
      else case y_marshal Y \<lparr>lf_Version = 1, lf_Domains = Entries s\<rparr> of
        None \<Rightarrow> (Some EncodeError, s)
      | Some data \<Rightarrow>
          (case fault of
             FailCreate \<Rightarrow> (Some CreateTempError, s)
           | FailWrite \<Rightarrow> (Some WriteError, s)
           | FailSync \<Rightarrow> (Some SyncError, s)
           | FailClose \<Rightarrow> (Some CloseError, s)
           | FailRename \<Rightarrow> (Some RenameError, s)
           | NoFault \<Rightarrow> (None, s\<lparr>st_file := Some data\<rparr>)))"

definition AddWithLimit ::
  "'y yaml \<Rightarrow> save_fault \<Rightarrow> time \<Rightarrow> 'y Store \<Rightarrow> string \<Rightarrow> string \<Rightarrow> string \<Rightarrow> int \<Rightarrow>
   (store_error + bool \<times> LearnedDomain option) \<times> 'y Store" where
  "AddWithLimit Y fault now s host upstream reason maxEntries =
     (let h = normalizeHost host
      in if h = '''' then (Inl EmptyHost, s)
         else if upstream = '''' then (Inl EmptyUpstream, s)
         else
           let current = map_of (st_domains s) h
           in if (case current of Some e \<Rightarrow> ld_Upstream e = upstream | None \<Rightarrow> False)
              then (Inr (False, None), s)
              else
                let evicted = (if current = None \<and> 0 < maxEntries \<and> maxEntries \<le> int (length (st_domains s))
                               then evictionCandidateLocked (st_domains s) else None);
                    d1 = (case evicted of None \<Rightarrow> st_domains s
                          | Some e \<Rightarrow> AList.delete (ld_Host e) (st_domains s));
                    d2 = AList.update h \<lparr>ld_Host = h, ld_Upstream = upstream, ld_LearnedAt = now,
                           ld_LastUsedAt = 0, ld_HitCount = 0, ld_Reason = reason\<rparr> d1
                in case saveLocked Y fault (s\<lparr>st_domains := d2\<rparr>) of
                     (Some err, s2) \<Rightarrow>
                       (let d3 = (case current of Some c \<Rightarrow> AList.update h c d2
                                  | None \<Rightarrow> AList.delete h d2);
                            d4 = (case evicted of Some e \<Rightarrow> AList.update (ld_Host e) e d3 | None \<Rightarrow> d3)
                        in (Inl err, s2\<lparr>st_domains := d4\<rparr>))
                   | (None, s2) \<Rightarrow> (Inr (True, evicted), s2\<lparr>st_dirty := False\<rparr>))"

definition Add ::
  "'y yaml \<Rightarrow> save_fault \<Rightarrow> time \<Rightarrow> 'y Store \<Rightarrow> string \<Rightarrow> string \<Rightarrow> string \<Rightarrow>
   (store_error + bool) \<times> 'y Store" where
  "Add Y fault now s host upstream reason =
     (case AddWithLimit Y fault now s host upstream reason 0 of
        (Inl e, s') \<Rightarrow> (Inl e, s')
      | (Inr (added, _), s') \<Rightarrow> (Inr added, s'))"

definition Delete :: "'y yaml \<Rightarrow> save_fault \<Rightarrow> 'y Store \<Rightarrow> string \<Rightarrow> (store_error + bool) \<times> 'y Store" where
  "Delete Y fault s host =
     (let h = normalizeHost host
      in case map_of (st_domains s) h of
        None \<Rightarrow> (Inr False, s)
      | Some entry \<Rightarrow>
          (case saveLocked Y fault (s\<lparr>st_domains := AList.delete h (st_domains s)\<rparr>) of
             (Some err, s') \<Rightarrow> (Inl err, s'\<lparr>st_domains := AList.update h entry (st_domains s')\<rparr>)
           | (None, s') \<Rightarrow> (Inr True, s'\<lparr>st_dirty := False\<rparr>)))"

text \<open>The common end of the two pruning operations: save, or put the removed entries back.\<close>

definition finish_prune ::
  "'y yaml \<Rightarrow> save_fault \<Rightarrow> 'y Store \<Rightarrow> (string, LearnedDomain) gomap \<Rightarrow>
   (string, LearnedDomain) gomap \<Rightarrow> (store_error + int) \<times> 'y Store" where
  "finish_prune Y fault s kept removed =
     (if removed = [] then (Inr 0, s\<lparr>st_domains := kept\<rparr>)
      else case saveLocked Y fault (s\<lparr>st_domains := kept\<rparr>) of
        (Some err, s') \<Rightarrow> (Inl err, s'\<lparr>st_domains := put_all removed (st_domains s')\<rparr>)
      | (None, s') \<Rightarrow> (Inr (int (length removed)), s'\<lparr>st_dirty := False\<rparr>))"

definition expired :: "duration \<Rightarrow> time \<Rightarrow> LearnedDomain \<Rightarrow> bool" where
  "expired ttl now entry \<longleftrightarrow> ttl \<le> time_Sub now (ld_LearnedAt entry)"

definition PruneExpired ::
  "'y yaml \<Rightarrow> save_fault \<Rightarrow> 'y Store \<Rightarrow> duration \<Rightarrow> time \<Rightarrow> (store_error + int) \<times> 'y Store" where
  "PruneExpired Y fault s ttl now =
     (if ttl \<le> 0 then (Inr 0, s)
      else finish_prune Y fault s
             (filter (\<lambda>(host, entry). \<not> expired ttl now entry) (st_domains s))
             (filter (\<lambda>(host, entry). expired ttl now entry) (st_domains s)))"

text \<open>
  The loop of \<^verbatim>\<open>PruneToLimit\<close> on the map and the removed entries. It ends only when each
  deletion shrinks the map, so it is a partial function: \<open>None\<close> is a loop that never ends.
\<close>

partial_function (option) prune_loop ::
  "int \<Rightarrow> (string, LearnedDomain) gomap \<Rightarrow> (string, LearnedDomain) gomap \<Rightarrow>
   ((string, LearnedDomain) gomap \<times> (string, LearnedDomain) gomap) option" where
  "prune_loop maxEntries m removed =
     (if maxEntries < int (length m)
      then (case evictionCandidateLocked m of
              None \<Rightarrow> Some (m, removed)
            | Some candidate \<Rightarrow>
                prune_loop maxEntries (AList.delete (ld_Host candidate) m)
                  (AList.update (ld_Host candidate) candidate removed))
      else Some (m, removed))"

definition PruneToLimit ::
  "'y yaml \<Rightarrow> save_fault \<Rightarrow> 'y Store \<Rightarrow> int \<Rightarrow> ((store_error + int) \<times> 'y Store) option" where
  "PruneToLimit Y fault s maxEntries =
     (if maxEntries \<le> 0 then Some (Inr 0, s)
      else map_option (\<lambda>(kept, removed). finish_prune Y fault s kept removed)
             (prune_loop maxEntries (st_domains s) []))"

definition Flush :: "'y yaml \<Rightarrow> save_fault \<Rightarrow> 'y Store \<Rightarrow> store_error option \<times> 'y Store" where
  "Flush Y fault s =
     (if \<not> st_dirty s then (None, s)
      else case saveLocked Y fault s of
        (Some err, s') \<Rightarrow> (Some err, s')
      | (None, s') \<Rightarrow> (None, s'\<lparr>st_dirty := False\<rparr>))"

end
