(* ===== verification/Probe.thy ===== *)
theory Probe
  imports Learned
begin

text \<open>
  The coordinator of the fallback probes (\<^verbatim>\<open>probeCoordinator\<close> in \<^verbatim>\<open>cmd/socks5.go\<close>): at most one
  probe per host, a pause after a failed one, and a bounded table. The locale \<open>once_per_key\<close> is
  the contract a session relies on when it starts a probe.
\<close>

section \<open>Operations\<close>

record probeState =
  ps_active :: bool
  ps_retryAfter :: time

type_synonym coordinator = "(string, probeState) gomap"

definition maxProbeStates :: nat where "maxProbeStates = 10000"

definition newProbeCoordinator :: coordinator where "newProbeCoordinator = []"

definition normalizeProbeHost :: "string \<Rightarrow> string" where
  "normalizeProbeHost host = TrimSuffix (ToLower (TrimSpace host)) ''.''"

definition pruneExpiredLocked :: "time \<Rightarrow> coordinator \<Rightarrow> coordinator" where
  "pruneExpiredLocked now p = filter (\<lambda>(h, st). \<not> (\<not> ps_active st \<and> \<not> now < ps_retryAfter st)) p"

definition Start :: "string \<Rightarrow> time \<Rightarrow> coordinator \<Rightarrow> (bool \<times> string) \<times> coordinator" where
  "Start host0 now p =
     (let host = normalizeProbeHost host0;
          set_active = (\<lambda>q. ((True, ''''), AList.update host \<lparr>ps_active = True, ps_retryAfter = 0\<rparr> q))
      in case map_of p host of
           Some st \<Rightarrow>
             if ps_active st then ((False, ''already_in_progress''), p)
             else if now < ps_retryAfter st then ((False, ''failure_backoff''), p)
             else set_active p
         | None \<Rightarrow>
             if maxProbeStates \<le> length p
             then (let q = pruneExpiredLocked now p
                   in if maxProbeStates \<le> length q then ((False, ''coordinator_full''), q) else set_active q)
             else set_active p)"

definition Done :: "string \<Rightarrow> time \<Rightarrow> coordinator \<Rightarrow> coordinator" where
  "Done host0 retryAfter p =
     (let host = normalizeProbeHost host0
      in if IsZero retryAfter then AList.delete host p
         else AList.update host \<lparr>ps_active = False, ps_retryAfter = retryAfter\<rparr> p)"

section \<open>Lemmas\<close>

definition active_in :: "coordinator \<Rightarrow> string \<Rightarrow> bool" where
  "active_in p h \<longleftrightarrow> (\<exists>st. map_of p h = Some st \<and> ps_active st)"

definition probes_ok :: "coordinator \<Rightarrow> bool" where
  "probes_ok p \<longleftrightarrow> wf_map p \<and> length p \<le> maxProbeStates"

lemma active_in_update [simp]:
  "active_in (AList.update k st p) h = (if h = k then ps_active st else active_in p h)"
  by (auto simp: active_in_def)

lemma active_in_delete [simp]: "active_in (AList.delete k p) h = (h \<noteq> k \<and> active_in p h)"
  by (auto simp: active_in_def)

lemma active_in_prune [simp]: "wf_map p \<Longrightarrow> active_in (pruneExpiredLocked now p) h = active_in p h"
  by (auto simp: active_in_def pruneExpiredLocked_def map_of_filter_wf)

lemma prune_ok [simp]: "probes_ok p \<Longrightarrow> probes_ok (pruneExpiredLocked now p)"
  unfolding probes_ok_def pruneExpiredLocked_def by (auto intro: order_trans [OF length_filter_le])

lemma Start_ok: "probes_ok p \<Longrightarrow> probes_ok (snd (Start host now p))"
proof -
  assume p: "probes_ok p"
  then have "probes_ok (pruneExpiredLocked now p)" by simp
  with p show ?thesis
    by (auto simp: Start_def Let_def probes_ok_def length_update split: option.split)
qed

lemma Start_active:
  assumes "wf_map p"
  shows "active_in (snd (Start host now p)) h \<longleftrightarrow>
     active_in p h \<or> (fst (fst (Start host now p)) \<and> h = normalizeProbeHost host)"
  using assms by (auto simp: Start_def Let_def split: option.split)

lemma Start_refuses_active:
  "active_in p (normalizeProbeHost host) \<Longrightarrow> \<not> fst (fst (Start host now p))"
  by (auto simp: Start_def active_in_def Let_def)

lemma Done_inactive: "\<not> active_in (Done host t p) (normalizeProbeHost host)"
  by (simp add: Done_def Let_def)

lemma Done_other: "h \<noteq> normalizeProbeHost host \<Longrightarrow> active_in (Done host t p) h = active_in p h"
  by (simp add: Done_def Let_def)

lemma Done_ok:
  assumes "probes_ok p" "active_in p (normalizeProbeHost host)"
  shows "probes_ok (Done host t p)"
proof -
  from assms(2) have "map_of p (normalizeProbeHost host) \<noteq> None" by (auto simp: active_in_def)
  with assms(1) show ?thesis
    by (auto simp: Done_def Let_def probes_ok_def length_update length_delete)
qed

section \<open>The contract of a session\<close>

text \<open>Events of the sessions: one starts a probe for a key, or the probe of a key ends.\<close>

datatype probe_event = Begin string time | Finish string time

text \<open>The probes in flight, as a list of keys, along a sequence of events; a session ends only a
  probe that is in flight.\<close>

fun flights ::
  "(string \<Rightarrow> string) \<Rightarrow> (string \<Rightarrow> time \<Rightarrow> 'p \<Rightarrow> bool \<times> 'p) \<Rightarrow> (string \<Rightarrow> time \<Rightarrow> 'p \<Rightarrow> 'p) \<Rightarrow>
   probe_event list \<Rightarrow> 'p \<Rightarrow> string list \<Rightarrow> ('p \<times> string list) option" where
  "flights key begin_op finish_op [] p ks = Some (p, ks)"
| "flights key begin_op finish_op (Begin h t # es) p ks =
     (case begin_op h t p of (ok, p') \<Rightarrow>
        flights key begin_op finish_op es p' (if ok then key h # ks else ks))"
| "flights key begin_op finish_op (Finish h t # es) p ks =
     (if key h \<in> set ks then flights key begin_op finish_op es (finish_op h t p) (remove1 (key h) ks) else None)"

locale once_per_key =
  fixes key :: "string \<Rightarrow> string"
    and begin_op :: "string \<Rightarrow> time \<Rightarrow> 'p \<Rightarrow> bool \<times> 'p"
    and finish_op :: "string \<Rightarrow> time \<Rightarrow> 'p \<Rightarrow> 'p"
    and good :: "'p \<Rightarrow> bool"
    and running :: "'p \<Rightarrow> string \<Rightarrow> bool"
  assumes begin_good: "good p \<Longrightarrow> good (snd (begin_op h t p))"
    and finish_good: "good p \<Longrightarrow> running p (key h) \<Longrightarrow> good (finish_op h t p)"
    and begin_running: "good p \<Longrightarrow> running (snd (begin_op h t p)) k = (running p k \<or> fst (begin_op h t p) \<and> k = key h)"
    and begin_free: "good p \<Longrightarrow> fst (begin_op h t p) \<Longrightarrow> \<not> running p (key h)"
    and finish_running: "good p \<Longrightarrow> running (finish_op h t p) k = (k \<noteq> key h \<and> running p k)"
begin

lemma flights_distinct:
  "flights key begin_op finish_op es p ks = Some (p', ks') \<Longrightarrow> good p \<Longrightarrow> distinct ks \<Longrightarrow> (\<And>k. running p k = (k \<in> set ks)) \<Longrightarrow>
   good p' \<and> distinct ks' \<and> (\<forall>k. running p' k = (k \<in> set ks'))"
proof (induction es arbitrary: p ks)
  case (Cons e es)
  show ?case
  proof (cases e)
    case (Begin h t)
    obtain ok q where b: "begin_op h t p = (ok, q)" by (cases "begin_op h t p")
    have "good q" using begin_good [OF Cons.prems(2), of h t] by (simp add: b)
    moreover have "ok \<Longrightarrow> key h \<notin> set ks" using begin_free [OF Cons.prems(2), of h t] Cons.prems(4) by (simp add: b)
    moreover have "running q k = (k \<in> set (if ok then key h # ks else ks))" for k
      using begin_running [OF Cons.prems(2), of h t k] Cons.prems(4) by (auto simp: b)
    moreover have "distinct (if ok then key h # ks else ks)" using calculation(2) Cons.prems(3) by simp
    moreover have "flights key begin_op finish_op es q (if ok then key h # ks else ks) = Some (p', ks')"
      using Cons.prems(1) b Begin by simp
    ultimately show ?thesis by (intro Cons.IH)
  next
    case (Finish h t)
    then have "key h \<in> set ks" using Cons.prems(1) by (simp split: if_splits)
    moreover have "running (finish_op h t p) k = (k \<in> set (remove1 (key h) ks))" for k
      using finish_running [OF Cons.prems(2), of h t k] Cons.prems(3,4) by auto
    ultimately show ?thesis using Cons.IH Cons.prems Finish finish_good [OF Cons.prems(2), of h t] by simp
  qed
qed simp

end

definition begin_probe :: "string \<Rightarrow> time \<Rightarrow> coordinator \<Rightarrow> bool \<times> coordinator" where
  "begin_probe h t p = (fst (fst (Start h t p)), snd (Start h t p))"

interpretation probes: once_per_key normalizeProbeHost begin_probe Done probes_ok active_in
proof
  fix p :: coordinator and h k :: string and t :: time
  assume g: "probes_ok p"
  then have w: "wf_map p" by (simp add: probes_ok_def)
  show "probes_ok (snd (begin_probe h t p))" using g by (simp add: begin_probe_def Start_ok)
  show "active_in (snd (begin_probe h t p)) k =
      (active_in p k \<or> fst (begin_probe h t p) \<and> k = normalizeProbeHost h)"
    using w by (simp add: begin_probe_def Start_active)
  show "\<not> active_in p (normalizeProbeHost h)" if "fst (begin_probe h t p)"
    using that Start_refuses_active by (auto simp: begin_probe_def)
  show "probes_ok (Done h t p)" if "active_in p (normalizeProbeHost h)" using g that by (rule Done_ok)
  show "active_in (Done h t p) k = (k \<noteq> normalizeProbeHost h \<and> active_in p k)"
    by (cases "k = normalizeProbeHost h") (simp_all add: Done_other Done_inactive)
qed

end
