(* ===== verification/Session.thy ===== *)
theory Session
  imports Learned Upstream_Manager Probe Socks_Client
begin

text \<open>
  A SOCKS5 session up to the connection (\<^verbatim>\<open>cmd/socks5.go\<close>): the authentication, the request, the
  choice of the route, the dials with fallback and learning, the reply, and the probe that
  looks for blocked hosts. The record \<open>env\<close> holds what the network answers; the world of a
  session is the state it shares with the others, the breaker manager of its runtime and the
  learned routes. Log output is left out; what is reported to the monitor is in \<open>Session_Metrics\<close>.
\<close>

section \<open>Environment\<close>

datatype local_addr = TCPAddr bytes int | OtherAddr

record target =
  tg_local :: local_addr
  tg_remote :: string

text \<open>The readings of the clock, in the order the code makes them: for the lookup of the route, for
  \<^verbatim>\<open>Allow\<close>, for \<^verbatim>\<open>Record\<close> and for learning or marking the route; and the durations of the direct
  dial and of the fallback, which are only observed.\<close>

record env =
  ev_now :: time
  ev_allow :: time
  ev_record :: time
  ev_later :: time
  ev_took :: duration
  ev_fallback_took :: duration
  ev_direct :: "string \<Rightarrow> target option"
  ev_dial :: "Upstream \<Rightarrow> string \<Rightarrow> u16 \<Rightarrow> string + target"

text \<open>\<open>wd_manager\<close> is \<^verbatim>\<open>runtime.upstreams\<close>, \<open>wd_learned\<close> is \<^verbatim>\<open>LearnedRoutes\<close>; both may be \<^verbatim>\<open>nil\<close>.\<close>

record 'y world =
  wd_manager :: "Manager option"
  wd_learned :: "'y Store option"

datatype session_error =
    ReadError io_error | WriteError io_error | BadSocksVersion u8 | NoAuthNotOffered
  | UnsupportedCommand u8 | BadReservedByte u8 | IPv6NotSupported | UnsupportedAddrType u8
  | ForbiddenTarget | UnknownUpstreamName string | CircuitOpen string | UpstreamDialError string
  | DirectDialError | FallbackFailed string

definition socksVersion :: u8 where "socksVersion = 5"

section \<open>Authentication and request\<close>

definition AuthRequest :: "conn \<Rightarrow> session_error option \<times> conn" where
  "AuthRequest c =
     (case ReadFull 2 c of
        (Inl e, c1) \<Rightarrow> (Some (ReadError e), c1)
      | (Inr header, c1) \<Rightarrow>
          if header ! 0 \<noteq> socksVersion then (Some (BadSocksVersion (header ! 0)), c1)
          else case ReadFull (unat (header ! 1)) c1 of
            (Inl e, c2) \<Rightarrow> (Some (ReadError e), c2)
          | (Inr methods, c2) \<Rightarrow>
              if 0 \<notin> set methods then (Some NoAuthNotOffered, snd (Write c2 [socksVersion, 0xFF]))
              else case Write c2 [socksVersion, 0] of
                ((_, e), c3) \<Rightarrow> (map_option WriteError e, c3))"

record request =
  rq_host :: string
  rq_port :: u16
  rq_isIP :: bool

definition read_address :: "u8 \<Rightarrow> conn \<Rightarrow> (session_error + (string \<times> bool)) \<times> conn" where
  "read_address atyp c =
     (if atyp = 1 then
        (case ReadFull 4 c of
           (Inl e, c1) \<Rightarrow> (Inl (ReadError e), c1)
         | (Inr ip, c1) \<Rightarrow> (Inr (ip4_string ip, True), c1))
      else if atyp = 3 then
        (case ReadFull 1 c of
           (Inl e, c1) \<Rightarrow> (Inl (ReadError e), c1)
         | (Inr l, c1) \<Rightarrow>
             (case ReadFull (unat (l ! 0)) c1 of
                (Inl e, c2) \<Rightarrow> (Inl (ReadError e), c2)
              | (Inr domain, c2) \<Rightarrow> (Inr (string_of_bytes domain, False), c2)))
      else if atyp = 4 then (Inl IPv6NotSupported, c)
      else (Inl (UnsupportedAddrType atyp), c))"

definition read_request :: "conn \<Rightarrow> (session_error + request) \<times> conn" where
  "read_request c =
     (case ReadFull 4 c of
        (Inl e, c1) \<Rightarrow> (Inl (ReadError e), c1)
      | (Inr r, c1) \<Rightarrow>
          if r ! 0 \<noteq> socksVersion then (Inl (BadSocksVersion (r ! 0)), c1)
          else if r ! 1 \<noteq> 1 then (Inl (UnsupportedCommand (r ! 1)), c1)
          else if r ! 2 \<noteq> 0 then (Inl (BadReservedByte (r ! 2)), c1)
          else case read_address (r ! 3) c1 of
            (Inl e, c2) \<Rightarrow> (Inl e, c2)
          | (Inr (host, isIP), c2) \<Rightarrow>
              (case ReadFull 2 c2 of
                 (Inl e, c3) \<Rightarrow> (Inl (ReadError e), c3)
               | (Inr p, c3) \<Rightarrow> (Inr \<lparr>rq_host = host, rq_port = be16 (p ! 0) (p ! 1), rq_isIP = isIP\<rparr>, c3)))"

section \<open>Dialing\<close>

fun Itoa :: "nat \<Rightarrow> string" where
  "Itoa n = (if n < 10 then [digit_char n] else Itoa (n div 10) @ [digit_char (n mod 10)])"

declare Itoa.simps [simp del]

definition JoinHostPort :: "string \<Rightarrow> string \<Rightarrow> string" where
  "JoinHostPort host port =
     (if CHR '':'' \<in> set host then ''['' @ host @ '']:'' @ port else host @ '':'' @ port)"

definition dialUpstream ::
  "env \<Rightarrow> Config \<Rightarrow> string \<Rightarrow> string \<Rightarrow> u16 \<Rightarrow> Manager option \<Rightarrow> (session_error + target) \<times> Manager option" where
  "dialUpstream ev cfg name host port m =
     (case map_of (cf_Upstreams cfg) name of
        None \<Rightarrow> (Inl (UnknownUpstreamName name), m)
      | Some u \<Rightarrow>
          (case Allow_opt (ev_allow ev) name m of
             (False, m1) \<Rightarrow> (Inl (CircuitOpen name), m1)
           | (True, m1) \<Rightarrow>
               (case ev_dial ev u host port of
                  Inl e \<Rightarrow> (Inl (UpstreamDialError e), snd (Record_opt (ev_record ev) name (Some e) m1))
                | Inr t \<Rightarrow> (Inr t, snd (Record_opt (ev_record ev) name None m1)))))"

definition connectAfterDirectFailure ::
  "'y yaml \<Rightarrow> save_fault \<Rightarrow> env \<Rightarrow> Config \<Rightarrow> ResolvedPolicy \<Rightarrow> string \<Rightarrow> u16 \<Rightarrow> 'y world \<Rightarrow>
   (session_error + target) \<times> ResolvedPolicy \<times> 'y world" where
  "connectAfterDirectFailure Y fault ev cfg policy host port w =
     (let up = rp_Fallback policy
      in case dialUpstream ev cfg up host port (wd_manager w) of
           (Inl e, m) \<Rightarrow> (Inl (FallbackFailed up), policy, w\<lparr>wd_manager := m\<rparr>)
         | (Inr t, m) \<Rightarrow>
             (let policy' = policy\<lparr>rp_Name := ''connect-fallback'', rp_Egress := ''socks5'', rp_DPI := ''none'',
                             rp_Upstream := up\<rparr>;
                  learned' = (case wd_learned w of
                     None \<Rightarrow> None
                   | Some st \<Rightarrow>
                       if \<not> fst (CanLearn (cf_Detection cfg) host) then Some st
                       else Some (snd (AddWithLimit Y fault (ev_later ev) st host up
                              ''direct-connect-failure-upstream-success'' (LearnedLimit (cf_Detection cfg)))))
              in (Inr t, policy', w\<lparr>wd_manager := m, wd_learned := learned'\<rparr>)))"

section \<open>The reply and the whole request\<close>

definition failure_reply :: bytes where
  "failure_reply = [socksVersion, 1, 0, 1, 0, 0, 0, 0, 0, 0]"

definition successReply :: "local_addr \<Rightarrow> bytes" where
  "successReply addr =
     (case addr of
        OtherAddr \<Rightarrow> [socksVersion, 0, 0, 1, 0, 0, 0, 0, 0, 0]
      | TCPAddr ip port \<Rightarrow>
          (case To4 ip of
             Some ip4 \<Rightarrow> [socksVersion, 0, 0, 1] @ ip4 @ PutUint16 (of_int port)
           | None \<Rightarrow> [socksVersion, 0, 0, 4] @ (if length ip = 16 then ip else replicate 16 0)
                      @ PutUint16 (of_int port)))"

record 'y session_result =
  sr_error :: "session_error option"
  sr_request :: "request option"
  sr_policy :: "ResolvedPolicy option"
  sr_target :: "target option"
  sr_world :: "'y world"

definition route_for :: "env \<Rightarrow> Config \<Rightarrow> string \<Rightarrow> 'y world \<Rightarrow> ResolvedPolicy" where
  "route_for ev cfg host w =
     (let learnedUpstream = (case wd_learned w of
            None \<Rightarrow> ''''
          | Some st \<Rightarrow> (case LookupActive st host (LearnedTTL (cf_Detection cfg)) (ev_now ev) of
                          None \<Rightarrow> '''' | Some l \<Rightarrow> ld_Upstream l))
      in PolicyFor cfg host learnedUpstream)"

definition fallback_allowed :: "ResolvedPolicy \<Rightarrow> bool" where
  "fallback_allowed p \<longleftrightarrow> rp_Egress p = ''direct'' \<and> rp_Fallback p \<noteq> '''' \<and> rp_Fallback p \<noteq> ''none''"

definition dial_target ::
  "'y yaml \<Rightarrow> save_fault \<Rightarrow> env \<Rightarrow> Config \<Rightarrow> ResolvedPolicy \<Rightarrow> request \<Rightarrow> 'y world \<Rightarrow>
   (session_error + target) \<times> ResolvedPolicy \<times> 'y world" where
  "dial_target Y fault ev cfg policy rq w =
     (if rp_Egress policy = ''socks5''
      then (case dialUpstream ev cfg (rp_Upstream policy) (rq_host rq) (rq_port rq) (wd_manager w) of
              (r, m) \<Rightarrow> (r, policy, w\<lparr>wd_manager := m\<rparr>))
      else case ev_direct ev (JoinHostPort (rq_host rq) (Itoa (unat (rq_port rq)))) of
             Some t \<Rightarrow> (Inr t, policy, w)
           | None \<Rightarrow>
               if fallback_allowed policy
               then connectAfterDirectFailure Y fault ev cfg policy (rq_host rq) (rq_port rq) w
               else (Inl DirectDialError, policy, w))"

definition ProcessRequest ::
  "'y yaml \<Rightarrow> save_fault \<Rightarrow> env \<Rightarrow> Config \<Rightarrow> conn \<Rightarrow> 'y world \<Rightarrow> 'y session_result \<times> conn" where
  "ProcessRequest Y fault ev cfg c w =
     (case read_request c of
        (Inl e, c1) \<Rightarrow> (\<lparr>sr_error = Some e, sr_request = None, sr_policy = None, sr_target = None, sr_world = w\<rparr>, c1)
      | (Inr rq, c1) \<Rightarrow>
          if rq_host rq = ''0.0.0.0''
          then (\<lparr>sr_error = Some ForbiddenTarget, sr_request = Some rq, sr_policy = None, sr_target = None,
                 sr_world = w\<rparr>, snd (Write c1 failure_reply))
          else
            (case dial_target Y fault ev cfg (route_for ev cfg (rq_host rq) w) rq w of
               (Inl e, policy, w1) \<Rightarrow>
                 (\<lparr>sr_error = Some e, sr_request = Some rq, sr_policy = Some policy, sr_target = None,
                   sr_world = w1\<rparr>, snd (Write c1 failure_reply))
             | (Inr t, policy, w1) \<Rightarrow>
                 (case Write c1 (successReply (tg_local t)) of
                    ((_, Some e), c2) \<Rightarrow>
                      (\<lparr>sr_error = Some (WriteError e), sr_request = Some rq, sr_policy = Some policy,
                        sr_target = None, sr_world = w1\<rparr>, c2)
                  | ((_, None), c2) \<Rightarrow>
                      (let w2 = (if rp_Name policy = ''learned-domain''
                                 then w1\<lparr>wd_learned := map_option (\<lambda>st. snd (MarkUsed st (rq_host rq) (ev_later ev))) (wd_learned w1)\<rparr>
                                 else w1)
                       in (\<lparr>sr_error = None, sr_request = Some rq, sr_policy = Some policy, sr_target = Some t,
                            sr_world = w2\<rparr>, c2)))))"

section \<open>The probe for blocked hosts\<close>

text \<open>
  What a run of \<^verbatim>\<open>monitorBlockCandidate\<close> meets: whether the direct target answers before the timer
  or during the probe, the upstream connection of the probe, and whether its deadline can be set. The
  clock is read for \<^verbatim>\<open>Start\<close>, for the time of the next try, for \<^verbatim>\<open>Allow\<close>, for \<^verbatim>\<open>Record\<close> and for learning.
\<close>

record probe_env =
  pe_answered :: bool
  pe_answered_later :: bool
  pe_start :: time
  pe_retry_from :: time
  pe_allow :: time
  pe_record :: time
  pe_end :: time
  pe_dial :: "Upstream \<Rightarrow> string \<Rightarrow> u16 \<Rightarrow> string + conn"
  pe_deadline_ok :: bool

definition probe_dial ::
  "probe_env \<Rightarrow> Config \<Rightarrow> string \<Rightarrow> string \<Rightarrow> u16 \<Rightarrow> Manager option \<Rightarrow> (session_error + conn) \<times> Manager option" where
  "probe_dial pe cfg name host port m =
     (case map_of (cf_Upstreams cfg) name of
        None \<Rightarrow> (Inl (UnknownUpstreamName name), m)
      | Some u \<Rightarrow>
          (case Allow_opt (pe_allow pe) name m of
             (False, m1) \<Rightarrow> (Inl (CircuitOpen name), m1)
           | (True, m1) \<Rightarrow>
               (case pe_dial pe u host port of
                  Inl e \<Rightarrow> (Inl (UpstreamDialError e), snd (Record_opt (pe_record pe) name (Some e) m1))
                | Inr c \<Rightarrow> (Inr c, snd (Record_opt (pe_record pe) name None m1)))))"

text \<open>The probe itself: the upstream accepts the hello and answers with at least one byte.\<close>

definition probe_answers :: "conn \<Rightarrow> bytes \<Rightarrow> bool" where
  "probe_answers c hello =
     (case writeConn c hello of
        (Some _, _) \<Rightarrow> False
      | (None, c1) \<Rightarrow> (case fst (ReadFull 1 c1) of Inl _ \<Rightarrow> False | Inr _ \<Rightarrow> True))"

text \<open>The result is the coordinator, the world, and whether the session is closed for a retry.\<close>

definition monitorBlockCandidate ::
  "'y yaml \<Rightarrow> save_fault \<Rightarrow> probe_env \<Rightarrow> Config \<Rightarrow> ResolvedPolicy \<Rightarrow> request \<Rightarrow> string \<Rightarrow> bytes \<Rightarrow>
   coordinator \<Rightarrow> 'y world \<Rightarrow> ('e, coordinator \<times> 'y world \<times> bool) outcome" where
  "monitorBlockCandidate Y fault pe cfg policy rq host hello p w =
     (if pe_answered pe then Ok (p, w, False)
      else if \<not> fst (CanLearn (cf_Detection cfg) host) then Ok (p, w, False)
      else case Start host (pe_start pe) p of
        ((False, _), p1) \<Rightarrow> Ok (p1, w, False)
      | ((True, _), p1) \<Rightarrow>
          (let retryAfter = pe_retry_from pe + FailureBackoff (cf_Detection cfg);
               up = rp_Fallback policy;
               failed = (\<lambda>w. Ok (Done host retryAfter p1, w, False))
           in if map_of (cf_Upstreams cfg) up = None then failed w
              else case probe_dial pe cfg up (rq_host rq) (rq_port rq) (wd_manager w) of
                (Inl e, m) \<Rightarrow> failed (w\<lparr>wd_manager := m\<rparr>)
              | (Inr c, m) \<Rightarrow>
                  if \<not> pe_deadline_ok pe \<or> \<not> probe_answers c hello then failed (w\<lparr>wd_manager := m\<rparr>)
                  else if pe_answered_later pe then Ok (Done host 0 p1, w\<lparr>wd_manager := m\<rparr>, False)
                  else case wd_learned w of
                    None \<Rightarrow> Panic
                  | Some st \<Rightarrow>
                      (case AddWithLimit Y fault (pe_end pe) st host up ''direct-timeout-upstream-success''
                             (LearnedLimit (cf_Detection cfg)) of
                         (Inl e, st') \<Rightarrow> failed (w\<lparr>wd_manager := m, wd_learned := Some st'\<rparr>)
                       | (Inr _, st') \<Rightarrow>
                           Ok (Done host 0 p1, w\<lparr>wd_manager := m, wd_learned := Some st'\<rparr>, True))))"

end
