(* ===== verification/Monitor.thy ===== *)
theory Monitor
  imports Complex_Main Go_Strings
begin

text \<open>
  The counters behind the dashboard (\<^verbatim>\<open>internal/monitor/monitor.go\<close>): the snapshot, the Prometheus
  collectors that \<^verbatim>\<open>New\<close> registers, and the operations that change both. The Prometheus package is
  third-party code: what the program does with it is the list of its calls, in their order, and
  the theorems are about this list. Counters are 64-bit words; \<^verbatim>\<open>SessionsActive\<close> is an \<^verbatim>\<open>int64\<close>,
  which the number of sessions of one process does not exhaust, and a plain integer here.
\<close>

section \<open>Collectors\<close>

text \<open>A collector has a name, a kind, the names of its labels and, for a histogram, its buckets
  (\<^verbatim>\<open>None\<close> are the default ones of the package). A call names the collector and the label values.\<close>

datatype collector_kind = Counter | Gauge | Histogram "rat list option"

record collector =
  co_Name :: string
  co_Kind :: collector_kind
  co_Labels :: "string list"

datatype metric_op = Inc | Dec | AddFloat int | SetFloat int | Observe duration

type_synonym metric_call = "string \<times> string list \<times> metric_op"

definition own_collectors :: "collector list" where
  "own_collectors =
     [\<lparr>co_Name = ''socks_proxy_sessions_started_total'', co_Kind = Counter, co_Labels = []\<rparr>,
      \<lparr>co_Name = ''socks_proxy_sessions_active'', co_Kind = Gauge, co_Labels = []\<rparr>,
      \<lparr>co_Name = ''socks_proxy_sessions_finished_total'', co_Kind = Counter, co_Labels = [''result'', ''egress'']\<rparr>,
      \<lparr>co_Name = ''socks_proxy_bytes_total'', co_Kind = Counter, co_Labels = [''direction'']\<rparr>,
      \<lparr>co_Name = ''socks_proxy_route_decisions_total'', co_Kind = Counter, co_Labels = [''policy'', ''egress'', ''upstream'']\<rparr>,
      \<lparr>co_Name = ''socks_proxy_fallback_results_total'', co_Kind = Counter, co_Labels = [''outcome'', ''upstream'']\<rparr>,
      \<lparr>co_Name = ''socks_proxy_dial_duration_seconds'', co_Kind = Histogram None, co_Labels = [''egress'', ''upstream'', ''result'']\<rparr>,
      \<lparr>co_Name = ''socks_proxy_session_duration_seconds'',
       co_Kind = Histogram (Some [1 / 10, 1 / 2, 1, 3, 10, 30, 60, 300, 900, 3600]), co_Labels = [''egress'']\<rparr>,
      \<lparr>co_Name = ''socks_proxy_learned_routes'', co_Kind = Gauge, co_Labels = []\<rparr>,
      \<lparr>co_Name = ''socks_proxy_upstream_results_total'', co_Kind = Counter, co_Labels = [''upstream'', ''result'']\<rparr>,
      \<lparr>co_Name = ''socks_proxy_upstream_healthy'', co_Kind = Gauge, co_Labels = [''upstream'']\<rparr>,
      \<lparr>co_Name = ''socks_proxy_upstream_circuit_open'', co_Kind = Gauge, co_Labels = [''upstream'']\<rparr>]"

text \<open>What \<^verbatim>\<open>MustRegister\<close> gets: the collectors of the monitor and the two of the package, for the Go
  runtime and for the process.\<close>

datatype registered = Own collector | GoCollector | ProcessCollector

definition collectors :: "registered list" where
  "collectors = map Own own_collectors @ [GoCollector, ProcessCollector]"

section \<open>State\<close>

type_synonym counts = "(string, u64) gomap"

record Snapshot =
  sn_StartedAt :: time
  sn_UptimeSeconds :: int
  sn_SessionsStarted :: u64
  sn_SessionsActive :: int
  sn_SessionsComplete :: u64
  sn_SessionsFailed :: u64
  sn_BytesSent :: u64
  sn_BytesReceived :: u64
  sn_RouteDecisions :: counts
  sn_FallbackResults :: counts
  sn_UpstreamResults :: counts
  sn_LearnedRoutes :: int

record Monitor =
  mn_started :: time
  mn_snapshot :: Snapshot
  mn_registry :: "registered list"
  mn_calls :: "metric_call list"

definition NewMonitor :: "time \<Rightarrow> Monitor" where
  "NewMonitor now =
     \<lparr>mn_started = now,
      mn_snapshot = \<lparr>sn_StartedAt = now, sn_UptimeSeconds = 0, sn_SessionsStarted = 0, sn_SessionsActive = 0,
        sn_SessionsComplete = 0, sn_SessionsFailed = 0, sn_BytesSent = 0, sn_BytesReceived = 0,
        sn_RouteDecisions = [], sn_FallbackResults = [], sn_UpstreamResults = [], sn_LearnedRoutes = 0\<rparr>,
      mn_registry = collectors, mn_calls = []\<rparr>"

definition call_metrics :: "metric_call list \<Rightarrow> Monitor \<Rightarrow> Monitor" where
  "call_metrics cs m = m\<lparr>mn_calls := mn_calls m @ cs\<rparr>"

section \<open>Operations\<close>

definition SessionStarted :: "Monitor \<Rightarrow> Monitor" where
  "SessionStarted m =
     (let s = mn_snapshot m
      in call_metrics [(''socks_proxy_sessions_started_total'', [], Inc), (''socks_proxy_sessions_active'', [], Inc)]
           (m\<lparr>mn_snapshot := s\<lparr>sn_SessionsStarted := sn_SessionsStarted s + 1, sn_SessionsActive := sn_SessionsActive s + 1\<rparr>\<rparr>))"

definition finish_counts :: "int \<Rightarrow> int \<Rightarrow> string \<Rightarrow> Snapshot \<Rightarrow> Snapshot" where
  "finish_counts tx rx result s0 =
     (let s1 = (if 0 < sn_SessionsActive s0 then s0\<lparr>sn_SessionsActive := sn_SessionsActive s0 - 1\<rparr> else s0);
          s2 = (if result = ''completed'' then s1\<lparr>sn_SessionsComplete := sn_SessionsComplete s1 + 1\<rparr>
                else s1\<lparr>sn_SessionsFailed := sn_SessionsFailed s1 + 1\<rparr>);
          s3 = (if 0 < tx then s2\<lparr>sn_BytesSent := sn_BytesSent s2 + of_int tx\<rparr> else s2)
      in if 0 < rx then s3\<lparr>sn_BytesReceived := sn_BytesReceived s3 + of_int rx\<rparr> else s3)"

definition SessionFinished :: "int \<Rightarrow> int \<Rightarrow> duration \<Rightarrow> string \<Rightarrow> string \<Rightarrow> Monitor \<Rightarrow> Monitor" where
  "SessionFinished tx rx duration egress0 result m =
     (let egress = (if egress0 = '''' then ''unknown'' else egress0)
      in call_metrics
           [(''socks_proxy_sessions_active'', [], Dec),
            (''socks_proxy_sessions_finished_total'', [result, egress], Inc),
            (''socks_proxy_bytes_total'', [''client_to_target''], AddFloat tx),
            (''socks_proxy_bytes_total'', [''target_to_client''], AddFloat rx),
            (''socks_proxy_session_duration_seconds'', [egress], Observe duration)]
           (m\<lparr>mn_snapshot := finish_counts tx rx result (mn_snapshot m)\<rparr>))"

definition bump :: "string \<Rightarrow> counts \<Rightarrow> counts" where
  "bump key m = AList.update key (case map_of m key of None \<Rightarrow> 1 | Some n \<Rightarrow> n + 1) m"

definition RouteDecision :: "string \<Rightarrow> string \<Rightarrow> string \<Rightarrow> Monitor \<Rightarrow> Monitor" where
  "RouteDecision policy egress upstream m =
     (let up = (if upstream = '''' then ''none'' else upstream);
          key = policy @ ''/'' @ egress @ ''/'' @ up;
          s = mn_snapshot m
      in call_metrics [(''socks_proxy_route_decisions_total'', [policy, egress, up], Inc)]
           (m\<lparr>mn_snapshot := s\<lparr>sn_RouteDecisions := bump key (sn_RouteDecisions s)\<rparr>\<rparr>))"

definition FallbackResult :: "string \<Rightarrow> string \<Rightarrow> Monitor \<Rightarrow> Monitor" where
  "FallbackResult result upstream m =
     (let s = mn_snapshot m
      in call_metrics [(''socks_proxy_fallback_results_total'', [result, upstream], Inc)]
           (m\<lparr>mn_snapshot := s\<lparr>sn_FallbackResults := bump (result @ ''/'' @ upstream) (sn_FallbackResults s)\<rparr>\<rparr>))"

definition ObserveDial :: "string \<Rightarrow> string \<Rightarrow> string \<Rightarrow> duration \<Rightarrow> Monitor \<Rightarrow> Monitor" where
  "ObserveDial egress upstream result duration =
     call_metrics [(''socks_proxy_dial_duration_seconds'',
       [egress, if upstream = '''' then ''none'' else upstream, result], Observe duration)]"

definition SetLearnedRoutes :: "int \<Rightarrow> Monitor \<Rightarrow> Monitor" where
  "SetLearnedRoutes count m =
     call_metrics [(''socks_proxy_learned_routes'', [], SetFloat count)]
       (m\<lparr>mn_snapshot := (mn_snapshot m)\<lparr>sn_LearnedRoutes := count\<rparr>\<rparr>)"

definition UpstreamResult :: "string \<Rightarrow> string \<Rightarrow> Monitor \<Rightarrow> Monitor" where
  "UpstreamResult name result m =
     (let s = mn_snapshot m
      in call_metrics [(''socks_proxy_upstream_results_total'', [name, result], Inc)]
           (m\<lparr>mn_snapshot := s\<lparr>sn_UpstreamResults := bump (name @ ''/'' @ result) (sn_UpstreamResults s)\<rparr>\<rparr>))"

definition SetUpstreamState :: "string \<Rightarrow> string \<Rightarrow> string \<Rightarrow> Monitor \<Rightarrow> Monitor" where
  "SetUpstreamState name health circuit =
     call_metrics
       [(''socks_proxy_upstream_healthy'', [name], SetFloat (if health = ''healthy'' then 1 else 0)),
        (''socks_proxy_upstream_circuit_open'', [name], SetFloat (if circuit = ''open'' \<or> circuit = ''half-open'' then 1 else 0))]"

text \<open>\<^verbatim>\<open>Snapshot\<close>: a copy with the uptime; the maps are cloned, which for values is the identity.\<close>

definition SnapshotOf :: "time \<Rightarrow> Monitor \<Rightarrow> Snapshot" where
  "SnapshotOf now m = (mn_snapshot m)\<lparr>sn_UptimeSeconds := time_Sub now (mn_started m) div Second\<rparr>"

section \<open>What the calls add up to\<close>

text \<open>The calls of a collector with the label values \<open>ls\<close>, and the sum of the changes they make.\<close>

fun op_change :: "metric_op \<Rightarrow> int" where
  "op_change Inc = 1"
| "op_change Dec = - 1"
| "op_change (AddFloat n) = n"
| "op_change _ = 0"

definition total :: "string \<Rightarrow> (string list \<Rightarrow> bool) \<Rightarrow> metric_call list \<Rightarrow> int" where
  "total name P cs = sum_list (map (\<lambda>(n, ls, c). if n = name \<and> P ls then op_change c else 0) cs)"

lemma total_simps [simp]:
  "total name P [] = 0"
  "total name P ((n, ls, c) # cs) = (if n = name \<and> P ls then op_change c else 0) + total name P cs"
  "total name P (cs @ ds) = total name P cs + total name P ds"
  by (simp_all add: total_def)

lemma call_metrics_simps [simp]:
  "mn_snapshot (call_metrics cs m) = mn_snapshot m" "mn_started (call_metrics cs m) = mn_started m"
  "mn_registry (call_metrics cs m) = mn_registry m" "mn_calls (call_metrics cs m) = mn_calls m @ cs"
  by (simp_all add: call_metrics_def)

section \<open>Accounting\<close>

text \<open>What the snapshot says of \<open>n\<close> started sessions and the results of the finished ones.\<close>

record finished =
  fi_tx :: int
  fi_rx :: int
  fi_result :: string

definition accounts :: "nat \<Rightarrow> finished list \<Rightarrow> Monitor \<Rightarrow> bool" where
  "accounts n fs m \<longleftrightarrow> length fs \<le> n
     \<and> sn_SessionsStarted (mn_snapshot m) = of_nat n
     \<and> sn_SessionsActive (mn_snapshot m) = int n - int (length fs)
     \<and> total ''socks_proxy_sessions_active'' (\<lambda>_. True) (mn_calls m) = int n - int (length fs)
     \<and> sn_SessionsComplete (mn_snapshot m) = of_nat (length (filter (\<lambda>f. fi_result f = ''completed'') fs))
     \<and> sn_SessionsFailed (mn_snapshot m) = of_nat (length (filter (\<lambda>f. fi_result f \<noteq> ''completed'') fs))
     \<and> sn_BytesSent (mn_snapshot m) = of_int (sum_list (map (\<lambda>f. max 0 (fi_tx f)) fs))
     \<and> sn_BytesReceived (mn_snapshot m) = of_int (sum_list (map (\<lambda>f. max 0 (fi_rx f)) fs))"

lemma accounts_New: "accounts 0 [] (NewMonitor now)"
  by (simp add: accounts_def NewMonitor_def)

lemma accounts_start: "accounts n fs m \<Longrightarrow> accounts (Suc n) fs (SessionStarted m)"
  by (simp add: accounts_def SessionStarted_def Let_def)

lemma accounts_finish:
  "accounts n fs m \<Longrightarrow> length fs < n \<Longrightarrow> accounts n (\<lparr>fi_tx = tx, fi_rx = rx, fi_result = result\<rparr> # fs) (SessionFinished tx rx d egress result m)"
  by (simp add: accounts_def SessionFinished_def finish_counts_def Let_def add.commute)

text \<open>The other operations do not touch the sessions.\<close>

lemma accounts_other:
  assumes "accounts n fs m"
  shows "accounts n fs (RouteDecision p e u m)" "accounts n fs (FallbackResult r u m)" "accounts n fs (SetLearnedRoutes c m)"
    "accounts n fs (ObserveDial e u r d m)" "accounts n fs (UpstreamResult u r m)" "accounts n fs (SetUpstreamState u h ci m)"
  using assms
  by (simp_all add: accounts_def RouteDecision_def FallbackResult_def ObserveDial_def SetLearnedRoutes_def UpstreamResult_def SetUpstreamState_def Let_def)

end
