(* ===== verification/Session_Metrics.thy ===== *)
theory Session_Metrics
  imports Session Monitor
begin

text \<open>
  What a session and a probe report to the monitor (\<^verbatim>\<open>cmd/socks5.go\<close>): the calls of \<^verbatim>\<open>ProxyMetrics\<close> in
  \<^verbatim>\<open>dialUpstreamContext\<close>, \<^verbatim>\<open>connectAfterDirectFailure\<close>, \<^verbatim>\<open>ProcessRequest\<close> and \<^verbatim>\<open>monitorBlockCandidate\<close>, in
  their order. The monitor is written only, so each function here takes the arguments of the
  operation it belongs to and gives the monitor after it. \<^verbatim>\<open>ProxyMetrics\<close> is set by \<^verbatim>\<open>main\<close> before
  the first session.
\<close>

definition set_state :: "string \<Rightarrow> State \<Rightarrow> Monitor \<Rightarrow> Monitor" where
  "set_state name s = SetUpstreamState name (us_Health s) (us_Circuit s)"

section \<open>Dials\<close>

text \<open>\<^verbatim>\<open>dialUpstreamContext\<close> from \<open>t1\<close> to \<open>t2\<close>: \<open>err\<close> is the error of the dial, if it is made.\<close>

definition dial_metrics ::
  "time \<Rightarrow> time \<Rightarrow> Config \<Rightarrow> string \<Rightarrow> (Upstream \<Rightarrow> string option) \<Rightarrow> Manager option \<Rightarrow> Monitor \<Rightarrow> Monitor" where
  "dial_metrics t1 t2 cfg name err m mon =
     (case map_of (cf_Upstreams cfg) name of
        None \<Rightarrow> mon
      | Some u \<Rightarrow>
          (case Allow_opt t1 name m of
             (False, m1) \<Rightarrow>
               (let mon1 = UpstreamResult name ''circuit_rejected'' mon
                in case State_of name m1 of None \<Rightarrow> mon1 | Some s \<Rightarrow> set_state name s mon1)
           | (True, None) \<Rightarrow> mon
           | (True, Some m1) \<Rightarrow>
               set_state name (fst (Record t2 name (err u) m1))
                 (UpstreamResult name (if err u \<noteq> None then ''dial_failure'' else ''dial_success'') mon)))"

definition error_of :: "'e + 'a \<Rightarrow> 'e option" where
  "error_of r = (case r of Inl e \<Rightarrow> Some e | Inr _ \<Rightarrow> None)"

definition session_dial_metrics :: "env \<Rightarrow> Config \<Rightarrow> string \<Rightarrow> string \<Rightarrow> u16 \<Rightarrow> Manager option \<Rightarrow> Monitor \<Rightarrow> Monitor" where
  "session_dial_metrics ev cfg name host port =
     dial_metrics (ev_allow ev) (ev_record ev) cfg name (\<lambda>u. error_of (ev_dial ev u host port))"

definition dial_result :: "'e + 'a \<Rightarrow> string" where
  "dial_result r = (case r of Inl _ \<Rightarrow> ''failure'' | Inr _ \<Rightarrow> ''success'')"

section \<open>The fallback\<close>

text \<open>What learning reports: a skipped host, a failed write, an evicted entry, the size of the table.\<close>

definition learn_metrics ::
  "'y yaml \<Rightarrow> save_fault \<Rightarrow> env \<Rightarrow> Config \<Rightarrow> string \<Rightarrow> string \<Rightarrow> 'y Store option \<Rightarrow> Monitor \<Rightarrow> Monitor" where
  "learn_metrics Y fault ev cfg host up learned mon =
     (case learned of
        None \<Rightarrow> FallbackResult ''connect_failure_success'' up mon
      | Some st \<Rightarrow>
          (case CanLearn (cf_Detection cfg) host of
             (False, reason) \<Rightarrow>
               SetLearnedRoutes (int (length (Entries st)))
                 (FallbackResult ''connect_failure_success'' up (FallbackResult (''learn_skipped_'' @ reason) up mon))
           | (True, _) \<Rightarrow>
               (case AddWithLimit Y fault (ev_later ev) st host up
                       ''direct-connect-failure-upstream-success'' (LearnedLimit (cf_Detection cfg)) of
                  (r, st') \<Rightarrow>
                    SetLearnedRoutes (int (length (Entries st')))
                      (FallbackResult ''connect_failure_success'' up
                        (case r of
                           Inl _ \<Rightarrow> FallbackResult ''learn_write_failed'' up mon
                         | Inr (_, None) \<Rightarrow> mon
                         | Inr (_, Some _) \<Rightarrow> FallbackResult ''learn_evicted'' up mon)))))"

definition fallback_metrics ::
  "'y yaml \<Rightarrow> save_fault \<Rightarrow> env \<Rightarrow> Config \<Rightarrow> ResolvedPolicy \<Rightarrow> string \<Rightarrow> u16 \<Rightarrow> 'y world \<Rightarrow> Monitor \<Rightarrow> Monitor" where
  "fallback_metrics Y fault ev cfg policy host port w mon =
     (let up = rp_Fallback policy;
          r = fst (dialUpstream ev cfg up host port (wd_manager w));
          mon1 = ObserveDial ''socks5'' up (dial_result r) (ev_fallback_took ev)
                   (session_dial_metrics ev cfg up host port (wd_manager w)
                     (FallbackResult ''connect_failure_candidate'' up mon))
      in case r of
           Inl _ \<Rightarrow> FallbackResult ''connect_failure_failed'' up mon1
         | Inr _ \<Rightarrow> learn_metrics Y fault ev cfg host up (wd_learned w) mon1)"

section \<open>The request\<close>

text \<open>The first dial of \<^verbatim>\<open>ProcessRequest\<close>, its duration, and the fallback.\<close>

definition dial_target_metrics ::
  "'y yaml \<Rightarrow> save_fault \<Rightarrow> env \<Rightarrow> Config \<Rightarrow> ResolvedPolicy \<Rightarrow> request \<Rightarrow> 'y world \<Rightarrow> Monitor \<Rightarrow> Monitor" where
  "dial_target_metrics Y fault ev cfg policy rq w mon =
     (let observe = (\<lambda>result. ObserveDial (rp_Egress policy) (rp_Upstream policy) result (ev_took ev))
      in if rp_Egress policy = ''socks5''
         then observe (dial_result (fst (dialUpstream ev cfg (rp_Upstream policy) (rq_host rq) (rq_port rq) (wd_manager w))))
                (session_dial_metrics ev cfg (rp_Upstream policy) (rq_host rq) (rq_port rq) (wd_manager w) mon)
         else case ev_direct ev (JoinHostPort (rq_host rq) (Itoa (unat (rq_port rq)))) of
                Some _ \<Rightarrow> observe ''success'' mon
              | None \<Rightarrow>
                  if fallback_allowed policy
                  then fallback_metrics Y fault ev cfg policy (rq_host rq) (rq_port rq) w (observe ''failure'' mon)
                  else observe ''failure'' mon)"

definition request_metrics ::
  "'y yaml \<Rightarrow> save_fault \<Rightarrow> env \<Rightarrow> Config \<Rightarrow> conn \<Rightarrow> 'y world \<Rightarrow> Monitor \<Rightarrow> Monitor" where
  "request_metrics Y fault ev cfg c w mon =
     (case read_request c of
        (Inl _, _) \<Rightarrow> mon
      | (Inr rq, _) \<Rightarrow>
          if rq_host rq = ''0.0.0.0'' then mon
          else
            (let mon1 = dial_target_metrics Y fault ev cfg (route_for ev cfg (rq_host rq) w) rq w mon;
                 res = fst (ProcessRequest Y fault ev cfg c w)
             in case (sr_error res, sr_policy res) of
                  (None, Some p) \<Rightarrow> RouteDecision (rp_Name p) (rp_Egress p) (rp_Upstream p) mon1
                | _ \<Rightarrow> mon1))"


section \<open>The probe\<close>

text \<open>A probe that panics because there is no table of learned routes reports nothing more.\<close>

definition probe_learn_metrics ::
  "'y yaml \<Rightarrow> save_fault \<Rightarrow> time \<Rightarrow> Config \<Rightarrow> string \<Rightarrow> string \<Rightarrow> 'y Store option \<Rightarrow> Monitor \<Rightarrow> Monitor" where
  "probe_learn_metrics Y fault now cfg host up learned mon =
     (case learned of
        None \<Rightarrow> mon
      | Some st \<Rightarrow>
          (case AddWithLimit Y fault now st host up ''direct-timeout-upstream-success'' (LearnedLimit (cf_Detection cfg)) of
             (Inl _, _) \<Rightarrow> FallbackResult ''learn_write_failed'' up mon
           | (Inr (_, evicted), st') \<Rightarrow>
               SetLearnedRoutes (int (length (Entries st')))
                 (FallbackResult ''success'' up
                   (if evicted = None then mon else FallbackResult ''learn_evicted'' up mon))))"

definition probe_metrics ::
  "'y yaml \<Rightarrow> save_fault \<Rightarrow> probe_env \<Rightarrow> Config \<Rightarrow> ResolvedPolicy \<Rightarrow> request \<Rightarrow> string \<Rightarrow> bytes \<Rightarrow>
   coordinator \<Rightarrow> 'y world \<Rightarrow> Monitor \<Rightarrow> Monitor" where
  "probe_metrics Y fault pe cfg policy rq host hello p w mon =
     (let up = rp_Fallback policy
      in if pe_answered pe then mon
         else case CanLearn (cf_Detection cfg) host of
           (False, reason) \<Rightarrow> FallbackResult (''skipped_'' @ reason) up mon
         | (True, _) \<Rightarrow>
             (case Start host (pe_start pe) p of
                ((False, reason), _) \<Rightarrow> FallbackResult (''skipped_'' @ reason) up mon
              | ((True, _), _) \<Rightarrow>
                  (let mon1 = FallbackResult ''block_candidate'' up mon
                   in if map_of (cf_Upstreams cfg) up = None then FallbackResult ''configuration_error'' up mon1
                      else
                        let mon2 = dial_metrics (pe_allow pe) (pe_record pe) cfg up
                                     (\<lambda>u. error_of (pe_dial pe u (rq_host rq) (rq_port rq))) (wd_manager w) mon1
                        in case fst (probe_dial pe cfg up (rq_host rq) (rq_port rq) (wd_manager w)) of
                             Inl _ \<Rightarrow> FallbackResult ''connect_failed'' up mon2
                           | Inr c \<Rightarrow>
                               if \<not> pe_deadline_ok pe then mon2
                               else case writeConn c hello of
                                 (Some _, _) \<Rightarrow> FallbackResult ''write_failed'' up mon2
                               | (None, c1) \<Rightarrow>
                                   (case fst (ReadFull 1 c1) of
                                      Inl _ \<Rightarrow> FallbackResult ''probe_failed'' up mon2
                                    | Inr _ \<Rightarrow>
                                        if pe_answered_later pe then FallbackResult ''direct_won'' up mon2
                                        else probe_learn_metrics Y fault (pe_end pe) cfg host up (wd_learned w) mon2))))"

section \<open>Sessions are counted elsewhere\<close>

text \<open>The reports in between do not touch the accounts of the sessions.\<close>

lemma dial_accounts:
  "accounts n fs m \<Longrightarrow> accounts n fs (dial_metrics t1 t2 cfg name err mg m)"
  by (auto simp: dial_metrics_def set_state_def Let_def intro!: accounts_other split: option.split prod.split bool.split)

lemma learn_accounts:
  "accounts n fs m \<Longrightarrow> accounts n fs (learn_metrics Y fault ev cfg host up st m)"
  "accounts n fs m \<Longrightarrow> accounts n fs (probe_learn_metrics Y fault t cfg host up st m)"
  by (auto simp: learn_metrics_def probe_learn_metrics_def intro!: accounts_other split: option.split prod.split bool.split sum.split)

lemma fallback_accounts:
  "accounts n fs m \<Longrightarrow> accounts n fs (fallback_metrics Y fault ev cfg policy host port w m)"
  by (auto simp: fallback_metrics_def session_dial_metrics_def Let_def intro!: accounts_other dial_accounts learn_accounts split: sum.split)

lemma request_accounts:
  "accounts n fs m \<Longrightarrow> accounts n fs (request_metrics Y fault ev cfg c w m)"
  by (auto simp: request_metrics_def dial_target_metrics_def session_dial_metrics_def Let_def
      intro!: accounts_other dial_accounts fallback_accounts split: option.split prod.split sum.split)

lemma probe_accounts:
  "accounts n fs m \<Longrightarrow> accounts n fs (probe_metrics Y fault pe cfg policy rq host hello p w m)"
  by (auto simp: probe_metrics_def Let_def intro!: accounts_other dial_accounts learn_accounts
      split: option.split prod.split bool.split sum.split)

end
