(* ===== verification/Tls.thy ===== *)
theory Tls
  imports Prelude
begin

text \<open>
  The TLS ClientHello codec of \<^verbatim>\<open>internal/libtls\<close>: the decoder of \<^verbatim>\<open>tls.go\<close> with its explicit
  offsets, the encoder of \<^verbatim>\<open>encode.go\<close>, and the operations on extensions of
  \<^verbatim>\<open>extensions.go\<close>. Lengths are kept at their width on the wire; an index or a slice out of
  range is \<open>Panic\<close>. A \<^verbatim>\<open>nil\<close> slice and an empty one are both \<open>[]\<close>.
\<close>

section \<open>Data\<close>

record HelloExtension =
  he_Type :: u16
  he_Length :: u16
  he_Data :: bytes

record ClientHello =
  ch_Version :: u16
  ch_Random :: bytes
  ch_SessionIDLen :: u8
  ch_SessionID :: bytes
  ch_CipherSuitesLen :: u16
  ch_CipherSuites :: "u16 list"
  ch_CompressionMethodsLen :: u8
  ch_CompressionMethods :: bytes
  ch_ExtensionsLength :: u16
  ch_Extensions :: "HelloExtension list"

record HandshakeHeader =
  hh_MsgType :: u8
  hh_Length :: u32

record TLSRecord =
  tr_ContentType :: u8
  tr_Version :: u16
  tr_Length :: u16
  tr_Header :: HandshakeHeader
  tr_Message :: ClientHello

datatype tls_error =
    ShortRecord | NotHandshake | IncompleteRecord | ShortHandshake | NotClientHello | IncompleteHandshake
  | IncompleteVersion | IncompleteRandom | IncompleteSessionIDLength | IncompleteSessionID
  | IncompleteSuitesLength | IncompleteSuites | IncompleteCompressionLength | IncompleteCompression
  | IncompleteExtensionsLength | IncompleteExtension
  | BadContentType | SessionIDTooLong | SessionIDMismatch | SuitesTooLong | CompressionTooLong
  | ExtensionTooLong | ExtensionsTooLong

section \<open>Decoding\<close>

text \<open>The pattern of the decoder: check that \<open>n\<close> bytes are left at \<open>off\<close>, then take them.\<close>

definition get :: "bytes \<Rightarrow> nat \<Rightarrow> nat \<Rightarrow> 'e \<Rightarrow> ('e, bytes) outcome" where
  "get d off n e = (if length d < off + n then Err e else slice d off (off + n))"

definition get8 :: "bytes \<Rightarrow> nat \<Rightarrow> 'e \<Rightarrow> ('e, u8) outcome" where
  "get8 d off e = (if length d < off + 1 then Err e else index d off)"

definition get16 :: "bytes \<Rightarrow> nat \<Rightarrow> 'e \<Rightarrow> ('e, u16) outcome" where
  "get16 d off e = (if length d < off + 2 then Err e else Uint16 (drop off d))"

fun decode_suites :: "bytes \<Rightarrow> nat \<Rightarrow> nat \<Rightarrow> (tls_error, u16 list) outcome" where
  "decode_suites d off 0 = Ok []"
| "decode_suites d off (Suc n) =
     obind (get16 d off IncompleteSuites) (\<lambda>c.
     obind (decode_suites d (off + 2) n) (\<lambda>cs. Ok (c # cs)))"

function decode_extensions :: "bytes \<Rightarrow> nat \<Rightarrow> nat \<Rightarrow> (tls_error, HelloExtension list) outcome" where
  "decode_extensions d off ending =
     (if off < ending \<and> off + 4 \<le> length d
      then obind (Uint16 (drop off d)) (\<lambda>t.
           obind (Uint16 (drop (off + 2) d)) (\<lambda>l.
           obind (get d (off + 4) (unat l) IncompleteExtension) (\<lambda>body.
           obind (decode_extensions d (off + 4 + unat l) ending) (\<lambda>es.
           Ok (\<lparr>he_Type = t, he_Length = l, he_Data = body\<rparr> # es)))))
      else Ok [])"
  by pat_completeness auto
termination by (relation "measure (\<lambda>(d, off, ending). length d - off)") auto

declare decode_extensions.simps [simp del]

definition decode_hello :: "bytes \<Rightarrow> (tls_error, ClientHello) outcome" where
  "decode_hello d =
     obind (get16 d 0 IncompleteVersion) (\<lambda>version.
     obind (get d 2 32 IncompleteRandom) (\<lambda>random.
     obind (get8 d 34 IncompleteSessionIDLength) (\<lambda>sidLen.
     obind (if 0 < sidLen then get d 35 (unat sidLen) IncompleteSessionID else Ok []) (\<lambda>sid.
     (let off1 = 35 + unat sidLen in
     obind (get16 d off1 IncompleteSuitesLength) (\<lambda>csLen.
     (let count = unat csLen div 2 in
     obind (decode_suites d (off1 + 2) count) (\<lambda>suites.
     (let off2 = off1 + 2 + 2 * count in
     obind (get8 d off2 IncompleteCompressionLength) (\<lambda>cmLen.
     obind (if 0 < cmLen then get d (off2 + 1) (unat cmLen) IncompleteCompression else Ok []) (\<lambda>cm.
     (let off3 = off2 + 1 + unat cmLen in
     obind (if off3 < length d
            then obind (get16 d off3 IncompleteExtensionsLength) (\<lambda>extLen.
                 obind (decode_extensions d (off3 + 2) (off3 + 2 + unat extLen)) (\<lambda>es. Ok (extLen, es)))
            else Ok (0, [])) (\<lambda>(extLen, es).
     Ok \<lparr>ch_Version = version, ch_Random = random, ch_SessionIDLen = sidLen, ch_SessionID = sid,
         ch_CipherSuitesLen = csLen, ch_CipherSuites = suites,
         ch_CompressionMethodsLen = cmLen, ch_CompressionMethods = cm,
         ch_ExtensionsLength = extLen, ch_Extensions = es\<rparr>)))))))))))))"

definition be24 :: "u8 \<Rightarrow> u8 \<Rightarrow> u8 \<Rightarrow> u32" where
  "be24 a b c = push_bit 16 (ucast a) OR push_bit 8 (ucast b) OR ucast c"

definition DecodeTLS :: "bytes \<Rightarrow> (tls_error, TLSRecord) outcome" where
  "DecodeTLS data =
     (if length data < 5 then Err ShortRecord else
     obind (index data 0) (\<lambda>ct.
     obind (slice data 1 3) (\<lambda>vb. obind (Uint16 vb) (\<lambda>version.
     obind (slice data 3 5) (\<lambda>lb. obind (Uint16 lb) (\<lambda>len.
     if ct \<noteq> 0x16 then Err NotHandshake
     else if length data < 5 + unat len then Err IncompleteRecord
     else
       (let hs = drop 5 data in
       if length hs < 4 then Err ShortHandshake else
       obind (index hs 0) (\<lambda>mt. obind (index hs 1) (\<lambda>l1. obind (index hs 2) (\<lambda>l2. obind (index hs 3) (\<lambda>l3.
       if mt \<noteq> 1 then Err NotClientHello
       else if length hs < 4 + unat (be24 l1 l2 l3) then Err IncompleteHandshake
       else obind (decode_hello (drop 4 hs)) (\<lambda>hello.
         Ok \<lparr>tr_ContentType = ct, tr_Version = version, tr_Length = len,
             tr_Header = \<lparr>hh_MsgType = mt, hh_Length = be24 l1 l2 l3\<rparr>, tr_Message = hello\<rparr>))))))))))))"

section \<open>Encoding\<close>

definition encodeTLSRecordHeader :: "TLSRecord \<Rightarrow> bytes" where
  "encodeTLSRecordHeader t = tr_ContentType t # PutUint16 (tr_Version t) @ PutUint16 (tr_Length t)"

definition encodeHandshakeHeader :: "TLSRecord \<Rightarrow> u32 \<Rightarrow> bytes" where
  "encodeHandshakeHeader t len =
     [hh_MsgType (tr_Header t), ucast (drop_bit 16 len AND 0xFF), ucast (drop_bit 8 len AND 0xFF), ucast (len AND 0xFF)]"

fun encodeExtensions :: "HelloExtension list \<Rightarrow> (tls_error, bytes) outcome" where
  "encodeExtensions [] = Ok []"
| "encodeExtensions (e # es) =
     (if 65535 < length (he_Data e) then Err ExtensionTooLong
      else obind (encodeExtensions es) (\<lambda>rest.
        Ok (PutUint16 (he_Type e) @ PutUint16 (of_nat (length (he_Data e))) @ he_Data e @ rest)))"

definition encodeClientHello :: "ClientHello \<Rightarrow> (tls_error, bytes) outcome" where
  "encodeClientHello m =
     (if 32 < ch_SessionIDLen m then Err SessionIDTooLong
      else if 0 < ch_SessionIDLen m \<and> length (ch_SessionID m) \<noteq> unat (ch_SessionIDLen m)
        then Err SessionIDMismatch
      else if 65535 < length (ch_CipherSuites m) * 2 then Err SuitesTooLong
      else if 255 < length (ch_CompressionMethods m) then Err CompressionTooLong
      else obind (encodeExtensions (ch_Extensions m)) (\<lambda>ext.
        if 65535 < length ext then Err ExtensionsTooLong
        else Ok (PutUint16 (ch_Version m) @ ch_Random m
          @ [ch_SessionIDLen m] @ (if 0 < ch_SessionIDLen m then ch_SessionID m else [])
          @ PutUint16 (of_nat (length (ch_CipherSuites m) * 2)) @ concat (map PutUint16 (ch_CipherSuites m))
          @ [of_nat (length (ch_CompressionMethods m))] @ ch_CompressionMethods m
          @ (if 0 < length ext then PutUint16 (of_nat (length ext)) @ ext else [0, 0]))))"

definition EncodeTLS :: "TLSRecord \<Rightarrow> (tls_error, bytes \<times> TLSRecord) outcome" where
  "EncodeTLS t =
     (if tr_ContentType t \<noteq> 0x16 then Err BadContentType
      else obind (encodeClientHello (tr_Message t)) (\<lambda>hello.
        let handshake = encodeHandshakeHeader t (of_nat (length hello)) @ hello;
            t' = t\<lparr>tr_Length := of_nat (length handshake)\<rparr>
        in Ok (encodeTLSRecordHeader t' @ handshake, t')))"

definition calculateExtensionsLength :: "ClientHello \<Rightarrow> nat" where
  "calculateExtensionsLength m = sum_list (map (\<lambda>e. 4 + length (he_Data e)) (ch_Extensions m))"

definition UpdateLengths :: "TLSRecord \<Rightarrow> TLSRecord" where
  "UpdateLengths t =
     (let m = tr_Message t
      in t\<lparr>tr_Message := m\<lparr>
           ch_SessionIDLen := of_nat (length (ch_SessionID m)),
           ch_CipherSuitesLen := of_nat (length (ch_CipherSuites m) * 2),
           ch_CompressionMethodsLen := of_nat (length (ch_CompressionMethods m)),
           ch_ExtensionsLength := of_nat (calculateExtensionsLength m)\<rparr>\<rparr>)"

definition NewTLSRecord :: "ClientHello \<Rightarrow> TLSRecord" where
  "NewTLSRecord h =
     \<lparr>tr_ContentType = 0x16, tr_Version = 0x0303, tr_Length = 0,
      tr_Header = \<lparr>hh_MsgType = 1, hh_Length = 0\<rparr>, tr_Message = h\<rparr>"

section \<open>Extensions\<close>

datatype sni_error = TOO_SHORT | INVALID_LIST_LEN | INVALID_NAME_LEN

definition byte_pair :: "bytes \<Rightarrow> nat \<Rightarrow> nat" where
  "byte_pair d i = unat (d ! i) * 256 + unat (d ! (i + 1))"

definition decodeSNI :: "bytes \<Rightarrow> (sni_error, string \<times> u8) outcome" where
  "decodeSNI d =
     (if length d < 6 then Err TOO_SHORT
      else if length d \<noteq> byte_pair d 0 + 2 then Err INVALID_LIST_LEN
      else if length d \<noteq> byte_pair d 3 + 5 then Err INVALID_NAME_LEN
      else Ok (string_of_bytes (drop 5 d), d ! 2))"

definition encodeSNI :: "string \<Rightarrow> bytes" where
  "encodeSNI domain =
     (let nameLen = length domain; listLen = 1 + 2 + nameLen
      in PutUint16 (of_nat listLen) @ [0] @ PutUint16 (of_nat nameLen) @ bytes_of_string domain)"

fun find_ext :: "u16 \<Rightarrow> nat \<Rightarrow> HelloExtension list \<Rightarrow> (nat \<times> bytes) option" where
  "find_ext t i [] = None"
| "find_ext t i (e # es) = (if he_Type e = t then Some (i, he_Data e) else find_ext t (i + 1) es)"

definition FindExtension :: "ClientHello \<Rightarrow> u16 \<Rightarrow> (nat \<times> bytes) option" where
  "FindExtension h t = find_ext t 0 (ch_Extensions h)"

text \<open>The bound of the slice in \<^verbatim>\<open>FindSNI\<close>, \<^verbatim>\<open>2+length\<close>, is computed in 16 bits.\<close>

definition FindSNI :: "ClientHello \<Rightarrow> ('e, bool \<times> string) outcome" where
  "FindSNI h =
     (case FindExtension h 0 of
        None \<Rightarrow> Ok (False, '''')
      | Some (_, d) \<Rightarrow>
          if length d < 2 then Ok (False, '''')
          else obind (slice d 0 2) (\<lambda>lb. obind (Uint16 lb) (\<lambda>len.
            if len = 0 then Ok (False, '''')
            else if length d < 2 + unat len then Ok (False, '''')
            else obind (slice d 5 (unat (2 + len))) (\<lambda>name. Ok (True, string_of_bytes name)))))"

definition ReplaceSNI :: "ClientHello \<Rightarrow> string \<Rightarrow> (bool \<times> nat) \<times> ClientHello" where
  "ReplaceSNI h hostname =
     (let body = encodeSNI hostname;
          ext = \<lparr>he_Type = 0, he_Length = of_nat (length body), he_Data = body\<rparr>
      in case FindExtension h 0 of
           Some (i, _) \<Rightarrow> ((True, i), h\<lparr>ch_Extensions := (ch_Extensions h)[i := ext]\<rparr>)
         | None \<Rightarrow> ((False, 0), h\<lparr>ch_Extensions := ch_Extensions h @ [ext]\<rparr>))"

definition drop_ext :: "int \<Rightarrow> 'a list \<Rightarrow> bool \<times> 'a list" where
  "drop_ext i xs =
     (if i < 0 \<or> int (length xs) \<le> i then (False, xs)
      else if i = 0 then (True, tl xs)
      else if i = int (length xs) - 1 then (True, butlast xs)
      else (True, take (nat i - 1) xs @ drop (nat i + 1) xs))"

definition RemoveExtension :: "ClientHello \<Rightarrow> int \<Rightarrow> bool \<times> ClientHello" where
  "RemoveExtension h i =
     (case drop_ext i (ch_Extensions h) of (ok, es) \<Rightarrow> (ok, h\<lparr>ch_Extensions := es\<rparr>))"

definition RemoveExtensionByType :: "ClientHello \<Rightarrow> u16 \<Rightarrow> bool \<times> ClientHello" where
  "RemoveExtensionByType h t =
     (case FindExtension h t of None \<Rightarrow> (False, h) | Some (i, _) \<Rightarrow> RemoveExtension h (int i))"

definition RemoveSNI :: "ClientHello \<Rightarrow> bool \<times> ClientHello" where
  "RemoveSNI h = RemoveExtensionByType h 0"

end
