(* ===== verification/Forward.thy ===== *)
theory Forward
  imports Net_Conn Tls Config
begin

text \<open>
  The forward direction of a session (\<^verbatim>\<open>StreamForward\<close>, \<^verbatim>\<open>injectFakePacket\<close> and the \<^verbatim>\<open>Fragmenter\<close>
  of \<^verbatim>\<open>cmd/socks5.go\<close>): the inspection of the first TLS record of the client, the fake packet,
  and the two ways to write to the target. The reads of the client are a list of results; the
  packets handed to the capture thread and the probes started are part of the state.
\<close>

section \<open>The fragmenter\<close>

record Fragmenter =
  fr_enabled :: bool
  fr_sentBytes :: nat
  fr_totalLimit :: nat

definition fragmentSize :: nat where "fragmentSize = 200"
definition initialFragSize :: nat where "initialFragSize = 200"

definition NewFragmenter :: "nat \<Rightarrow> Fragmenter" where
  "NewFragmenter totalLimit = \<lparr>fr_enabled = True, fr_sentBytes = 0, fr_totalLimit = totalLimit\<rparr>"

definition ShouldFragment :: "Fragmenter \<Rightarrow> bool" where
  "ShouldFragment f \<longleftrightarrow> fr_enabled f \<and> fr_sentBytes f < fr_totalLimit f"

definition chunk_size :: "Fragmenter \<Rightarrow> nat \<Rightarrow> nat" where
  "chunk_size f left = min (min fragmentSize (fr_totalLimit f - fr_sentBytes f)) left"

lemma Write_progress:
  "Write c d = ((n, e), c') \<Longrightarrow> d \<noteq> [] \<Longrightarrow>
   length (cn_script c') < length (cn_script c) \<or> (length (cn_script c') = length (cn_script c) \<and> n = length d)"
  by (auto simp: Write_def Let_def split: list.splits prod.splits)

text \<open>The loop of \<^verbatim>\<open>WriteFragmented\<close> on the part of the data that is not written yet; it ends
  because a script of write results ends, after which every write makes progress.\<close>

function frag_loop :: "Fragmenter \<Rightarrow> conn \<Rightarrow> bytes \<Rightarrow> io_error option \<times> Fragmenter \<times> conn \<times> bytes" where
  "frag_loop f c data =
     (if data = [] \<or> \<not> ShouldFragment f \<or> chunk_size f (length data) = 0 then (None, f, c, data)
      else case Write c (take (chunk_size f (length data)) data) of
        ((n, Some e), c') \<Rightarrow> (Some e, f, c', data)
      | ((n, None), c') \<Rightarrow>
          frag_loop (f\<lparr>fr_sentBytes := fr_sentBytes f + n\<rparr>) c' (drop n data))"
  by pat_completeness auto

termination
proof (relation "measures [\<lambda>(f, c, data). length (cn_script c), \<lambda>(f, c, data). length data]")
  fix f c data x c' n e
  assume a: "\<not> (data = [] \<or> \<not> ShouldFragment f \<or> chunk_size f (length data) = 0)"
    and w: "(x, c') = Write c (take (chunk_size f (length data)) data)" "(n, e) = x" "e = None"
  then have W: "Write c (take (chunk_size f (length data)) data) = ((n, None), c')" by simp
  then show "((f\<lparr>fr_sentBytes := fr_sentBytes f + n\<rparr>, c', drop n data), f, c, data) \<in>
      measures [\<lambda>(f, c, data). length (cn_script c), \<lambda>(f, c, data). length data]"
    using Write_progress [OF W] a by (auto simp: chunk_size_def)
qed simp

declare frag_loop.simps [simp del]

definition WriteFragmented :: "Fragmenter \<Rightarrow> conn \<Rightarrow> bytes \<Rightarrow> io_error option \<times> Fragmenter \<times> conn" where
  "WriteFragmented f c data =
     (case frag_loop f c data of
        (Some e, f1, c1, _) \<Rightarrow> (Some e, f1, c1)
      | (None, f1, c1, rest) \<Rightarrow>
          if rest = [] then (None, f1, c1)
          else case Write c1 rest of ((_, e), c2) \<Rightarrow> (e, f1\<lparr>fr_enabled := False\<rparr>, c2))"

section \<open>The fake packet\<close>

text \<open>What the forward direction reads of its session: \<open>'si\<close> is what the capture knows of the TCP
  session (\<^verbatim>\<open>CaptureSessionInfo\<close>), \<open>cx_capture\<close> says whether there is a capture thread.\<close>

record 'si fctx =
  cx_policy :: ResolvedPolicy
  cx_host :: string
  cx_isIP :: bool
  cx_port :: u16
  cx_capture :: bool
  cx_session :: "'si option"
  cx_cfgTtl :: int
  cx_paramTTL :: int

definition packet_ttl :: "'si fctx \<Rightarrow> u8" where
  "packet_ttl cx =
     of_int (policy_TTL (cx_policy cx) (if cx_cfgTtl cx = 0 then cx_paramTTL cx else cx_cfgTtl cx))"

text \<open>The packet of \<^verbatim>\<open>injectFakePacket\<close>: the session, the time to live and the payload.\<close>

definition injectFakePacket :: "'si fctx \<Rightarrow> TLSRecord \<Rightarrow> (tls_error, ('si \<times> u8 \<times> bytes) option) outcome" where
  "injectFakePacket cx r =
     (if \<not> cx_capture cx \<or> cx_port cx \<noteq> 443 then Ok None
      else obind (FindSNI (tr_Message r)) (\<lambda>(ok, hostname).
        if \<not> ok \<or> hostname = '''' then Ok None
        else let decoyName = butlast hostname @ ''x'';
                 r' = r\<lparr>tr_Message := snd (ReplaceSNI (tr_Message r) decoyName)\<rparr>
             in case EncodeTLS r' of
                  Panic \<Rightarrow> Panic
                | Err e \<Rightarrow> Ok None
                | Ok (data, _) \<Rightarrow>
                    (case cx_session cx of
                       None \<Rightarrow> Ok None
                     | Some si \<Rightarrow> Ok (Some (si, packet_ttl cx, data)))))"

section \<open>The loop\<close>

record 'si fwd =
  fw_buffer :: bytes
  fw_done :: bool
  fw_probed :: bool
  fw_frag :: Fragmenter
  fw_target :: conn
  fw_tx :: nat
  fw_packets :: "('si \<times> u8 \<times> bytes) list"
  fw_probes :: "(string \<times> bytes) list"

definition tls_buffer_cap :: nat where "tls_buffer_cap = 65536"

definition start_fwd :: "conn \<Rightarrow> 'si fwd" where
  "start_fwd target =
     \<lparr>fw_buffer = [], fw_done = False, fw_probed = False, fw_frag = NewFragmenter initialFragSize,
      fw_target = target, fw_tx = 0, fw_packets = [], fw_probes = []\<rparr>"

text \<open>The record at the start of the buffer, once it is complete.\<close>

definition complete_record :: "bytes \<Rightarrow> bytes option" where
  "complete_record buf =
     (let len = 5 + unat (be16 (buf ! 3) (buf ! 4))
      in if len \<le> length buf then Some (take len buf) else None)"

definition inspect_record ::
  "'si fctx \<Rightarrow> bytes \<Rightarrow> 'si fwd \<Rightarrow> (tls_error, (string \<times> bytes) option \<times> 'si fwd) outcome" where
  "inspect_record cx recordData st =
     (case DecodeTLS recordData of
        Panic \<Rightarrow> Panic
      | Err e \<Rightarrow> Ok (None, st\<lparr>fw_done := True\<rparr>)
      | Ok r \<Rightarrow>
          obind (FindSNI (tr_Message r)) (\<lambda>(_, sni).
          obind (if rp_DPI (cx_policy cx) = ''fake-sni'' then injectFakePacket cx r else Ok None) (\<lambda>packet.
          let host = (if cx_isIP cx \<and> sni \<noteq> '''' then sni else cx_host cx);
              p = cx_policy cx;
              candidate = (if rp_Egress p = ''direct'' \<and> rp_Fallback p \<noteq> '''' \<and> rp_Fallback p \<noteq> ''none''
                           then Some (host, recordData) else None)
          in Ok (candidate, st\<lparr>fw_done := True,
                  fw_packets := fw_packets st @ (case packet of None \<Rightarrow> [] | Some pk \<Rightarrow> [pk])\<rparr>))))"

definition inspect :: "'si fctx \<Rightarrow> bytes \<Rightarrow> 'si fwd \<Rightarrow> (tls_error, (string \<times> bytes) option \<times> 'si fwd) outcome" where
  "inspect cx data st =
     (if fw_done st then Ok (None, st)
      else if tls_buffer_cap < length (fw_buffer st) + length data then Ok (None, st\<lparr>fw_done := True\<rparr>)
      else
        let buf = fw_buffer st @ data; st1 = st\<lparr>fw_buffer := buf\<rparr>
        in if length buf < 5 then Ok (None, st1)
           else if buf ! 0 \<noteq> 0x16 then Ok (None, st1\<lparr>fw_done := True\<rparr>)
           else case complete_record buf of
             None \<Rightarrow> Ok (None, st1)
           | Some recordData \<Rightarrow> inspect_record cx recordData st1)"

definition send :: "'si fctx \<Rightarrow> Fragmenter \<times> conn \<Rightarrow> bytes \<Rightarrow> io_error option \<times> (Fragmenter \<times> conn)" where
  "send cx fc data =
     (case fc of (f, c) \<Rightarrow>
        if rp_DPI (cx_policy cx) = ''fragment'' \<and> ShouldFragment f then WriteFragmented f c data
        else (case writeConn c data of (e, c') \<Rightarrow> (e, f, c')))"

text \<open>A candidate starts the one probe of the session.\<close>

definition note_candidate :: "(string \<times> bytes) option \<Rightarrow> 'si fwd \<Rightarrow> 'si fwd" where
  "note_candidate cand st =
     (case cand of
        None \<Rightarrow> st
      | Some (host, hello) \<Rightarrow>
          if hello \<noteq> [] \<and> host \<noteq> '''' \<and> \<not> fw_probed st
          then st\<lparr>fw_probed := True, fw_probes := fw_probes st @ [(host, hello)]\<rparr> else st)"

definition forward_chunk ::
  "'si fctx \<Rightarrow> bytes \<Rightarrow> 'si fwd \<Rightarrow> (tls_error, io_error option \<times> 'si fwd) outcome" where
  "forward_chunk cx data st =
     obind (inspect cx data st) (\<lambda>(candidate, st1).
     case send cx (fw_frag st1, fw_target st1) data of
       (err, f, c) \<Rightarrow>
         (let st2 = st1\<lparr>fw_frag := f, fw_target := c, fw_tx := fw_tx st1 + length data\<rparr>
          in Ok (err, if err \<noteq> None then st2 else note_candidate candidate st2)))"

text \<open>The reads of the client: the bytes of each and the error it returns, if any. The result says
  whether a write failed.\<close>

fun StreamForward ::
  "'si fctx \<Rightarrow> (bytes \<times> io_error option) list \<Rightarrow> 'si fwd \<Rightarrow> (tls_error, bool \<times> 'si fwd) outcome" where
  "StreamForward cx [] st = Ok (False, st)"
| "StreamForward cx ((data, err) # reads) st =
     obind (if data = [] then Ok (None, st) else forward_chunk cx data st) (\<lambda>(werr, st1).
       if werr \<noteq> None then Ok (True, st1)
       else if err \<noteq> None then Ok (False, st1)
       else StreamForward cx reads st1)"

end
