(* ===== verification/Accept.thy ===== *)
theory Accept
  imports Session_Metrics Forward
begin

text \<open>
  A whole session (\<^verbatim>\<open>AcceptConnection\<close> and \<^verbatim>\<open>StreamReverse\<close> of \<^verbatim>\<open>cmd/socks5.go\<close>): authentication, the
  request, both directions of the stream and the accounting. The two directions run
  concurrently but write to different connections, so what the forward goroutine did until the
  reverse one ended is a list of reads of its own.
\<close>

section \<open>The reverse direction\<close>

record rev =
  rv_client :: conn
  rv_rx :: nat
  rv_firstResponse :: bool

fun StreamReverse :: "(bytes \<times> io_error option) list \<Rightarrow> rev \<Rightarrow> rev" where
  "StreamReverse [] st = st"
| "StreamReverse ((data, err) # reads) st =
     (let st1 = st\<lparr>rv_rx := rv_rx st + length data, rv_firstResponse := rv_firstResponse st \<or> data \<noteq> []\<rparr>
      in if err \<noteq> None then st1
         else case writeConn (rv_client st1) data of
           (Some e, c) \<Rightarrow> st1\<lparr>rv_client := c\<rparr>
         | (None, c) \<Rightarrow> StreamReverse reads (st1\<lparr>rv_client := c\<rparr>))"

section \<open>The session\<close>

text \<open>What a session meets: the network for the request, the connection behind a dialed target,
  the reads of both directions, what the capture knows of the connection, and the settings of
  the fake packets.\<close>

record 'si accept_env =
  ae_fault :: save_fault
  ae_env :: env
  ae_conn :: "target \<Rightarrow> conn"
  ae_forward :: "(bytes \<times> io_error option) list"
  ae_reverse :: "(bytes \<times> io_error option) list"
  ae_capture :: bool
  ae_session :: "'si option"
  ae_paramTTL :: int
  ae_duration :: duration

record ('y, 'si) accept_result =
  ar_client :: conn
  ar_target :: "(target \<times> conn) option"
  ar_tx :: nat
  ar_rx :: nat
  ar_world :: "'y world"
  ar_monitor :: Monitor
  ar_packets :: "('si \<times> u8 \<times> bytes) list"
  ar_probes :: "(string \<times> bytes) list"

definition forward_context :: "'si accept_env \<Rightarrow> Config \<Rightarrow> request \<Rightarrow> ResolvedPolicy \<Rightarrow> 'si fctx" where
  "forward_context ae cfg rq policy =
     \<lparr>cx_policy = policy, cx_host = rq_host rq, cx_isIP = rq_isIP rq, cx_port = rq_port rq,
      cx_capture = ae_capture ae, cx_session = ae_session ae, cx_cfgTtl = fs_Ttl (cf_FakeSni cfg),
      cx_paramTTL = ae_paramTTL ae\<rparr>"

text \<open>The end of a session that did not get a target.\<close>

definition session_failed :: "conn \<Rightarrow> 'y world \<Rightarrow> duration \<Rightarrow> string \<Rightarrow> Monitor \<Rightarrow> ('y, 'si) accept_result" where
  "session_failed c w duration egress m =
     \<lparr>ar_client = c, ar_target = None, ar_tx = 0, ar_rx = 0, ar_world = w,
      ar_monitor = SessionFinished 0 0 duration egress ''failed'' m, ar_packets = [], ar_probes = []\<rparr>"

definition AcceptConnection ::
  "'y yaml \<Rightarrow> 'si accept_env \<Rightarrow> Config \<Rightarrow> conn \<Rightarrow> 'y world \<Rightarrow> Monitor \<Rightarrow> (tls_error, ('y, 'si) accept_result) outcome" where
  "AcceptConnection Y ae cfg c w mon =
     (let m0 = SessionStarted mon
      in case AuthRequest c of
           (Some e, c1) \<Rightarrow> Ok (session_failed c1 w (ae_duration ae) '''' m0)
         | (None, c1) \<Rightarrow>
             (case ProcessRequest Y (ae_fault ae) (ae_env ae) cfg c1 w of
                (res, c2) \<Rightarrow>
                  (let m1 = request_metrics Y (ae_fault ae) (ae_env ae) cfg c1 w m0
                   in case (sr_error res, sr_request res, sr_policy res, sr_target res) of
                     (None, Some rq, Some policy, Some t) \<Rightarrow>
                       obind (StreamForward (forward_context ae cfg rq policy) (ae_forward ae) (start_fwd (ae_conn ae t)))
                             (\<lambda>(_, f).
                               let r = StreamReverse (ae_reverse ae) \<lparr>rv_client = c2, rv_rx = 0, rv_firstResponse = False\<rparr>
                               in Ok \<lparr>ar_client = rv_client r, ar_target = Some (t, fw_target f),
                                      ar_tx = fw_tx f, ar_rx = rv_rx r, ar_world = sr_world res,
                                      ar_monitor = SessionFinished (int (fw_tx f)) (int (rv_rx r)) (ae_duration ae)
                                        (rp_Egress policy) ''completed'' m1,
                                      ar_packets = fw_packets f, ar_probes = fw_probes f\<rparr>)
                   | _ \<Rightarrow> Ok (session_failed c2 (sr_world res) (ae_duration ae)
                            (case sr_policy res of None \<Rightarrow> '''' | Some policy \<Rightarrow> rp_Egress policy) m1))))"

end
