(* ===== verification/Learned_Lemmas.thy ===== *)
theory Learned_Lemmas
  imports Learned
begin

text \<open>
  The lemmas of the learned routing table: the recency order and the choice of the entry to
  evict (stated once for any strict order in the locale \<open>recency\<close>), the outcome of a save,
  the invariant \<open>store_ok\<close> with one preservation lemma per operation, the undo of a failed
  operation, and the pruning loop.
\<close>

section \<open>Choosing the least entry of a strict order\<close>

locale recency =
  fixes less :: "'a \<Rightarrow> 'a \<Rightarrow> bool" and key :: "'a \<Rightarrow> 'k"
  assumes irrefl: "\<not> less a a"
    and trans: "less a b \<Longrightarrow> less b c \<Longrightarrow> less a c"
    and total: "key a \<noteq> key b \<Longrightarrow> less a b \<or> less b a"
begin

definition keep_less :: "'a option \<Rightarrow> 'a \<Rightarrow> 'a option" where
  "keep_less candidate entry =
     (case candidate of None \<Rightarrow> Some entry
      | Some c \<Rightarrow> if less entry c then Some entry else candidate)"

lemma keep_less_simps [simp]:
  "keep_less None e = Some e"
  "keep_less (Some c) e = (if less e c then Some e else Some c)"
  by (simp_all add: keep_less_def)

lemma asym: "less a b \<Longrightarrow> \<not> less b a"
  using trans irrefl by blast

lemma pick_None: "foldl keep_less None xs = None \<longleftrightarrow> xs = []"
  by (cases xs rule: rev_cases) (auto simp: keep_less_def split: option.splits)

lemma pick_member: "foldl keep_less None xs = Some m \<Longrightarrow> m \<in> set xs"
  by (induction xs arbitrary: m rule: rev_induct)
    (auto simp: keep_less_def split: option.splits if_splits)

lemma pick_least:
  "inj_on key (set xs) \<Longrightarrow> foldl keep_less None xs = Some m \<Longrightarrow> e \<in> set xs \<Longrightarrow> e \<noteq> m \<Longrightarrow> less m e"
proof (induction xs arbitrary: m e rule: rev_induct)
  case (snoc x xs)
  show ?case
  proof (cases "foldl keep_less None xs")
    case None
    with snoc.prems show ?thesis by (auto simp: pick_None)
  next
    case (Some c)
    have inj: "inj_on key (set xs)" using snoc.prems(1) by simp
    have c: "c \<in> set xs" using Some by (rule pick_member)
    have least: "less c y" if "y \<in> set xs" "y \<noteq> c" for y
      using snoc.IH [OF inj Some that] .
    show ?thesis
    proof (cases "less x c")
      case True
      with Some snoc.prems(2) have "m = x" by simp
      with snoc.prems(3,4) have "e \<in> set xs" by auto
      with least True \<open>m = x\<close> show ?thesis by (cases "e = c") (auto intro: trans)
    next
      case False
      with Some snoc.prems(2) have m: "m = c" by simp
      show ?thesis
      proof (cases "e \<in> set xs")
        case True
        with least m snoc.prems(4) show ?thesis by blast
      next
        case e: False
        with snoc.prems(3) have "e = x" by simp
        with e c snoc.prems(1) have "key x \<noteq> key c" by (auto simp: inj_on_def)
        with False total m \<open>e = x\<close> show ?thesis by blast
      qed
    qed
  qed
qed simp

text \<open>The order in which the entries are visited does not matter.\<close>

lemma pick_order_irrelevant:
  assumes "inj_on key (set xs)" and "set xs = set ys"
  shows "foldl keep_less None xs = foldl keep_less None ys"
proof (cases "foldl keep_less None xs")
  case None
  with assms(2) show ?thesis by (simp add: pick_None)
next
  case (Some m)
  then have "ys \<noteq> []" using assms(2) pick_member by fastforce
  then obtain m' where m': "foldl keep_less None ys = Some m'"
    using pick_None by blast
  have "m = m'"
    using pick_least [OF assms(1) Some, of m'] pick_least [of ys m' m] m' assms
      pick_member [OF Some] pick_member [OF m'] asym by auto
  with Some m' show ?thesis by simp
qed

end

definition last_activity :: "LearnedDomain \<Rightarrow> time" where
  "last_activity e = (if IsZero (ld_LastUsedAt e) then ld_LearnedAt e else ld_LastUsedAt e)"

lemma lessRecentlyUsed_iff:
  "lessRecentlyUsed l r \<longleftrightarrow> last_activity l < last_activity r \<or>
     (last_activity l = last_activity r \<and> (ld_LearnedAt l < ld_LearnedAt r \<or>
       (ld_LearnedAt l = ld_LearnedAt r \<and> ld_Host l < ld_Host r)))"
  by (auto simp: lessRecentlyUsed_def last_activity_def Let_def)

lemma lessRecentlyUsed_irrefl: "\<not> lessRecentlyUsed a a"
  by (simp add: lessRecentlyUsed_def)

lemma lessRecentlyUsed_trans:
  "lessRecentlyUsed a b \<Longrightarrow> lessRecentlyUsed b c \<Longrightarrow> lessRecentlyUsed a c"
  by (auto simp: lessRecentlyUsed_iff intro: order_less_trans)

lemma lessRecentlyUsed_total:
  "ld_Host a \<noteq> ld_Host b \<Longrightarrow> lessRecentlyUsed a b \<or> lessRecentlyUsed b a"
  unfolding lessRecentlyUsed_def Let_def by (auto simp: not_less neq_iff)

interpretation lru: recency lessRecentlyUsed ld_Host
  by unfold_locales
    (auto simp: lessRecentlyUsed_irrefl intro: lessRecentlyUsed_trans dest: lessRecentlyUsed_total)

lemma evictionCandidate_pick: "evictionCandidateLocked m = foldl lru.keep_less None (map snd m)"
  by (simp add: evictionCandidateLocked_def lru.keep_less_def [abs_def])

section \<open>The invariant\<close>

definition store_ok :: "'y Store \<Rightarrow> bool" where
  "store_ok s \<longleftrightarrow> wf_map (st_domains s) \<and>
     (\<forall>(k, e) \<in> set (st_domains s). ld_Host e = k \<and> k \<noteq> '''' \<and> ld_Upstream e \<noteq> '''')"

text \<open>The same on the table alone.\<close>

definition table_ok :: "(string, LearnedDomain) gomap \<Rightarrow> bool" where
  "table_ok m \<longleftrightarrow> wf_map m \<and>
     (\<forall>k e. map_of m k = Some e \<longrightarrow> ld_Host e = k \<and> k \<noteq> '''' \<and> ld_Upstream e \<noteq> '''')"

lemma store_ok_iff: "store_ok s \<longleftrightarrow> table_ok (st_domains s)"
proof -
  have "(\<forall>(k, e) \<in> set m. P k e) \<longleftrightarrow> (\<forall>k e. (k, e) \<in> set m \<longrightarrow> P k e)"
    for m :: "(string, LearnedDomain) gomap" and P by auto
  then show ?thesis
    by (simp add: store_ok_def table_ok_def wf_map_in_set cong: conj_cong)
qed

lemma table_ok_Nil [simp]: "table_ok []"
  by (simp add: table_ok_def)

lemma table_ok_wf [dest]: "table_ok m \<Longrightarrow> wf_map m"
  by (simp add: table_ok_def)

lemma table_okD:
  "table_ok m \<Longrightarrow> map_of m k = Some e \<Longrightarrow> ld_Host e = k \<and> k \<noteq> '''' \<and> ld_Upstream e \<noteq> ''''"
  by (simp add: table_ok_def)

lemma table_ok_update [intro]:
  "table_ok m \<Longrightarrow> ld_Host e = k \<Longrightarrow> k \<noteq> '''' \<Longrightarrow> ld_Upstream e \<noteq> '''' \<Longrightarrow> table_ok (AList.update k e m)"
  by (auto simp: table_ok_def)

lemma table_ok_delete [intro]: "table_ok m \<Longrightarrow> table_ok (AList.delete k m)"
  by (auto simp: table_ok_def)

lemma table_ok_filter [intro]: "table_ok m \<Longrightarrow> table_ok (filter P m)"
  by (auto simp: table_ok_def map_of_filter_wf)

lemma table_ok_put_all [intro]: "table_ok m \<Longrightarrow> table_ok r \<Longrightarrow> table_ok (put_all r m)"
  by (auto simp: table_ok_def map_of_put_all map_add_Some_iff)

lemma table_ok_inj: "table_ok m \<Longrightarrow> inj_on ld_Host (set (map snd m))"
proof (rule inj_onI)
  fix x y
  assume ok: "table_ok m" and xy: "x \<in> set (map snd m)" "y \<in> set (map snd m)" "ld_Host x = ld_Host y"
  have "map_of m (ld_Host e) = Some e" if "e \<in> set (map snd m)" for e
  proof -
    from that obtain k where "(k, e) \<in> set m" by auto
    then have "map_of m k = Some e" using ok by (simp add: wf_map_in_set table_ok_wf)
    with ok show ?thesis using table_okD by fastforce
  qed
  with xy show "x = y" by (metis option.inject)
qed

section \<open>The eviction candidate\<close>

lemma candidate_member:
  assumes "table_ok m" and "evictionCandidateLocked m = Some e"
  shows "map_of m (ld_Host e) = Some e"
proof -
  from assms(2) have "e \<in> set (map snd m)"
    by (simp only: evictionCandidate_pick lru.pick_member)
  then obtain k where "map_of m k = Some e"
    using assms(1) by (auto simp flip: wf_map_in_set [OF table_ok_wf])
  with assms(1) show ?thesis by (metis table_okD)
qed

lemma candidate_least:
  assumes "table_ok m" and "evictionCandidateLocked m = Some e"
    and "map_of m k = Some e'" and "k \<noteq> ld_Host e"
  shows "lessRecentlyUsed e e'"
proof -
  have "e' \<in> set (map snd m)"
    using assms(3) by (auto dest!: map_of_SomeD intro!: image_eqI)
  moreover have "e' \<noteq> e" using table_okD [OF assms(1,3)] assms(4) by auto
  ultimately show ?thesis
    using lru.pick_least [OF table_ok_inj [OF assms(1)]] assms(2)
    by (simp add: evictionCandidate_pick)
qed

lemma candidate_exists: "m \<noteq> [] \<Longrightarrow> \<exists>e. evictionCandidateLocked m = Some e"
  using lru.pick_None [of "map snd m"] by (auto simp: evictionCandidate_pick)

section \<open>Saving\<close>

lemma saveLocked_cases:
  obtains (ok) content where "saveLocked Y fault s = (None, s\<lparr>st_file := content\<rparr>)"
  | (fail) e where "saveLocked Y fault s = (Some e, s)"
proof (cases "saveLocked Y fault s = (None, s)")
  case True
  then have "saveLocked Y fault s = (None, s\<lparr>st_file := st_file s\<rparr>)" by simp
  then show thesis by (rule ok)
next
  case False
  then show thesis
    using ok fail by (auto simp: saveLocked_def split: if_splits option.splits save_fault.splits)
qed

lemma saveLocked_success:
  "saveLocked Y fault s = (None, s') \<Longrightarrow> st_path s \<noteq> '''' \<Longrightarrow>
   \<exists>data. y_marshal Y \<lparr>lf_Version = 1, lf_Domains = Entries s\<rparr> = Some data \<and> s' = s\<lparr>st_file := Some data\<rparr>"
  by (auto simp: saveLocked_def split: option.splits save_fault.splits)

text \<open>Two stores that no caller can tell apart: the map, not the order of its bindings.\<close>

definition same_store :: "'y Store \<Rightarrow> 'y Store \<Rightarrow> bool" where
  "same_store s s' \<longleftrightarrow> st_path s' = st_path s \<and> st_dirty s' = st_dirty s \<and> st_file s' = st_file s \<and>
     map_of (st_domains s') = map_of (st_domains s)"

lemma same_store_refl [simp]: "same_store s s"
  by (simp add: same_store_def)

section \<open>Insertion\<close>

definition new_entry :: "string \<Rightarrow> string \<Rightarrow> string \<Rightarrow> time \<Rightarrow> LearnedDomain" where
  "new_entry h upstream reason now = \<lparr>ld_Host = h, ld_Upstream = upstream, ld_LearnedAt = now,
     ld_LastUsedAt = 0, ld_HitCount = 0, ld_Reason = reason\<rparr>"

text \<open>What is evicted: nothing, or the candidate when a new host meets a full table.\<close>

definition evicts :: "'y Store \<Rightarrow> string \<Rightarrow> int \<Rightarrow> LearnedDomain option" where
  "evicts s h maxEntries =
     (if map_of (st_domains s) h = None \<and> 0 < maxEntries \<and> maxEntries \<le> int (length (st_domains s))
      then evictionCandidateLocked (st_domains s) else None)"

definition without_evicted ::
  "LearnedDomain option \<Rightarrow> (string, LearnedDomain) gomap \<Rightarrow> (string, LearnedDomain) gomap" where
  "without_evicted ev m = (case ev of None \<Rightarrow> m | Some e \<Rightarrow> AList.delete (ld_Host e) m)"

definition with_new ::
  "'y Store \<Rightarrow> string \<Rightarrow> LearnedDomain \<Rightarrow> LearnedDomain option \<Rightarrow> (string, LearnedDomain) gomap" where
  "with_new s h e ev = AList.update h e (without_evicted ev (st_domains s))"

definition put_back ::
  "'y Store \<Rightarrow> string \<Rightarrow> LearnedDomain option \<Rightarrow> (string, LearnedDomain) gomap \<Rightarrow> (string, LearnedDomain) gomap" where
  "put_back s h ev d =
     (let d3 = (case map_of (st_domains s) h of Some c \<Rightarrow> AList.update h c d | None \<Rightarrow> AList.delete h d)
      in case ev of Some e \<Rightarrow> AList.update (ld_Host e) e d3 | None \<Rightarrow> d3)"

definition routed_to :: "'y Store \<Rightarrow> string \<Rightarrow> string \<Rightarrow> bool" where
  "routed_to s h upstream \<longleftrightarrow> (\<exists>e. map_of (st_domains s) h = Some e \<and> ld_Upstream e = upstream)"

lemma evicts_member:
  assumes "store_ok s" and "evicts s h maxEntries = Some e"
  shows "map_of (st_domains s) (ld_Host e) = Some e" and "ld_Host e \<noteq> h"
proof -
  show m: "map_of (st_domains s) (ld_Host e) = Some e"
    using assms by (auto simp: evicts_def store_ok_iff split: if_splits intro: candidate_member)
  show "ld_Host e \<noteq> h" using assms(2) m by (auto simp: evicts_def split: if_splits)
qed

text \<open>The five ways an insertion can end.\<close>

lemma AddWithLimit_cases [consumes 1]:
  fixes Y :: "'y yaml" and host upstream reason :: string and maxEntries :: int
    and fault now and s :: "'y Store"
  defines "h \<equiv> normalizeHost host"
  defines "ev \<equiv> evicts s h maxEntries"
  defines "d \<equiv> with_new s h (new_entry h upstream reason now) ev"
  assumes res: "AddWithLimit Y fault now s host upstream reason maxEntries = (r, s')"
  obtains
    (empty_host) "h = ''''" "r = Inl EmptyHost" "s' = s"
  | (empty_upstream) "h \<noteq> ''''" "upstream = ''''" "r = Inl EmptyUpstream" "s' = s"
  | (present) "h \<noteq> ''''" "upstream \<noteq> ''''" "routed_to s h upstream" "r = Inr (False, None)" "s' = s"
  | (added) content where "h \<noteq> ''''" "upstream \<noteq> ''''" "\<not> routed_to s h upstream"
      "saveLocked Y fault (s\<lparr>st_domains := d\<rparr>) = (None, s\<lparr>st_domains := d, st_file := content\<rparr>)"
      "r = Inr (True, ev)" "s' = s\<lparr>st_domains := d, st_dirty := False, st_file := content\<rparr>"
  | (undone) err where "h \<noteq> ''''" "upstream \<noteq> ''''" "\<not> routed_to s h upstream"
      "saveLocked Y fault (s\<lparr>st_domains := d\<rparr>) = (Some err, s\<lparr>st_domains := d\<rparr>)"
      "r = Inl err" "s' = s\<lparr>st_domains := put_back s h ev d\<rparr>"
proof -
  have unfold: "(r, s') = (case saveLocked Y fault (s\<lparr>st_domains := d\<rparr>) of
         (Some err, s2) \<Rightarrow> (Inl err, s2\<lparr>st_domains := put_back s h ev d\<rparr>)
       | (None, s2) \<Rightarrow> (Inr (True, ev), s2\<lparr>st_dirty := False\<rparr>))"
    if "h \<noteq> ''''" "upstream \<noteq> ''''" "\<not> routed_to s h upstream"
    using that
    unfolding res [symmetric] AddWithLimit_def h_def [symmetric] ev_def d_def evicts_def new_entry_def
      without_evicted_def with_new_def put_back_def routed_to_def Let_def
    by (cases "map_of (st_domains s) h") (simp_all cong: option.case_cong prod.case_cong)
  show thesis
  proof (cases "h = '''' \<or> upstream = '''' \<or> routed_to s h upstream")
    case True
    then consider "h = ''''" | "h \<noteq> ''''" "upstream = ''''"
      | "h \<noteq> ''''" "upstream \<noteq> ''''" "routed_to s h upstream" by blast
    then show thesis
    proof cases
      case 1
      then show thesis by (intro empty_host) (use res in \<open>simp_all add: AddWithLimit_def h_def\<close>)
    next
      case 2
      then show thesis by (intro empty_upstream) (use res in \<open>simp_all add: AddWithLimit_def h_def Let_def\<close>)
    next
      case 3
      then show thesis
        by (intro present) (use res in \<open>auto simp: AddWithLimit_def h_def [symmetric] routed_to_def Let_def\<close>)
    qed
  next
    case ne: False
    show thesis
    proof (cases Y fault "s\<lparr>st_domains := d\<rparr>" rule: saveLocked_cases)
      case (ok content)
      with ne unfold show thesis by (intro added [of content]) simp_all
    next
      case (fail err)
      with ne unfold show thesis by (intro undone [of err]) simp_all
    qed
  qed
qed

lemma AddWithLimit_present:
  assumes "normalizeHost host \<noteq> ''''" and "upstream \<noteq> ''''"
    and "routed_to s (normalizeHost host) upstream"
  shows "AddWithLimit Y fault now s host upstream reason maxEntries = (Inr (False, None), s)"
  using assms by (auto simp: AddWithLimit_def routed_to_def Let_def)

lemma table_ok_with_new:
  assumes "store_ok s" and "h \<noteq> ''''" and "upstream \<noteq> ''''"
  shows "table_ok (with_new s h (new_entry h upstream reason now) ev)"
  using assms
  by (auto simp: with_new_def new_entry_def without_evicted_def store_ok_iff split: option.splits)

text \<open>Undoing an insertion restores the map it started from.\<close>

lemma map_of_put_back:
  assumes "store_ok s" and ev: "ev = evicts s h maxEntries"
  shows "map_of (put_back s h ev (with_new s h e ev)) = map_of (st_domains s)"
proof (cases ev)
  case None
  then show ?thesis
    by (auto simp: put_back_def with_new_def without_evicted_def fun_eq_iff split: option.splits)
next
  case (Some x)
  with evicts_member [OF assms(1), of h maxEntries x] ev
  have "map_of (st_domains s) (ld_Host x) = Some x" "ld_Host x \<noteq> h" by simp_all
  moreover have "map_of (st_domains s) h = None"
    using Some ev by (auto simp: evicts_def split: if_splits)
  ultimately show ?thesis using Some
    by (auto simp: put_back_def with_new_def without_evicted_def fun_eq_iff)
qed

lemma table_ok_map_of:
  "table_ok m \<Longrightarrow> wf_map m' \<Longrightarrow> map_of m' = map_of m \<Longrightarrow> table_ok m'"
  by (simp add: table_ok_def)

lemma wf_map_put_back: "wf_map d \<Longrightarrow> wf_map (put_back s h ev d)"
  by (auto simp: put_back_def Let_def split: option.splits)

lemma AddWithLimit_ok:
  assumes ok: "store_ok s"
    and r: "AddWithLimit Y fault now s host upstream reason maxEntries = (r, s')"
  shows "store_ok s'"
  using r
proof (cases rule: AddWithLimit_cases)
  case (added content)
  with table_ok_with_new [OF ok added(1,2)] show ?thesis by (simp add: store_ok_iff)
next
  case (undone err)
  have "table_ok (st_domains s')"
  proof (rule table_ok_map_of [where m = "st_domains s"])
    show "table_ok (st_domains s)" using ok by (simp only: store_ok_iff)
    show "wf_map (st_domains s')"
      using table_ok_wf [OF table_ok_with_new [OF ok undone(1,2)]] undone(6)
      by (simp add: wf_map_put_back)
    show "map_of (st_domains s') = map_of (st_domains s)"
      using undone(6) by (simp add: map_of_put_back [OF ok])
  qed
  then show ?thesis by (simp only: store_ok_iff)
qed (simp_all add: ok)

text \<open>A failed insertion changes nothing a caller can see.\<close>

lemma AddWithLimit_failed:
  assumes "store_ok s" and "AddWithLimit Y fault now s host upstream reason maxEntries = (Inl err, s')"
  shows "same_store s s'"
  using assms(2)
proof (cases rule: AddWithLimit_cases)
  case (undone err)
  with assms(1) show ?thesis by (auto simp: same_store_def map_of_put_back)
qed auto

text \<open>What a successful insertion leaves in the map.\<close>

lemma AddWithLimit_added:
  assumes ok: "store_ok s"
    and r: "AddWithLimit Y fault now s host upstream reason maxEntries = (Inr (True, ev), s')"
  shows "ev = evicts s (normalizeHost host) maxEntries"
    and "map_of (st_domains s') =
      (map_of (st_domains (s\<lparr>st_domains := without_evicted ev (st_domains s)\<rparr>)))
        (normalizeHost host \<mapsto> new_entry (normalizeHost host) upstream reason now)"
    and "st_path s' = st_path s" and "\<not> st_dirty s'"
    and "st_domains s' = with_new s (normalizeHost host) (new_entry (normalizeHost host) upstream reason now) ev"
    and "\<not> routed_to s (normalizeHost host) upstream"
  using r by (cases rule: AddWithLimit_cases; simp add: with_new_def)+

text \<open>The size of the table: the limit holds for the new table when it held for the old one.\<close>

lemma length_with_new:
  assumes ok: "store_ok s" and pos: "0 < maxEntries" and le: "int (length (st_domains s)) \<le> maxEntries"
    and ev: "ev = evicts s h maxEntries"
  shows "int (length (with_new s h e ev)) \<le> maxEntries"
proof -
  have wf: "wf_map (st_domains s)" using ok by (auto simp: store_ok_iff)
  show ?thesis
  proof (cases "map_of (st_domains s) h")
    case (Some e')
    then have "ev = None" using ev by (simp add: evicts_def)
    with wf Some le show ?thesis by (simp add: with_new_def without_evicted_def length_update)
  next
    case None
    show ?thesis
    proof (cases "maxEntries \<le> int (length (st_domains s))")
      case False
      with ev None have "ev = None" by (simp add: evicts_def)
      with False wf None show ?thesis by (simp add: with_new_def without_evicted_def length_update)
    next
      case True
      with pos have "st_domains s \<noteq> []" by auto
      then obtain x where x: "evictionCandidateLocked (st_domains s) = Some x"
        using candidate_exists by blast
      with True pos None ev have "ev = Some x" by (simp add: evicts_def)
      moreover have "map_of (st_domains s) (ld_Host x) = Some x"
        using ok x by (auto simp: store_ok_iff intro: candidate_member)
      moreover have "0 < length (st_domains s)" using \<open>st_domains s \<noteq> []\<close> by simp
      ultimately show ?thesis using wf None le
        by (simp add: with_new_def without_evicted_def length_update length_delete)
    qed
  qed
qed

lemma length_put_back:
  assumes ok: "store_ok s" and ev: "ev = evicts s h maxEntries"
  shows "length (put_back s h ev (with_new s h (new_entry h upstream reason now) ev)) = length (st_domains s)"
proof -
  have "wf_map (with_new s h (new_entry h upstream reason now) ev)"
    using ok by (auto simp: with_new_def without_evicted_def store_ok_iff split: option.splits)
  then show ?thesis
    using ok map_of_put_back [OF ok ev] by (simp add: length_wf_map wf_map_put_back store_ok_iff table_ok_wf)
qed

lemma length_wf_pos: "map_of m k = Some v \<Longrightarrow> 0 < length m"
  by (cases m) auto

section \<open>Lookups, use marks, deletion\<close>

lemma MarkUsed_ok: "store_ok s \<Longrightarrow> MarkUsed s host now = (b, s') \<Longrightarrow> store_ok s'"
  by (auto simp: MarkUsed_def store_ok_iff Let_def split: option.splits
      intro!: table_ok_update simp: table_okD [THEN conjunct1])
    (auto dest: table_okD)

lemma MarkUsed_length:
  "store_ok s \<Longrightarrow> MarkUsed s host now = (b, s') \<Longrightarrow> length (st_domains s') = length (st_domains s)"
  by (auto simp: MarkUsed_def store_ok_iff Let_def length_update table_ok_wf split: option.splits)

lemma Delete_ok: "store_ok s \<Longrightarrow> Delete Y fault s host = (r, s') \<Longrightarrow> store_ok s'"
  by (cases Y fault "s\<lparr>st_domains := AList.delete (normalizeHost host) (st_domains s)\<rparr>" rule: saveLocked_cases)
    (auto simp: Delete_def store_ok_iff Let_def dest: table_okD split: option.splits intro!: table_ok_update)

lemma Delete_length:
  "store_ok s \<Longrightarrow> Delete Y fault s host = (r, s') \<Longrightarrow> length (st_domains s') \<le> length (st_domains s)"
  using length_wf_pos [of "st_domains s" "normalizeHost host"]
  by (cases Y fault "s\<lparr>st_domains := AList.delete (normalizeHost host) (st_domains s)\<rparr>" rule: saveLocked_cases)
    (auto simp: Delete_def store_ok_iff Let_def length_update length_delete table_ok_wf split: option.splits)

lemma Delete_failed:
  "Delete Y fault s host = (Inl err, s') \<Longrightarrow> same_store s s'"
  by (cases Y fault "s\<lparr>st_domains := AList.delete (normalizeHost host) (st_domains s)\<rparr>" rule: saveLocked_cases)
    (auto simp: Delete_def same_store_def Let_def fun_eq_iff split: option.splits)

lemma Delete_deleted:
  "Delete Y fault s host = (Inr b, s') \<Longrightarrow>
   map_of (st_domains s') = (map_of (st_domains s))(normalizeHost host := None) \<and>
   b = (map_of (st_domains s) (normalizeHost host) \<noteq> None)"
  by (cases Y fault "s\<lparr>st_domains := AList.delete (normalizeHost host) (st_domains s)\<rparr>" rule: saveLocked_cases)
    (auto simp: Delete_def Let_def fun_upd_idem split: option.splits)

lemma Flush_domains: "Flush Y fault s = (r, s') \<Longrightarrow> st_domains s' = st_domains s \<and> st_path s' = st_path s"
  by (cases Y fault s rule: saveLocked_cases) (auto simp: Flush_def split: if_splits)

lemma Flush_failed: "Flush Y fault s = (Some err, s') \<Longrightarrow> same_store s s'"
  by (cases Y fault s rule: saveLocked_cases) (auto simp: Flush_def split: if_splits)

section \<open>Pruning\<close>

text \<open>\<open>kept\<close> and \<open>removed\<close> split the table \<open>m\<close>.\<close>

definition splits_table ::
  "(string, LearnedDomain) gomap \<Rightarrow> (string, LearnedDomain) gomap \<Rightarrow> (string, LearnedDomain) gomap \<Rightarrow> bool" where
  "splits_table m kept removed \<longleftrightarrow> table_ok kept \<and> table_ok removed \<and>
     dom (map_of kept) \<inter> dom (map_of removed) = {} \<and> map_of kept ++ map_of removed = map_of m"

lemma splits_table_mem:
  "splits_table m kept removed \<Longrightarrow>
   map_of m k = Some e \<longleftrightarrow> map_of kept k = Some e \<or> map_of removed k = Some e"
proof -
  assume s: "splits_table m kept removed"
  then have m: "map_of m = map_of kept ++ map_of removed" by (simp add: splits_table_def)
  have "k \<notin> dom (map_of kept) \<or> k \<notin> dom (map_of removed)" using s by (auto simp: splits_table_def)
  then show ?thesis unfolding m by (auto simp: map_add_def domIff split: option.splits)
qed

lemma splits_table_length:
  assumes "store_ok s" and s: "splits_table (st_domains s) kept removed"
  shows "length (st_domains s) = length kept + length removed"
proof -
  have "map_of (st_domains s) = map_of kept ++ map_of removed" using s by (simp add: splits_table_def)
  then have d: "dom (map_of (st_domains s)) = dom (map_of kept) \<union> dom (map_of removed)" by auto
  have "card (dom (map_of kept) \<union> dom (map_of removed)) = card (dom (map_of kept)) + card (dom (map_of removed))"
    using s by (intro card_Un_disjoint) (auto simp: splits_table_def finite_dom_map_of)
  with assms d show ?thesis
    by (simp add: length_wf_map splits_table_def store_ok_iff table_ok_wf)
qed

lemma finish_prune_ok:
  assumes "splits_table (st_domains s) kept removed" and "finish_prune Y fault s kept removed = (r, s')"
  shows "store_ok s'"
  using assms
  by (cases Y fault "s\<lparr>st_domains := kept\<rparr>" rule: saveLocked_cases)
    (auto simp: finish_prune_def splits_table_def store_ok_iff split: if_splits)

lemma finish_prune_failed:
  assumes "splits_table (st_domains s) kept removed" and "finish_prune Y fault s kept removed = (Inl err, s')"
  shows "same_store s s'"
  using assms
  by (cases Y fault "s\<lparr>st_domains := kept\<rparr>" rule: saveLocked_cases)
    (auto simp: finish_prune_def splits_table_def same_store_def map_of_put_all table_ok_wf split: if_splits)

lemma finish_prune_done:
  assumes "finish_prune Y fault s kept removed = (Inr n, s')"
  shows "st_domains s' = kept" and "n = int (length removed)"
  using assms
  by (cases Y fault "s\<lparr>st_domains := kept\<rparr>" rule: saveLocked_cases;
      auto simp: finish_prune_def split: if_splits)+

lemma finish_prune_length:
  assumes "store_ok s" and "splits_table (st_domains s) kept removed"
    and "finish_prune Y fault s kept removed = (r, s')"
  shows "length (st_domains s') \<le> length (st_domains s)"
proof (cases r)
  case (Inl err)
  with assms finish_prune_failed finish_prune_ok have "same_store s s'" "store_ok s'" by blast+
  with assms(1) show ?thesis by (simp add: same_store_def length_wf_map store_ok_iff table_ok_wf)
next
  case (Inr n)
  with assms finish_prune_done have "st_domains s' = kept" by blast
  moreover have "dom (map_of kept) \<subseteq> dom (map_of (st_domains s))"
    using splits_table_mem [OF assms(2)] by blast
  ultimately show ?thesis
    using assms by (simp add: length_wf_map splits_table_def store_ok_iff table_ok_wf card_mono finite_dom_map_of)
qed

lemma splits_expired:
  "store_ok s \<Longrightarrow> splits_table (st_domains s)
     (filter (\<lambda>(host, entry). \<not> expired ttl now entry) (st_domains s))
     (filter (\<lambda>(host, entry). expired ttl now entry) (st_domains s))"
  by (auto simp: splits_table_def store_ok_iff table_ok_wf map_of_filter_wf map_of_filter_wf_eq
      fun_eq_iff map_add_def split: option.splits if_splits)

lemma prune_loop_spec:
  assumes "splits_table m0 m removed" and "0 < maxEntries"
    and "\<And>k r h e. map_of removed k = Some r \<Longrightarrow> map_of m h = Some e \<Longrightarrow> lessRecentlyUsed r e"
  shows "\<exists>kept rem. prune_loop maxEntries m removed = Some (kept, rem) \<and> splits_table m0 kept rem \<and>
    int (length kept) = min maxEntries (int (length m)) \<and>
    (\<forall>k r h e. map_of rem k = Some r \<longrightarrow> map_of kept h = Some e \<longrightarrow> lessRecentlyUsed r e)"
  using assms(1,3)
proof (induction "length m" arbitrary: m removed rule: less_induct)
  case less
  show ?case
  proof (cases "maxEntries < int (length m)")
    case False
    with less.prems show ?thesis by (simp add: prune_loop.simps) 
  next
    case True
    with assms(2) have "m \<noteq> []" by auto
    then obtain c where c: "evictionCandidateLocked m = Some c" using candidate_exists by blast
    have ok: "table_ok m" "table_ok removed" using less.prems(1) by (simp_all add: splits_table_def)
    have mc: "map_of m (ld_Host c) = Some c" using candidate_member [OF ok(1) c] .
    let ?m' = "AList.delete (ld_Host c) m" and ?r' = "AList.update (ld_Host c) c removed"
    have len: "length ?m' = length m - 1" "0 < length m"
      using mc ok(1) \<open>m \<noteq> []\<close> by (simp_all add: length_delete table_ok_wf)
    have split: "splits_table m0 ?m' ?r'"
      unfolding splits_table_def
    proof (intro conjI)
      have disj: "dom (map_of m) \<inter> dom (map_of removed) = {}"
        and eq: "map_of m ++ map_of removed = map_of m0"
        using less.prems(1) by (simp_all add: splits_table_def)
      show "table_ok ?m'" "table_ok ?r'"
        using ok mc table_okD [OF ok(1) mc] by auto
      show "dom (map_of ?m') \<inter> dom (map_of ?r') = {}" using disj by auto
      have "map_of m0 (ld_Host c) = Some c"
        using mc splits_table_mem [OF less.prems(1)] by blast
      moreover have "map_of ?m' ++ map_of ?r' = (map_of m ++ map_of removed)(ld_Host c \<mapsto> c)"
        by (auto simp: fun_eq_iff map_add_def split: option.split)
      ultimately show "map_of ?m' ++ map_of ?r' = map_of m0" by (simp add: eq fun_upd_idem)
    qed
    have least: "lessRecentlyUsed r e" if "map_of ?r' k = Some r" "map_of ?m' h = Some e" for k r h e
    proof (cases "k = ld_Host c")
      case True
      with that have "r = c" "h \<noteq> ld_Host c" "map_of m h = Some e" by (auto split: if_splits)
      with candidate_least [OF ok(1) c] show ?thesis by blast
    next
      case False
      with that less.prems(2) show ?thesis by (auto split: if_splits)
    qed
    from less.hyps [OF _ split least] len True
    show ?thesis by (auto simp: prune_loop.simps [of maxEntries m] c min_def)
  qed
qed

lemma PruneToLimit_cases:
  assumes "store_ok s" and "0 < maxEntries"
  obtains kept removed where "PruneToLimit Y fault s maxEntries = Some (finish_prune Y fault s kept removed)"
    and "splits_table (st_domains s) kept removed"
    and "int (length kept) = min maxEntries (int (length (st_domains s)))"
    and "\<And>k r h e. map_of removed k = Some r \<Longrightarrow> map_of kept h = Some e \<Longrightarrow> lessRecentlyUsed r e"
proof -
  have "splits_table (st_domains s) (st_domains s) []"
    using assms(1) by (simp add: splits_table_def store_ok_iff)
  from prune_loop_spec [OF this assms(2)] that assms(2) show thesis
    by (auto simp: PruneToLimit_def)
qed

section \<open>The order of the entries\<close>

lemma Entries_set: "set (Entries s) = snd ` set (st_domains s)"
  by (simp add: Entries_def)

lemma Entries_length [simp]: "length (Entries s) = length (st_domains s)"
  by (simp add: Entries_def)

lemma Entries_sorted: "sorted (map ld_Host (Entries s))"
  by (simp add: Entries_def)

lemma map_of_eq_set: "wf_map m \<Longrightarrow> wf_map m' \<Longrightarrow> map_of m = map_of m' \<Longrightarrow> set m = set m'"
  by (auto simp: wf_map_in_set)

lemma Entries_distinct: "store_ok s \<Longrightarrow> distinct (map ld_Host (Entries s))"
proof -
  assume ok: "store_ok s"
  have "map ld_Host (map snd (st_domains s)) = map fst (st_domains s)"
    using ok by (auto simp: store_ok_def)
  then have "distinct (map ld_Host (map snd (st_domains s)))"
    using ok by (simp only: store_ok_def wf_map_def)
  then have "distinct (map snd (st_domains s))" and "inj_on ld_Host (set (map snd (st_domains s)))"
    by (simp_all only: distinct_map [of ld_Host "map snd (st_domains s)"])
  then show ?thesis by (simp only: Entries_def distinct_map [of ld_Host] distinct_sort set_sort simp_thms)
qed


lemma Entries_cong:
  assumes ok: "store_ok s" "store_ok s'" and m: "map_of (st_domains s) = map_of (st_domains s')"
  shows "Entries s = Entries s'"
proof -
  have set: "set (Entries s) = set (Entries s')"
    using map_of_eq_set [OF _ _ m] ok by (simp add: Entries_set store_ok_def)
  have "map ld_Host (Entries s) = map ld_Host (Entries s')"
    using set Entries_distinct [OF ok(1)] Entries_distinct [OF ok(2)]
    by (intro sorted_distinct_set_unique) (simp_all add: Entries_sorted)
  moreover have "inj_on ld_Host (set (Entries s) \<union> set (Entries s'))"
    using Entries_distinct [OF ok(1)] set by (simp add: distinct_map)
  ultimately show ?thesis by (rule map_inj_on)
qed

end
