(* ===== verification/Learned_Props.thy ===== *)
theory Learned_Props
  imports Learned_Lemmas
begin

text \<open>
  The properties of the learned routing table: the invariant and the size bound over every
  history of operations, atomicity of failed operations, least-recently-used eviction and
  pruning, expiry, and persistence.
\<close>

section \<open>Histories\<close>

text \<open>
  What \<^verbatim>\<open>main\<close> does with the store before it serves: load, prune what has expired, enforce the
  limit; any error is fatal.
\<close>

definition startup_store ::
  "'y yaml \<Rightarrow> string \<Rightarrow> 'y read_result \<Rightarrow> save_fault \<Rightarrow> save_fault \<Rightarrow> duration \<Rightarrow> int \<Rightarrow> time \<Rightarrow>
   (store_error + 'y Store) option" where
  "startup_store Y path content f1 f2 ttl limit now =
     (case Load Y path content of
        Inl e \<Rightarrow> Some (Inl e)
      | Inr s0 \<Rightarrow>
          (case PruneExpired Y f1 s0 ttl now of
             (Inl e, _) \<Rightarrow> Some (Inl e)
           | (Inr _, s1) \<Rightarrow>
               map_option (\<lambda>res. case res of (Inl e, _) \<Rightarrow> Inl e | (Inr _, s2) \<Rightarrow> Inr s2)
                 (PruneToLimit Y f2 s1 limit)))"

text \<open>One operation of a running proxy, with any time, host and file-system outcome.\<close>

inductive store_step :: "'y yaml \<Rightarrow> int \<Rightarrow> 'y Store \<Rightarrow> 'y Store \<Rightarrow> bool" for Y limit where
  used: "MarkUsed s host now = (b, s') \<Longrightarrow> store_step Y limit s s'"
| add: "AddWithLimit Y fault now s host upstream reason limit = (r, s') \<Longrightarrow> store_step Y limit s s'"
| del: "Delete Y fault s host = (r', s') \<Longrightarrow> store_step Y limit s s'"
| expire: "PruneExpired Y fault s ttl now = (n, s') \<Longrightarrow> store_step Y limit s s'"
| shrink: "PruneToLimit Y fault s m = Some (n, s') \<Longrightarrow> store_step Y limit s s'"
| flush: "Flush Y fault s = (e, s') \<Longrightarrow> store_step Y limit s s'"


inductive store_reachable :: "'y yaml \<Rightarrow> int \<Rightarrow> 'y Store \<Rightarrow> bool" for Y limit where
  start: "startup_store Y path content f1 f2 ttl limit now = Some (Inr s) \<Longrightarrow> store_reachable Y limit s"
| step: "store_reachable Y limit s \<Longrightarrow> store_step Y limit s s' \<Longrightarrow> store_reachable Y limit s'"

lemma load_entry_ok: "table_ok m \<Longrightarrow> table_ok (load_entry m e)"
  by (auto simp: load_entry_def Let_def intro!: table_ok_update)

lemma load_entries_ok: "table_ok m \<Longrightarrow> table_ok (foldl load_entry m es)"
  by (induction es arbitrary: m) (auto intro: load_entry_ok)

lemma Load_ok: "Load Y path content = Inr s \<Longrightarrow> store_ok s"
  by (auto simp: Load_def Let_def store_ok_iff intro: load_entries_ok [OF table_ok_Nil]
      split: if_splits read_result.splits option.splits)

lemma PruneExpired_ok:
  "store_ok s \<Longrightarrow> PruneExpired Y fault s ttl now = (r, s') \<Longrightarrow>
   store_ok s' \<and> length (st_domains s') \<le> length (st_domains s)"
  using finish_prune_ok [OF splits_expired] finish_prune_length [OF _ splits_expired]
  by (auto simp: PruneExpired_def split: if_splits)

lemma PruneToLimit_ok:
  assumes "store_ok s" and "PruneToLimit Y fault s m = Some (r, s')"
  shows "store_ok s' \<and> length (st_domains s') \<le> length (st_domains s)"
proof (cases "0 < m")
  case True
  obtain kept removed where "finish_prune Y fault s kept removed = (r, s')"
    and "splits_table (st_domains s) kept removed"
    by (rule PruneToLimit_cases [OF assms(1) True, of Y fault]) (use assms(2) in auto)
  with assms(1) finish_prune_ok finish_prune_length show ?thesis by blast
next
  case False
  with assms show ?thesis by (simp add: PruneToLimit_def)
qed

lemma PruneExpired_failed:
  "store_ok s \<Longrightarrow> PruneExpired Y fault s ttl now = (Inl err, s') \<Longrightarrow> same_store s s'"
  using finish_prune_failed [OF splits_expired] by (auto simp: PruneExpired_def split: if_splits)

lemma PruneToLimit_failed:
  assumes "store_ok s" and r: "PruneToLimit Y fault s m = Some (Inl err, s')"
  shows "same_store s s'"
proof (cases "0 < m")
  case True
  obtain kept removed where "finish_prune Y fault s kept removed = (Inl err, s')"
    and "splits_table (st_domains s) kept removed"
    by (rule PruneToLimit_cases [OF assms(1) True, of Y fault]) (use r in auto)
  then show ?thesis using finish_prune_failed by blast
next
  case False
  with r show ?thesis by (simp add: PruneToLimit_def)
qed

lemma AddWithLimit_length:
  assumes ok: "store_ok s" and "0 < limit" and "int (length (st_domains s)) \<le> limit"
    and "AddWithLimit Y fault now s host upstream reason limit = (r, s')"
  shows "int (length (st_domains s')) \<le> limit"
  using assms(4)
proof (cases rule: AddWithLimit_cases)
  case (added content)
  with length_with_new [OF assms(1-3) refl] show ?thesis by simp
next
  case (undone err)
  with length_put_back [OF ok refl] assms(3) show ?thesis by simp
qed (simp_all add: assms(3))

text \<open>The invariant of one step, with the bound on the size.\<close>

definition store_bounded :: "int \<Rightarrow> 'y Store \<Rightarrow> bool" where
  "store_bounded limit s \<longleftrightarrow> store_ok s \<and> int (length (st_domains s)) \<le> limit"

lemma store_step_bounded:
  assumes "0 < limit" and "store_step Y limit s s'" and b: "store_bounded limit s"
  shows "store_bounded limit s'"
  using assms(2)
proof cases
  case (used host now b)
  then show ?thesis using b MarkUsed_ok MarkUsed_length by (fastforce simp: store_bounded_def)
next
  case (add fault now host upstream reason r)
  then show ?thesis using b assms(1) AddWithLimit_ok AddWithLimit_length
    by (fastforce simp: store_bounded_def)
next
  case (del fault host r)
  then show ?thesis using b Delete_ok Delete_length by (fastforce simp: store_bounded_def)
next
  case (expire fault ttl now n)
  then show ?thesis using b PruneExpired_ok by (fastforce simp: store_bounded_def)
next
  case (shrink fault m n)
  then show ?thesis using b PruneToLimit_ok by (fastforce simp: store_bounded_def)
next
  case (flush fault e)
  then show ?thesis using b Flush_domains by (fastforce simp: store_bounded_def store_ok_iff)
qed

lemma startup_store_bounded:
  assumes "0 < limit" and "startup_store Y path content f1 f2 ttl limit now = Some (Inr s)"
  shows "store_bounded limit s"
proof -
  obtain s0 r1 s1 r2 where l: "Load Y path content = Inr s0"
    and e: "PruneExpired Y f1 s0 ttl now = (Inr r1, s1)"
    and p: "PruneToLimit Y f2 s1 limit = Some (Inr r2, s)"
    using assms(2)
    by (auto simp: startup_store_def split: sum.splits prod.splits) (metis sum.exhaust)+
  have ok: "store_ok s1" using PruneExpired_ok [OF Load_ok [OF l] e] by blast
  obtain kept removed where f: "finish_prune Y f2 s1 kept removed = (Inr r2, s)"
    and split: "splits_table (st_domains s1) kept removed"
    and len: "int (length kept) = min limit (int (length (st_domains s1)))"
    by (rule PruneToLimit_cases [OF ok assms(1), of Y f2]) (use p in auto)
  from finish_prune_done(1) [OF f] len finish_prune_ok [OF split f]
  show ?thesis by (simp add: store_bounded_def)
qed

lemma reachable_bounded:
  "0 < limit \<Longrightarrow> store_reachable Y limit s \<Longrightarrow> store_bounded limit s"
  by (rotate_tac, induction rule: store_reachable.induct)
    (auto intro: startup_store_bounded store_step_bounded)

section \<open>The names in the table\<close>

text \<open>Every key is what \<open>normalizeHost\<close> makes of some host. (That is not a fixed point of
  \<open>normalizeHost\<close>, which removes one trailing dot only.)\<close>

definition names_normal :: "(string, LearnedDomain) gomap \<Rightarrow> bool" where
  "names_normal m \<longleftrightarrow> dom (map_of m) \<subseteq> range normalizeHost"

lemma names_normal_mono: "dom (map_of m') \<subseteq> dom (map_of m) \<Longrightarrow> names_normal m \<Longrightarrow> names_normal m'"
  by (auto simp: names_normal_def)

lemma names_normal_same: "same_store s s' \<Longrightarrow> names_normal (st_domains s) \<Longrightarrow> names_normal (st_domains s')"
  by (simp add: names_normal_def same_store_def)

lemma load_names: "names_normal m \<Longrightarrow> names_normal (foldl load_entry m es)"
  by (induction es arbitrary: m) (auto simp: load_entry_def names_normal_def Let_def)

lemma Load_names: "Load Y path content = Inr s \<Longrightarrow> names_normal (st_domains s)"
  by (auto simp: Load_def Let_def names_normal_def [of "[]"] intro!: load_names
      split: if_splits read_result.splits option.splits)

lemma finish_prune_names:
  assumes "splits_table (st_domains s) kept removed" "finish_prune Y fault s kept removed = (r, s')"
    "names_normal (st_domains s)"
  shows "names_normal (st_domains s')"
proof (cases r)
  case (Inl e)
  with assms show ?thesis using finish_prune_failed names_normal_same by blast
next
  case (Inr n)
  with assms finish_prune_done have "st_domains s' = kept" by blast
  moreover have "dom (map_of kept) \<subseteq> dom (map_of (st_domains s))"
    using splits_table_mem [OF assms(1)] by blast
  ultimately show ?thesis using assms(3) names_normal_mono by metis
qed

lemma PruneExpired_names:
  "store_ok s \<Longrightarrow> PruneExpired Y fault s ttl now = (r, s') \<Longrightarrow> names_normal (st_domains s) \<Longrightarrow> names_normal (st_domains s')"
  using finish_prune_names [OF splits_expired] by (auto simp: PruneExpired_def split: if_splits)

lemma PruneToLimit_names:
  assumes "store_ok s" "PruneToLimit Y fault s m = Some (r, s')" "names_normal (st_domains s)"
  shows "names_normal (st_domains s')"
proof (cases "0 < m")
  case True
  obtain kept removed where "finish_prune Y fault s kept removed = (r, s')" "splits_table (st_domains s) kept removed"
    by (rule PruneToLimit_cases [OF assms(1) True, of Y fault]) (use assms(2) in auto)
  then show ?thesis using finish_prune_names assms(3) by blast
next
  case False
  with assms show ?thesis by (simp add: PruneToLimit_def)
qed

lemma store_step_names:
  assumes ok: "store_ok s" and n: "names_normal (st_domains s)" and "store_step Y limit s s'"
  shows "names_normal (st_domains s')"
  using assms(3)
proof cases
  case (used host now b)
  then have "dom (map_of (st_domains s')) \<subseteq> dom (map_of (st_domains s))"
    by (auto simp: MarkUsed_def Let_def split: option.splits if_splits)
  then show ?thesis using names_normal_mono n by blast
next
  case (add fault now host upstream reason r)
  then show ?thesis
  proof (cases rule: AddWithLimit_cases)
    case (added content)
    then show ?thesis using n by (auto simp: names_normal_def with_new_def without_evicted_def split: option.splits)
  next
    case (undone err)
    then have "map_of (st_domains s') = map_of (st_domains s)" using map_of_put_back [OF ok refl] by simp
    then show ?thesis using n by (simp add: names_normal_def)
  qed (use n in simp_all)
next
  case (del fault host r)
  show ?thesis
  proof (cases r)
    case (Inl e)
    then show ?thesis using del Delete_failed names_normal_same n by blast
  next
    case (Inr b)
    then have "map_of (st_domains s') = (map_of (st_domains s))(normalizeHost host := None)"
      using del ok Delete_deleted by blast
    then show ?thesis using n by (auto simp: names_normal_def)
  qed
next
  case (expire fault ttl now n)
  then show ?thesis using PruneExpired_names [OF ok] assms(2) by blast
next
  case (shrink fault m n)
  then show ?thesis using PruneToLimit_names [OF ok] assms(2) by blast
next
  case (flush fault e)
  then show ?thesis using Flush_domains n by metis
qed

lemma reachable_names:
  assumes "0 < limit" "store_reachable Y limit s"
  shows "names_normal (st_domains s)"
  using assms(2)
proof induction
  case (start path content f1 f2 ttl now s)
  then obtain s0 r1 s1 r2 where l: "Load Y path content = Inr s0"
    and e: "PruneExpired Y f1 s0 ttl now = (Inr r1, s1)"
    and p: "PruneToLimit Y f2 s1 limit = Some (Inr r2, s)"
    by (auto simp: startup_store_def split: sum.splits prod.splits) (metis sum.exhaust)+
  have "store_ok s1" using PruneExpired_ok [OF Load_ok [OF l] e] by blast
  then show ?case
    using PruneToLimit_names [OF _ p] PruneExpired_names [OF Load_ok [OF l] e] Load_names [OF l] by blast
next
  case (step s s')
  then show ?case
    using store_step_names reachable_bounded [OF assms(1) step.hyps(1)] unfolding store_bounded_def by blast
qed

lemma entry_names:
  assumes "store_ok s" "names_normal (st_domains s)" "e \<in> set (Entries s)"
  shows "\<exists>host. ld_Host e = normalizeHost host"
proof -
  obtain k where "map_of (st_domains s) k = Some e"
    using assms(1,3) by (auto simp: Entries_set store_ok_iff wf_map_def dest!: table_ok_wf intro: map_of_is_SomeI)
  moreover from this have "ld_Host e = k" using assms(1) table_okD by (auto simp: store_ok_iff)
  ultimately show ?thesis using assms(2) by (auto simp: names_normal_def)
qed

section \<open>Properties\<close>

text \<open>The YAML package decodes what it encoded.\<close>

definition yaml_roundtrip :: "'y yaml \<Rightarrow> bool" where
  "yaml_roundtrip Y \<longleftrightarrow> (\<forall>f d. y_marshal Y f = Some d \<longrightarrow> y_unmarshal Y d = Some f)"

text \<open>A concrete package for the witnesses: the document is the value itself.\<close>

definition id_yaml :: "learnedFile yaml" where
  "id_yaml = \<lparr>y_marshal = Some, y_unmarshal = Some\<rparr>"

lemmas host_eval = normalizeHost_def TrimSuffix_def HasSuffix_def ToLower_def TrimSpace_def char_defs char_of_def bit_0

lemma id_yaml_roundtrip: "yaml_roundtrip id_yaml"
  by (simp add: yaml_roundtrip_def id_yaml_def)

definition empty_store :: "'y Store" where
  "empty_store = \<lparr>st_path = '''', st_domains = [], st_dirty = False, st_file = None\<rparr>"

lemma empty_store_ok: "store_ok empty_store"
  by (simp add: empty_store_def store_ok_def)

lemma empty_store_reachable: "0 < limit \<Longrightarrow> store_reachable Y limit empty_store"
  by (rule store_reachable.start [of Y "''''" ReadNotExist NoFault NoFault 0 limit 0])
    (simp add: startup_store_def Load_def PruneExpired_def PruneToLimit_def prune_loop.simps
      finish_prune_def empty_store_def)

text \<open>C6: in every history of the proxy the learned table keeps its invariant (one entry per
  key, stored under its own host name, with a non-empty host and upstream), the name of every
  entry is what \<open>normalizeHost\<close> makes of some host, and the table never holds more entries than
  the configured limit, whatever saves fail.\<close>

theorem learned_table_bounded:
  assumes "0 < limit" and "store_reachable Y limit s"
  shows "store_ok s \<and> int (length (Entries s)) \<le> limit
    \<and> (\<forall>e \<in> set (Entries s). \<exists>host. ld_Host e = normalizeHost host)"
  using reachable_bounded [OF assms] entry_names [OF _ reachable_names [OF assms]] by (simp add: store_bounded_def)

theorem learned_table_bounded_witness:
  "\<exists>s. store_reachable id_yaml 1 s \<and> Lookup s ''b'' \<noteq> None \<and> Lookup s ''a'' = None \<and>
     store_ok s \<and> int (length (Entries s)) \<le> 1"
proof -
  define s1 where "s1 = snd (AddWithLimit id_yaml NoFault 5 empty_store ''a'' ''vpn'' ''t'' 1)"
  define s2 where "s2 = snd (AddWithLimit id_yaml NoFault 6 s1 ''b'' ''vpn'' ''t'' 1)"
  have "store_reachable id_yaml 1 s1"
    unfolding s1_def by (rule store_reachable.step [OF empty_store_reachable store_step.add [OF prod.collapse [symmetric]]]) simp
  then have r: "store_reachable id_yaml 1 s2"
    unfolding s2_def by (rule store_reachable.step [OF _ store_step.add [OF prod.collapse [symmetric]]])
  moreover have "Lookup s2 ''b'' \<noteq> None \<and> Lookup s2 ''a'' = None"
    by (simp add: s2_def s1_def AddWithLimit_def empty_store_def saveLocked_def Lookup_def
        host_eval Let_def evictionCandidateLocked_def)
  ultimately show ?thesis using learned_table_bounded [OF _ r] by auto
qed

text \<open>C11: an operation whose save fails has no effect: the table, the file, the path and the dirty
  flag are those before the call, so the caller can retry.\<close>

theorem failed_save_is_undone:
  assumes "store_ok s"
  shows "(AddWithLimit Y fault now s host upstream reason limit = (Inl err, s') \<longrightarrow> same_store s s') \<and>
    (Delete Y fault s host = (Inl err, s') \<longrightarrow> same_store s s') \<and>
    (PruneExpired Y fault s ttl now = (Inl err, s') \<longrightarrow> same_store s s') \<and>
    (PruneToLimit Y fault s limit = Some (Inl err, s') \<longrightarrow> same_store s s') \<and>
    (Flush Y fault s = (Some err, s') \<longrightarrow> same_store s s')"
  using AddWithLimit_failed [OF assms] PruneExpired_failed [OF assms] PruneToLimit_failed [OF assms]
  by (auto intro: Delete_failed Flush_failed)

theorem failed_save_is_undone_witness:
  "\<exists>err s'. AddWithLimit id_yaml FailRename 9 \<lparr>st_path = ''f'', st_domains = [(''a'', new_entry ''a'' ''vpn'' ''t'' 5)],
       st_dirty = False, st_file = None\<rparr> ''b'' ''vpn'' ''t'' 1 = (Inl err, s') \<and>
     Lookup s' ''a'' \<noteq> None \<and> same_store \<lparr>st_path = ''f'', st_domains = [(''a'', new_entry ''a'' ''vpn'' ''t'' 5)],
       st_dirty = False, st_file = None\<rparr> s'"
proof -
  define s :: "learnedFile Store" where "s = \<lparr>st_path = ''f'', st_domains = [(''a'', new_entry ''a'' ''vpn'' ''t'' 5)],
       st_dirty = False, st_file = None\<rparr>"
  have ok: "store_ok s" by (simp add: s_def store_ok_def wf_map_def new_entry_def)
  obtain s' where r: "AddWithLimit id_yaml FailRename 9 s ''b'' ''vpn'' ''t'' 1 = (Inl RenameError, s')"
    by (simp add: s_def AddWithLimit_def saveLocked_def id_yaml_def
        host_eval Let_def evictionCandidateLocked_def new_entry_def)
  from failed_save_is_undone [OF ok] r have "same_store s s'" by blast
  moreover from this have "Lookup s' ''a'' \<noteq> None"
    by (simp add: same_store_def s_def Lookup_def host_eval)
  ultimately show ?thesis using r by (auto simp: s_def)
qed

text \<open>What an insertion means for the whole table: the new entry is bound to its host and every other
  host keeps its entry, but for the one evicted; one is evicted exactly when a new host meets a
  table at its limit, and it is the least recently used.\<close>

definition inserted :: "'y Store \<Rightarrow> 'y Store \<Rightarrow> LearnedDomain \<Rightarrow> int \<Rightarrow> LearnedDomain option \<Rightarrow> bool" where
  "inserted s s' e limit ev \<longleftrightarrow>
     map_of (st_domains s') (ld_Host e) = Some e \<and>
     (\<forall>k. k \<noteq> ld_Host e \<longrightarrow> map_of (st_domains s') k =
        (if (\<exists>x. ev = Some x \<and> ld_Host x = k) then None else map_of (st_domains s) k)) \<and>
     (ev \<noteq> None \<longleftrightarrow> map_of (st_domains s) (ld_Host e) = None \<and> 0 < limit \<and> limit \<le> int (length (Entries s))
        \<and> st_domains s \<noteq> []) \<and>
     (\<forall>x. ev = Some x \<longrightarrow> x \<in> set (Entries s) \<and> (\<forall>x' \<in> set (Entries s). x' \<noteq> x \<longrightarrow> lessRecentlyUsed x x'))"

lemma inserted_bound:
  "inserted s s' (new_entry h up reason now) limit ev \<Longrightarrow>
     map_of (st_domains s') h = Some (new_entry h up reason now)"
  by (simp add: inserted_def new_entry_def)

lemma AddWithLimit_inserted:
  assumes ok: "store_ok s"
    and r: "AddWithLimit Y fault now s host upstream reason limit = (Inr (True, ev), s')"
  shows "inserted s s' (new_entry (normalizeHost host) upstream reason now) limit ev"
proof -
  note a = AddWithLimit_added [OF ok r]
  have t: "table_ok (st_domains s)" using ok by (simp only: store_ok_iff)
  have "e \<in> set (Entries s) \<and> (\<forall>e' \<in> set (Entries s). e' \<noteq> e \<longrightarrow> lessRecentlyUsed e e')"
    if "ev = Some e" for e
  proof
    from that a(1) have c: "evictionCandidateLocked (st_domains s) = Some e"
      by (auto simp: evicts_def split: if_splits)
    from map_of_SomeD [OF candidate_member [OF t c]] show "e \<in> set (Entries s)"
      by (force simp: Entries_set)
    show "\<forall>e' \<in> set (Entries s). e' \<noteq> e \<longrightarrow> lessRecentlyUsed e e'"
      using lru.pick_least [OF table_ok_inj [OF t]] c by (simp add: evictionCandidate_pick Entries_set)
  qed
  moreover have "ev \<noteq> None \<longleftrightarrow> map_of (st_domains s) (normalizeHost host) = None \<and> 0 < limit
      \<and> limit \<le> int (length (Entries s)) \<and> st_domains s \<noteq> []"
    using a(1) candidate_exists [of "st_domains s"]
    by (auto simp: evicts_def evictionCandidateLocked_def)
  moreover have "\<forall>k. k \<noteq> normalizeHost host \<longrightarrow> map_of (st_domains s') k =
       (if (\<exists>e. ev = Some e \<and> ld_Host e = k) then None else map_of (st_domains s) k)"
    using a(2) by (auto simp: without_evicted_def split: option.splits)
  ultimately show ?thesis using a(2) by (simp add: inserted_def new_entry_def [of "normalizeHost host"])
qed

text \<open>C10: a successful insertion of a route binds exactly the normalized host to a fresh entry and
  leaves every other host as it was, but for the one evicted entry. An entry is evicted only
  when a new host meets a table at its limit, and it is then the least recently used one,
  whatever the order in which the map is visited.\<close>

theorem add_evicts_least_recently_used:
  assumes ok: "store_ok s"
    and r: "AddWithLimit Y fault now s host upstream reason limit = (Inr (True, ev), s')"
  shows "Lookup s' host = Some (new_entry (normalizeHost host) upstream reason now) \<and>
    (ev \<noteq> None \<longleftrightarrow> Lookup s host = None \<and> 0 < limit \<and> limit \<le> int (length (Entries s)) \<and> st_domains s \<noteq> []) \<and>
    (\<forall>e. ev = Some e \<longrightarrow> e \<in> set (Entries s) \<and> (\<forall>e' \<in> set (Entries s). e' \<noteq> e \<longrightarrow> lessRecentlyUsed e e')) \<and>
    (\<forall>k. k \<noteq> normalizeHost host \<longrightarrow> map_of (st_domains s') k =
       (if (\<exists>e. ev = Some e \<and> ld_Host e = k) then None else map_of (st_domains s) k)) \<and>
    (\<forall>t :: 'y Store. store_ok t \<and> set (st_domains t) = set (st_domains s) \<longrightarrow>
       evictionCandidateLocked (st_domains t) = evictionCandidateLocked (st_domains s))"
proof -
  have "table_ok (st_domains s)" using ok by (simp only: store_ok_iff)
  then have "evictionCandidateLocked (st_domains t) = evictionCandidateLocked (st_domains s)"
    if "set (st_domains t) = set (st_domains s)" for t :: "'y Store"
    using lru.pick_order_irrelevant [OF table_ok_inj, of "st_domains s" "map snd (st_domains t)"] that
    by (simp add: evictionCandidate_pick)
  with AddWithLimit_inserted [OF ok r] show ?thesis
    by (simp add: inserted_def Lookup_def new_entry_def [of "normalizeHost host"])
qed

theorem add_evicts_least_recently_used_witness:
  "\<exists>e s'. AddWithLimit id_yaml NoFault 9 (empty_store\<lparr>st_domains :=
       [(''a'', new_entry ''a'' ''vpn'' ''t'' 5), (''b'', (new_entry ''b'' ''vpn'' ''t'' 3)\<lparr>ld_LastUsedAt := 7\<rparr>)]\<rparr>)
       ''C.'' ''vpn'' ''t'' 2 = (Inr (True, Some e), s') \<and> ld_Host e = ''a'' \<and>
     Lookup s' ''C.'' = Some (new_entry ''c'' ''vpn'' ''t'' 9)"
proof -
  define s :: "learnedFile Store" where "s = empty_store\<lparr>st_domains :=
    [(''a'', new_entry ''a'' ''vpn'' ''t'' 5), (''b'', (new_entry ''b'' ''vpn'' ''t'' 3)\<lparr>ld_LastUsedAt := 7\<rparr>)]\<rparr>"
  have ok: "store_ok s" by (simp add: s_def store_ok_def wf_map_def new_entry_def)
  obtain s' where r: "AddWithLimit id_yaml NoFault 9 s ''C.'' ''vpn'' ''t'' 2 =
      (Inr (True, Some (new_entry ''a'' ''vpn'' ''t'' 5)), s')"
    by (simp add: s_def AddWithLimit_def saveLocked_def empty_store_def host_eval Let_def
        evictionCandidateLocked_def new_entry_def lessRecentlyUsed_def IsZero_def)
  have "Lookup s' ''C.'' = Some (new_entry ''c'' ''vpn'' ''t'' 9)"
    using add_evicts_least_recently_used [OF ok r, THEN conjunct1] by (simp add: host_eval)
  then show ?thesis using r by (auto simp: s_def new_entry_def)
qed

text \<open>C25: lowering the limit returns for every store and every limit: it removes the least number of
  entries that meets the limit, keeps the most recently used ones, and reports the number removed.\<close>

theorem prune_to_limit_keeps_most_recent:
  assumes ok: "store_ok s" and pos: "0 < limit"
  shows "\<exists>res s'. PruneToLimit Y fault s limit = Some (res, s') \<and>
    (\<forall>n. res = Inr n \<longrightarrow>
       int (length (Entries s')) = min limit (int (length (Entries s))) \<and>
       n = int (length (Entries s)) - int (length (Entries s')) \<and>
       (\<forall>k e. map_of (st_domains s') k = Some e \<longrightarrow> map_of (st_domains s) k = Some e) \<and>
       (\<forall>k r h e. map_of (st_domains s) k = Some r \<longrightarrow> map_of (st_domains s') k = None \<longrightarrow>
          map_of (st_domains s') h = Some e \<longrightarrow> lessRecentlyUsed r e))"
proof -
  obtain kept removed where p: "PruneToLimit Y fault s limit = Some (finish_prune Y fault s kept removed)"
    and split: "splits_table (st_domains s) kept removed"
    and len: "int (length kept) = min limit (int (length (st_domains s)))"
    and least: "\<And>k r h e. map_of removed k = Some r \<Longrightarrow> map_of kept h = Some e \<Longrightarrow> lessRecentlyUsed r e"
    using PruneToLimit_cases [OF ok pos] by metis
  obtain res s' where f: "finish_prune Y fault s kept removed = (res, s')" by fastforce
  have mem: "map_of (st_domains s) k = Some e \<longleftrightarrow> map_of kept k = Some e \<or> map_of removed k = Some e" for k e
    by (rule splits_table_mem [OF split])
  have "length (st_domains s) = length kept + length removed"
    using ok split by (rule splits_table_length)
  then have "\<forall>n. res = Inr n \<longrightarrow> st_domains s' = kept \<and> n = int (length (st_domains s)) - int (length kept)"
    using finish_prune_done f by fastforce
  with p f len least mem show ?thesis by (intro exI [of _ res] exI [of _ s']) auto
qed

theorem prune_to_limit_keeps_most_recent_witness:
  "\<exists>n s'. PruneToLimit id_yaml NoFault (empty_store\<lparr>st_domains :=
       [(''a'', new_entry ''a'' ''vpn'' ''t'' 5), (''b'', new_entry ''b'' ''vpn'' ''t'' 3)]\<rparr>) 1 = Some (Inr n, s') \<and>
     n = 1 \<and> map fst (st_domains s') = [''a'']"
proof -
  define s :: "learnedFile Store" where "s = empty_store\<lparr>st_domains :=
    [(''a'', new_entry ''a'' ''vpn'' ''t'' 5), (''b'', new_entry ''b'' ''vpn'' ''t'' 3)]\<rparr>"
  have ok: "store_ok s" by (simp add: s_def store_ok_def wf_map_def new_entry_def)
  have r: "PruneToLimit id_yaml NoFault s 1 = Some (Inr 1, s\<lparr>st_domains := [(''a'', new_entry ''a'' ''vpn'' ''t'' 5)]\<rparr>)"
    by (simp add: s_def PruneToLimit_def prune_loop.simps finish_prune_def saveLocked_def empty_store_def
        evictionCandidateLocked_def new_entry_def lessRecentlyUsed_def IsZero_def Let_def)
  from prune_to_limit_keeps_most_recent [OF ok, of 1 id_yaml NoFault] r
  have "1 = int (length (Entries s)) - 1" by simp
  then show ?thesis using r by (auto simp: s_def)
qed

text \<open>Expiry has one meaning everywhere: pruning with a lifetime removes exactly the entries
  that an active lookup with that lifetime refuses, and a non-positive lifetime refuses none.\<close>

theorem prune_expired_agrees_with_lookup:
  assumes ok: "store_ok s" and r: "PruneExpired Y fault s ttl now = (Inr n, s')"
  shows "Lookup s' host = LookupActive s host ttl now \<and> LookupActive s' host ttl now = Lookup s' host \<and>
    n = int (length (Entries s)) - int (length (Entries s'))"
proof (cases "ttl \<le> 0")
  case True
  with r have "s' = s" "n = 0" by (simp_all add: PruneExpired_def)
  with True show ?thesis by (auto simp: LookupActive_def split: option.splits)
next
  case False
  let ?kept = "filter (\<lambda>(host, entry). \<not> expired ttl now entry) (st_domains s)"
  from False r have f: "finish_prune Y fault s ?kept
      (filter (\<lambda>(host, entry). expired ttl now entry) (st_domains s)) = (Inr n, s')"
    by (simp add: PruneExpired_def)
  have wf: "wf_map (st_domains s)" using ok by (auto simp: store_ok_iff)
  show ?thesis
    using finish_prune_done [OF f] splits_table_length [OF ok splits_expired [OF ok, of ttl now]] False
    by (auto simp: Lookup_def LookupActive_def map_of_filter_wf_eq [OF wf] expired_def split: option.splits)
qed

theorem prune_expired_agrees_with_lookup_witness:
  "\<exists>s'. PruneExpired id_yaml NoFault (empty_store\<lparr>st_domains :=
       [(''a'', new_entry ''a'' ''vpn'' ''t'' 5), (''b'', new_entry ''b'' ''vpn'' ''t'' 30)]\<rparr>) 20 40 = (Inr 1, s') \<and>
     Lookup s' ''a'' = None \<and> Lookup s' ''b'' \<noteq> None"
proof -
  define s :: "learnedFile Store" where "s = empty_store\<lparr>st_domains :=
    [(''a'', new_entry ''a'' ''vpn'' ''t'' 5), (''b'', new_entry ''b'' ''vpn'' ''t'' 30)]\<rparr>"
  have ok: "store_ok s" by (simp add: s_def store_ok_def wf_map_def new_entry_def)
  obtain s' where r: "PruneExpired id_yaml NoFault s 20 40 = (Inr 1, s')"
    by (simp add: s_def PruneExpired_def finish_prune_def saveLocked_def empty_store_def
        expired_def time_Sub_def new_entry_def)
  from prune_expired_agrees_with_lookup [OF ok r, of "''a''"] prune_expired_agrees_with_lookup [OF ok r, of "''b''"]
  have "Lookup s' ''a'' = None \<and> Lookup s' ''b'' \<noteq> None"
    by (simp add: s_def LookupActive_def Lookup_def host_eval empty_store_def time_Sub_def new_entry_def)
  then show ?thesis using r by (auto simp: s_def)
qed

text \<open>A table read back from the list of its entries.\<close>

lemma foldl_load_entry:
  assumes "distinct (map ld_Host es)"
    and "\<forall>e \<in> set es. normalizeHost (ld_Host e) = ld_Host e \<and> ld_Host e \<noteq> '''' \<and> ld_Upstream e \<noteq> ''''"
  shows "map_of (foldl load_entry m es) = map_of m ++ map_of (map (\<lambda>e. (ld_Host e, e)) es)"
  using assms
proof (induction es arbitrary: m)
  case (Cons e es)
  then have "load_entry m e = AList.update (ld_Host e) e m"
    by (simp add: load_entry_def Let_def)
  moreover have "map_of (map (\<lambda>e. (ld_Host e, e)) es) (ld_Host e) = None"
    using Cons.prems(1) by (auto simp: map_of_eq_None_iff)
  ultimately show ?case using Cons
    by (auto simp: fun_eq_iff map_add_def split: option.splits)
qed simp

lemma map_of_hosts:
  assumes ok: "store_ok s"
  shows "map_of (map (\<lambda>e. (ld_Host e, e)) (Entries s)) = map_of (st_domains s)"
proof -
  let ?m = "map (\<lambda>e. (ld_Host e, e)) (Entries s)"
  have wf: "wf_map ?m" using Entries_distinct [OF ok] by (simp add: wf_map_def comp_def)
  have host: "ld_Host e = k" if "(k, e) \<in> set (st_domains s)" for k e
    using ok that by (auto simp: store_ok_def)
  have "set ?m = (\<lambda>p. (ld_Host (snd p), snd p)) ` set (st_domains s)"
    by (simp add: Entries_set image_image)
  also have "\<dots> = (\<lambda>p. p) ` set (st_domains s)"
    by (rule image_cong) (auto dest: host)
  finally have eq: "set ?m = set (st_domains s)" by simp
  have wf': "wf_map (st_domains s)" using ok by (simp add: store_ok_def)
  have "map_of ?m k = Some e \<longleftrightarrow> map_of (st_domains s) k = Some e" for k e
    by (simp only: wf_map_in_set [OF wf, symmetric] wf_map_in_set [OF wf', symmetric] eq)
  then show ?thesis by (rule map_eqI)
qed

text \<open>What a successful save writes, loading reads back: the loaded store answers every lookup as
  the saved one, provided the stored hosts are in normal form.\<close>

theorem saved_table_loads_back:
  assumes ok: "store_ok s" and canonical: "\<forall>e \<in> set (Entries s). normalizeHost (ld_Host e) = ld_Host e"
    and yaml: "yaml_roundtrip Y" and path: "st_path s \<noteq> ''''"
    and saved: "saveLocked Y fault s = (None, s')"
  shows "\<exists>data s2. st_file s' = Some data \<and> Load Y (st_path s) (ReadOk data) = Inr s2 \<and>
    Lookup s2 host = Lookup s host \<and> Entries s2 = Entries s"
proof -
  obtain data where d: "y_marshal Y \<lparr>lf_Version = 1, lf_Domains = Entries s\<rparr> = Some data"
    and s': "s' = s\<lparr>st_file := Some data\<rparr>"
    using saveLocked_success [OF saved path] by blast
  have u: "y_unmarshal Y data = Some \<lparr>lf_Version = 1, lf_Domains = Entries s\<rparr>"
    using yaml d by (simp add: yaml_roundtrip_def)
  define s2 where "s2 = \<lparr>st_path = st_path s, st_domains = foldl load_entry [] (Entries s),
    st_dirty = False, st_file = Some data\<rparr>"
  have l: "Load Y (st_path s) (ReadOk data) = Inr s2"
    using path u by (simp add: Load_def s2_def Let_def)
  have "\<forall>e \<in> set (Entries s). ld_Host e \<noteq> '''' \<and> ld_Upstream e \<noteq> ''''"
    using ok by (auto simp: store_ok_def Entries_set)
  with canonical have m: "map_of (st_domains s2) = map_of (st_domains s)"
    by (simp add: s2_def foldl_load_entry Entries_distinct [OF ok] map_of_hosts [OF ok])
  have "Entries s2 = Entries s"
    by (rule Entries_cong [OF Load_ok [OF l] ok m])
  with l s' m show ?thesis by (auto simp: Lookup_def)
qed

theorem saved_table_loads_back_witness:
  "\<exists>data s2. st_file (snd (saveLocked id_yaml NoFault (empty_store\<lparr>st_path := ''f'', st_domains :=
       [(''b'', new_entry ''b'' ''vpn'' ''t'' 5), (''a'', new_entry ''a'' ''vpn'' ''t'' 30)]\<rparr>))) = Some data \<and>
     Load id_yaml ''f'' (ReadOk data) = Inr s2 \<and> Lookup s2 ''A'' = Some (new_entry ''a'' ''vpn'' ''t'' 30)"
proof -
  define s :: "learnedFile Store" where "s = empty_store\<lparr>st_path := ''f'', st_domains :=
    [(''b'', new_entry ''b'' ''vpn'' ''t'' 5), (''a'', new_entry ''a'' ''vpn'' ''t'' 30)]\<rparr>"
  have ok: "store_ok s" by (simp add: s_def store_ok_def wf_map_def new_entry_def)
  have c: "\<forall>e \<in> set (Entries s). normalizeHost (ld_Host e) = ld_Host e"
    by (simp add: Entries_set s_def new_entry_def host_eval empty_store_def)
  have r: "saveLocked id_yaml NoFault s = (None, snd (saveLocked id_yaml NoFault s))"
    by (simp add: s_def saveLocked_def id_yaml_def)
  have p: "st_path s = ''f''" by (simp add: s_def)
  from saved_table_loads_back [OF ok c id_yaml_roundtrip _ r, of "''A''"] p
  show ?thesis by (auto simp: s_def Lookup_def host_eval empty_store_def)
qed

text \<open>While an expired route waits for the hourly pruning it cannot be learned again through the
  same upstream: the insertion after a successful fallback reports no change, leaves the learning
  time as it was, and every later active lookup still refuses the route.\<close>

theorem expired_route_not_relearned:
  assumes e: "Lookup s host = Some e" and ne: "normalizeHost host \<noteq> ''''" "ld_Upstream e \<noteq> ''''"
    and exp: "LookupActive s host ttl now = None" and later: "now \<le> later"
  shows "\<exists>s'. AddWithLimit Y fault now s host (ld_Upstream e) reason limit = (Inr (False, None), s') \<and>
    LookupActive s' host ttl later = None"
proof -
  have "AddWithLimit Y fault now s host (ld_Upstream e) reason limit = (Inr (False, None), s)"
    using ne e by (intro AddWithLimit_present) (auto simp: routed_to_def Lookup_def)
  moreover have "LookupActive s host ttl later = None"
    using e exp time_Sub_mono [OF later, of "ld_LearnedAt e"]
    by (auto simp: LookupActive_def split: if_splits)
  ultimately show ?thesis by blast
qed

theorem expired_route_not_relearned_witness:
  "\<exists>s'. AddWithLimit id_yaml NoFault 100 (empty_store\<lparr>st_domains := [(''a'', new_entry ''a'' ''vpn'' ''t'' 5)]\<rparr>)
       ''a'' ''vpn'' ''direct-timeout-upstream-success'' 10 = (Inr (False, None), s') \<and>
     LookupActive s' ''a'' 50 200 = None"
proof -
  define s :: "learnedFile Store" where "s = empty_store\<lparr>st_domains := [(''a'', new_entry ''a'' ''vpn'' ''t'' 5)]\<rparr>"
  have l: "Lookup s ''a'' = Some (new_entry ''a'' ''vpn'' ''t'' 5)"
    by (simp add: s_def Lookup_def host_eval)
  have x: "LookupActive s ''a'' 50 100 = None"
    using l by (simp add: LookupActive_def time_Sub_def new_entry_def)
  show ?thesis
    using expired_route_not_relearned [OF l _ _ x, of 200 id_yaml NoFault "''direct-timeout-upstream-success''" 10]
    by (simp add: s_def host_eval new_entry_def)
qed

text \<open>Normalization strips one final dot, so it is not idempotent, and the store keeps such hosts
  under a key that is not in normal form: a route learned for \<open>a..\<close> is found before a restart but
  not after it, and cannot be deleted by the host name the store lists for it.\<close>

theorem double_dot_host_is_lost:
  "\<exists>s1 listed data s2.
     AddWithLimit id_yaml NoFault 5 (empty_store\<lparr>st_path := ''f''\<rparr>) ''a..'' ''vpn'' ''t'' 0 = (Inr (True, None), s1) \<and>
     Lookup s1 ''a..'' \<noteq> None \<and> Entries s1 = [listed] \<and>
     fst (Delete id_yaml NoFault s1 (ld_Host listed)) = Inr False \<and>
     st_file s1 = Some data \<and> Load id_yaml ''f'' (ReadOk data) = Inr s2 \<and> Lookup s2 ''a..'' = None"
proof -
  let ?e = "new_entry ''a.'' ''vpn'' ''t'' 5"
  let ?f = "\<lparr>lf_Version = 1, lf_Domains = [?e]\<rparr>"
  let ?s1 = "\<lparr>st_path = ''f'', st_domains = [(''a.'', ?e)], st_dirty = False, st_file = Some ?f\<rparr>"
  let ?s2 = "\<lparr>st_path = ''f'', st_domains = [(''a'', ?e\<lparr>ld_Host := ''a''\<rparr>)], st_dirty = False, st_file = Some ?f\<rparr>"
  have a: "AddWithLimit id_yaml NoFault 5 (empty_store\<lparr>st_path := ''f''\<rparr>) ''a..'' ''vpn'' ''t'' 0 = (Inr (True, None), ?s1)"
    by (simp add: AddWithLimit_def saveLocked_def id_yaml_def empty_store_def host_eval Let_def Entries_def new_entry_def)
  have l: "Lookup ?s1 ''a..'' = Some ?e" by (simp add: Lookup_def host_eval)
  have n: "Entries ?s1 = [?e]" by (simp add: Entries_def)
  have d: "fst (Delete id_yaml NoFault ?s1 (ld_Host ?e)) = Inr False"
    by (simp add: Delete_def host_eval new_entry_def)
  have r: "Load id_yaml ''f'' (ReadOk ?f) = Inr ?s2"
    by (simp add: Load_def id_yaml_def load_entry_def host_eval new_entry_def)
  have "Lookup ?s2 ''a..'' = None" by (simp add: Lookup_def host_eval)
  with a l n d r show ?thesis by (intro exI [of _ ?s1] exI [of _ ?e] exI [of _ ?f] exI [of _ ?s2]) simp
qed

end
