(* ===== verification/Config_Props.thy ===== *)
theory Config_Props
  imports Config
begin

text \<open>
  Properties of the configuration: what the lines of a list file make of a host, what a
  configuration that \<open>LoadConfig\<close> accepts guarantees to the rest of the program, and which
  filters and policies a host gets.
\<close>

section \<open>List files\<close>

text \<open>The names a line of a list file carries, and the hosts a name stands for.\<close>

definition line_names :: "string \<Rightarrow> string list" where
  "line_names text_line =
     (let line = TrimSpace text_line
      in if line = '''' \<or> HasPrefix line ''#'' then []
         else filter (\<lambda>n. n \<noteq> '''')
                (map TrimSpace (Split CHR '','' (TrimSpace (takeWhile (\<lambda>c. c \<noteq> CHR '';'') line)))))"

definition list_names :: "string \<Rightarrow> string list" where
  "list_names content = concat (map (\<lambda>l. line_names (drop_cr l)) (raw_lines content))"

definition covers :: "string \<Rightarrow> string \<Rightarrow> bool" where
  "covers name host \<longleftrightarrow>
     (if HasPrefix name ''.'' then \<exists>p. label_chain p \<and> host = p @ TrimPrefix name ''.'' else host = name)"

definition covered :: "string \<Rightarrow> string \<Rightarrow> bool" where
  "covered content host \<longleftrightarrow> (\<exists>n \<in> set (list_names content). covers n (canonical_host host))"

lemma hd_SplitN2: "hd (SplitN2 c s) = takeWhile (\<lambda>x. x \<noteq> c) s"
proof (cases "c \<in> set s")
  case False
  then have "takeWhile (\<lambda>x. x \<noteq> c) s = s" by auto
  with False show ?thesis by (simp add: SplitN2_def del: takeWhile_eq_all_conv)
qed (simp add: SplitN2_def)

lemma MatchString_covers: "MatchString (TemplateToRegex n) host \<longleftrightarrow> covers n host"
proof (cases "HasPrefix n ''.''")
  case True
  then obtain t where "n = CHR ''.'' # t" by (auto simp: HasPrefix_iff)
  then show ?thesis by (simp add: match_suffix covers_def HasPrefix_iff TrimPrefix_def)
qed (simp add: match_exact covers_def)

lemma parse_line_matches:
  "list_ex (record_matches h) (parse_line l) \<longleftrightarrow> (\<exists>n \<in> set (line_names l). covers n h)"
  by (auto simp: parse_line_def line_names_def Let_def list_ex_iff record_matches_def MatchString_covers hd_SplitN2)

lemma LoadList_matches:
  assumes "LoadList (Some text) = Inr rs"
  shows "list_ex (record_matches (canonical_host host)) rs \<longleftrightarrow> covered text host"
proof -
  have "rs = concat (map (\<lambda>l. parse_line (drop_cr l)) (raw_lines text))"
    using assms by (simp add: LoadList_def Let_def split: option.splits)
  then have "list_ex (record_matches h) rs \<longleftrightarrow>
      (\<exists>l \<in> set (raw_lines text). list_ex (record_matches h) (parse_line (drop_cr l)))" for h
    by (auto simp: list_ex_iff)
  then show ?thesis
    by (auto simp: parse_line_matches covered_def list_names_def)
qed

lemma recordsMatch_ex: "recordsMatch rs host = list_ex (record_matches (canonical_host host)) rs"
  by (simp add: recordsMatch_def Let_def canonical_host_def)

lemma strategy_matches_ex:
  "strategy_matches s host = list_ex (record_matches (canonical_host host)) (sg_ListRecords s)"
  by (simp add: strategy_matches_def Let_def canonical_host_def)

text \<open>C21. The records of a list file match a host exactly when one of the names in the file
  covers the lower-cased, trimmed host: a name that starts with a dot covers its base domain
  and every chain of labels before it, any other name covers itself only. Comments, empty
  lines, the actions after a semicolon and the splitting at commas are those of the text.\<close>

theorem list_file_matches_its_names:
  assumes "LoadList (Some content) = Inr rs"
  shows "recordsMatch rs host \<longleftrightarrow> (\<exists>n \<in> set (list_names content). covers n (canonical_host host))"
  using LoadList_matches [OF assms] by (simp add: recordsMatch_ex covered_def)

lemma covers_upper:
  assumes "covers n (canonical_host host)" "c \<in> set n"
  shows "\<not> is_upper c"
proof (cases "c \<in> set (canonical_host host)")
  case False
  then have "HasPrefix n ''.''" "c \<notin> set (TrimPrefix n ''.'')"
    using assms by (auto simp: covers_def split: if_splits)
  then have "c = CHR ''.''" using assms(2) by (auto simp: TrimPrefix_def HasPrefix_iff)
  then show ?thesis by (simp add: char_defs)
qed (rule canonical_host_not_upper)

text \<open>A name with an upper-case letter in a list file covers no host at all: hosts are
  lower-cased before the match and the names of the file are not. So a list file with the one
  name \<^verbatim>\<open>.Example.com\<close> loads without an error and matches nothing, not even the host the file
  spells.\<close>

theorem upper_case_name_matches_nothing:
  assumes "LoadList (Some content) = Inr rs" "\<forall>n \<in> set (list_names content). \<exists>c \<in> set n. is_upper c"
  shows "\<not> recordsMatch rs host"
  using LoadList_matches [OF assms(1)] assms(2) covers_upper
  unfolding recordsMatch_ex covered_def by blast

section \<open>An accepted configuration\<close>

lemma LoadConfig_Inr:
  assumes "LoadConfig decoded baseDir read_file = Inr c"
  obtains c0 c1 ss where "decoded = Some c0"
    "load_filters read_file baseDir (set_defaults baseDir c0) = Inr c1"
    "load_strategies read_file baseDir c1 (cf_Strategy c1) = Inr ss"
    "c = c1\<lparr>cf_Strategy := ss\<rparr>" "Validate c = None"
  using assms by (auto simp: LoadConfig_def Let_def split: option.splits sum.splits)


lemma Validate_None:
  assumes "Validate c = None"
  shows "check_duration (px_ShutdownTimeout (cf_Proxy c)) BadShutdownTimeout (\<lambda>t. 0 < t) NonPositiveShutdownTimeout = None"
    "\<forall>nu \<in> set (cf_Upstreams c). check_upstream nu = None"
    "check_duration (dt_ProbeFailureBackoff (cf_Detection c)) BadBackoff (\<lambda>b. 0 < b) NonPositiveBackoff = None"
    "check_duration (dt_FirstResponseTimeout (cf_Detection c)) BadFirstResponseTimeout (\<lambda>_. True) BadFirstResponseTimeout = None"
    "check_duration (dt_ProbeTimeout (cf_Detection c)) BadProbeTimeout (\<lambda>_. True) BadProbeTimeout = None"
    "0 \<le> dt_LearnedMaxEntries (cf_Detection c)"
    "check_duration (dt_LearnedDomainTTL (cf_Detection c)) BadTTL (\<lambda>t. 0 \<le> t) NegativeTTL = None"
    "0 \<le> ad_Port (cf_Admin c)" "ad_Port (cf_Admin c) \<le> 65535"
    "check_health (cf_UpstreamHealth c) = None"
    "\<forall>s \<in> set (cf_Strategy c). check_strategy c s = None"
    "validatePolicy c ''default'' (dp_Egress (cf_Default c)) (dp_DPI (cf_Default c))
       (dp_Upstream (cf_Default c)) (dp_Fallback (cf_Default c)) = None"
  using assms by (auto simp: Validate_def Let_def first_error_None split: if_splits)






section \<open>Policies of an accepted configuration\<close>

lemma first_match_mem: "first_match host ss = Some s \<Longrightarrow> s \<in> set ss \<and> strategy_matches s host"
  by (induction ss) (auto split: if_splits)

definition policy_ok :: "Config \<Rightarrow> ResolvedPolicy \<Rightarrow> bool" where
  "policy_ok c p \<longleftrightarrow> rp_Egress p \<in> {''direct'', ''socks5''} \<and> rp_DPI p \<in> {''none'', ''fragment'', ''fake-sni''}
     \<and> (rp_Egress p = ''socks5'' \<longrightarrow> map_of (cf_Upstreams c) (rp_Upstream p) \<noteq> None)"

lemma validatePolicy_None:
  "validatePolicy c n e d u f = None \<longleftrightarrow>
     e \<in> {''direct'', ''socks5''} \<and> d \<in> {''none'', ''fragment'', ''fake-sni''}
     \<and> (e = ''socks5'' \<longrightarrow> map_of (cf_Upstreams c) u \<noteq> None)
     \<and> (f = '''' \<or> f = ''none'' \<or> map_of (cf_Upstreams c) f \<noteq> None)"
  by (auto simp: validatePolicy_def)

lemma valid_policies:
  assumes "Validate c = None"
  shows "policy_ok c (PolicyFor c host l)
     \<and> (let f = rp_Fallback (PolicyFor c host l) in f = '''' \<or> f = ''none'' \<or> map_of (cf_Upstreams c) f \<noteq> None
         \<or> (first_match host (cf_Strategy c) = None \<and> dp_Fallback (cf_Default c) = ''''
            \<and> f = dt_FallbackUpstream (cf_Detection c)))"
proof (cases "first_match host (cf_Strategy c)")
  case None
  then show ?thesis using Validate_None(12) [OF assms]
    by (auto simp: PolicyFor_def Let_def policy_ok_def validatePolicy_None)
next
  case (Some s)
  then have "validatePolicy c (sg_Name s) (sg_Egress s) (sg_DPI s) (sg_Upstream s) (sg_Fallback s) = None"
    using Validate_None(11) [OF assms] first_match_mem by (auto simp: check_strategy_def)
  then show ?thesis using Some
    by (auto simp: PolicyFor_def Let_def policy_ok_def validatePolicy_None)
qed

text \<open>The policy the configuration itself gives a host, before learned routes: the fields of the
  first strategy whose list matches the host, or else those of the default section, with the
  fallback of the detection section when it names none.\<close>

definition static_policy :: "Config \<Rightarrow> string \<Rightarrow> ResolvedPolicy \<Rightarrow> bool" where
  "static_policy c host p \<longleftrightarrow>
     (\<exists>i < length (cf_Strategy c). let s = cf_Strategy c ! i in
        strategy_matches s host \<and> (\<forall>j < i. \<not> strategy_matches (cf_Strategy c ! j) host)
        \<and> rp_Name p = sg_Name s \<and> rp_Egress p = sg_Egress s \<and> rp_DPI p = sg_DPI s
        \<and> rp_Upstream p = sg_Upstream s \<and> rp_Fallback p = sg_Fallback s \<and> rp_Params p = sg_Params s)
     \<or> (\<forall>s \<in> set (cf_Strategy c). \<not> strategy_matches s host)
        \<and> rp_Name p = ''default'' \<and> rp_Egress p = dp_Egress (cf_Default c) \<and> rp_DPI p = dp_DPI (cf_Default c)
        \<and> rp_Upstream p = dp_Upstream (cf_Default c) \<and> rp_Params p = None
        \<and> rp_Fallback p = (if dp_Fallback (cf_Default c) = '''' then dt_FallbackUpstream (cf_Detection c)
                           else dp_Fallback (cf_Default c))"

lemma first_match_nth:
  "first_match host ss = Some s \<Longrightarrow>
     \<exists>i < length ss. ss ! i = s \<and> strategy_matches s host \<and> (\<forall>j < i. \<not> strategy_matches (ss ! j) host)"
proof (induction ss)
  case (Cons x ss)
  show ?case
  proof (cases "strategy_matches x host")
    case False
    then obtain i where "i < length ss" "ss ! i = s" "strategy_matches s host"
        "\<forall>j < i. \<not> strategy_matches (ss ! j) host"
      using Cons by auto
    then show ?thesis using False
      by (intro exI [of _ "Suc i"]) (auto simp: nth_Cons split: nat.splits)
  qed (use Cons.prems in auto)
qed simp

lemma first_match_none: "first_match host ss = None \<longleftrightarrow> (\<forall>s \<in> set ss. \<not> strategy_matches s host)"
  by (induction ss) auto

lemma PolicyFor_static:
  assumes "map_of (cf_Upstreams c) l = None"
  shows "static_policy c host (PolicyFor c host l)"
proof (cases "first_match host (cf_Strategy c)")
  case None
  then show ?thesis using assms
    by (simp add: static_policy_def PolicyFor_def Let_def flip: first_match_none)
next
  case (Some s)
  then show ?thesis using assms first_match_nth [OF Some]
    by (auto simp: static_policy_def PolicyFor_def Let_def)
qed

text \<open>C33. Under an accepted configuration every host gets a policy that can be carried out,
  whatever the table of learned routes says: the egress and the mode are ones the session
  handler knows, and an egress through a proxy names a configured upstream. The policy is the
  one of the configuration itself, that of the first strategy whose list matches the host or
  the default, except that a learned upstream takes over exactly when it is configured, the
  static policy is direct and its fallback is not \<open>none\<close>: then the egress is that upstream,
  without a mode, and the rest of the policy stays.\<close>

theorem accepted_config_policies_are_routable:
  assumes "LoadConfig decoded baseDir read_file = Inr c"
  shows "\<exists>p. static_policy c host p \<and> policy_ok c p \<and> policy_ok c (PolicyFor c host learned)
    \<and> PolicyFor c host learned =
        (if map_of (cf_Upstreams c) learned \<noteq> None \<and> rp_Egress p = ''direct'' \<and> rp_Fallback p \<noteq> ''none''
         then p\<lparr>rp_Name := ''learned-domain'', rp_Egress := ''socks5'', rp_DPI := ''none'', rp_Upstream := learned\<rparr>
         else p)"
proof -
  obtain ok: "Validate c = None" using assms by (rule LoadConfig_Inr)
  obtain l where l: "map_of (cf_Upstreams c) l = None"
  proof -
    have "finite (dom (map_of (cf_Upstreams c)))" by (rule finite_dom_map_of)
    moreover have "infinite (UNIV :: string set)" by (rule infinite_UNIV_listI)
    ultimately show ?thesis using that by (metis UNIV_eq_I domIff)
  qed
  have *: "policy_ok c (PolicyFor c host l)" "policy_ok c (PolicyFor c host learned)"
    using valid_policies [OF ok] by blast+
  from this(1) l have "PolicyFor c host learned =
     (let p = PolicyFor c host l
      in if map_of (cf_Upstreams c) learned \<noteq> None \<and> rp_Egress p = ''direct'' \<and> rp_Fallback p \<noteq> ''none''
         then p\<lparr>rp_Name := ''learned-domain'', rp_Egress := ''socks5'', rp_DPI := ''none'', rp_Upstream := learned\<rparr>
         else p)"
    by (auto simp: PolicyFor_def Let_def policy_ok_def split: option.splits)
  with PolicyFor_static [OF l] * show ?thesis unfolding Let_def by blast
qed

section \<open>The learning filters of an accepted configuration\<close>

definition listed :: "(string \<Rightarrow> string option) \<Rightarrow> string \<Rightarrow> string \<Rightarrow> string \<Rightarrow> bool" where
  "listed read_file baseDir path host \<longleftrightarrow>
     (case read_file (resolve_path baseDir path) of None \<Rightarrow> False | Some content \<Rightarrow> covered content host)"

lemma load_filter_Inr:
  assumes "load_filter rf base path = Inr (p, r)"
  shows "(path = '''' \<and> p = '''' \<and> r = None)
    \<or> (path \<noteq> '''' \<and> p \<noteq> '''' \<and> (\<exists>rs. r = Some rs \<and> (\<forall>host. recordsMatch rs host = listed rf base path host)))"
proof (cases "path = ''''")
  case False
  then obtain content rs where "rf (resolve_path base path) = Some content" "LoadList (Some content) = Inr rs"
      "p = resolve_path base path" "r = Some rs"
    using assms by (cases "rf (resolve_path base path)")
      (auto simp: load_filter_def Let_def LoadList_def [of None] split: sum.splits)
  moreover have "resolve_path base path \<noteq> ''''"
    using False by (simp add: resolve_path_def JoinPath_def)
  ultimately show ?thesis using False
    by (simp add: listed_def recordsMatch_ex LoadList_matches)
qed (use assms in \<open>simp add: load_filter_def\<close>)

lemma set_defaults_lists [simp]:
  "dt_LearnAllowList (cf_Detection (set_defaults b c)) = dt_LearnAllowList (cf_Detection c)"
  "dt_LearnDenyList (cf_Detection (set_defaults b c)) = dt_LearnDenyList (cf_Detection c)"
  "dt_LearnDenyRecords (cf_Detection (set_defaults b c)) = dt_LearnDenyRecords (cf_Detection c)"
  by (simp_all add: set_defaults_def Let_def)

text \<open>The learning filters decide on the text of their files: after a successful load a host
  may be learned exactly when no name in the deny file covers it and, if an allow file is
  configured, some name in that file does. The deny file wins over the allow file.\<close>

theorem learning_filters_follow_their_files:
  assumes "LoadConfig (Some c0) baseDir read_file = Inr c" "dt_LearnDenyRecords (cf_Detection c0) = []"
  shows "fst (CanLearn (cf_Detection c) host) \<longleftrightarrow>
    \<not> (dt_LearnDenyList (cf_Detection c0) \<noteq> ''''
        \<and> listed read_file baseDir (dt_LearnDenyList (cf_Detection c0)) host)
    \<and> (dt_LearnAllowList (cf_Detection c0) = ''''
        \<or> listed read_file baseDir (dt_LearnAllowList (cf_Detection c0)) host)"
proof -
  let ?d = "cf_Detection c0"
  obtain c1 where c1: "load_filters read_file baseDir (set_defaults baseDir c0) = Inr c1"
      and c: "cf_Detection c = cf_Detection c1"
    using assms(1) by (rule LoadConfig_Inr) auto
  obtain pa ra pd rd where a: "load_filter read_file baseDir (dt_LearnAllowList ?d) = Inr (pa, ra)"
      and d: "load_filter read_file baseDir (dt_LearnDenyList ?d) = Inr (pd, rd)"
      and l: "dt_LearnAllowList (cf_Detection c) = pa"
        "\<forall>x. ra = Some x \<longrightarrow> dt_LearnAllowRecords (cf_Detection c) = x"
        "dt_LearnDenyRecords (cf_Detection c) = (case rd of None \<Rightarrow> [] | Some r \<Rightarrow> r)"
    using c1 assms(2) unfolding c
    by (auto simp: load_filters_def Let_def cong: option.case_cong split: sum.splits)
  have "recordsMatch [] host = False" by (simp add: recordsMatch_def)
  then show ?thesis
    using load_filter_Inr [OF a] load_filter_Inr [OF d] l
    by (auto simp: CanLearn_def)
qed

section \<open>Concrete configurations\<close>

text \<open>A document with one proxy and one list of hosts, as the YAML decoder would give it.\<close>

definition sample_document :: "string \<Rightarrow> string \<Rightarrow> Config" where
  "sample_document fallback deny =
     \<lparr>cf_Proxy = \<lparr>px_Address = ''127.0.0.1'', px_Port = 1080, px_ShutdownTimeout = ''''\<rparr>,
      cf_Admin = \<lparr>ad_Address = '''', ad_Port = 0\<rparr>,
      cf_FakeSni = \<lparr>fs_Interface = '''', fs_Ttl = 0\<rparr>,
      cf_Upstreams = [(''vpn'', \<lparr>up_Address = ''p:1'', up_Username = '''', up_Password = '''', up_ConnectTimeout = ''''\<rparr>)],
      cf_UpstreamHealth = \<lparr>uh_Enabled = True, uh_Interval = ''5s'', uh_Timeout = '''',
        uh_FailureThreshold = 0, uh_Cooldown = ''''\<rparr>,
      cf_Detection = \<lparr>dt_FirstResponseTimeout = '''', dt_ProbeTimeout = '''', dt_ProbeFailureBackoff = '''',
        dt_FallbackUpstream = fallback, dt_LearnedDomainsFile = ''/l'', dt_LearnedDomainTTL = '''',
        dt_LearnedMaxEntries = 0, dt_LearnAllowList = '''', dt_LearnDenyList = deny,
        dt_LearnAllowRecords = [], dt_LearnDenyRecords = []\<rparr>,
      cf_Default = \<lparr>dp_Egress = '''', dp_DPI = '''', dp_Upstream = '''', dp_Fallback = ''''\<rparr>,
      cf_Strategy = []\<rparr>"

definition sample_files :: "string \<Rightarrow> string option" where
  "sample_files path = (if path = ''/deny'' then Some ''.ru'' else None)"

definition sample_config :: "string \<Rightarrow> string \<Rightarrow> DomainRecord list \<Rightarrow> Config" where
  "sample_config fallback deny rs =
     (let c = sample_document fallback deny
      in c\<lparr>cf_Default := (cf_Default c)\<lparr>dp_Egress := ''direct'', dp_DPI := ''none''\<rparr>,
           cf_Detection := (cf_Detection c)\<lparr>dt_LearnDenyRecords := rs\<rparr>\<rparr>)"

lemmas load_eval = LoadConfig_def load_filters_def load_filter_def set_defaults_def Let_def AdminEnabled_def
  IsAbs_def HasPrefix_def Validate_def check_duration_def check_upstream_def TrimSpace_def char_defs char_of_def
  check_health_def validatePolicy_def ParseDuration_examples bit_0 resolve_path_def

lemmas list_eval = LoadList_def line_error_def ValidString_def char_code_def raw_lines_def newline_def max_token_def drop_cr_def TrimSuffix_def
  HasSuffix_def parse_line_def parse_actions_def SplitN2_def list_names_def line_names_def

lemma sample_loads:
  "LoadConfig (Some (sample_document f '''')) ''/etc'' sample_files = Inr (sample_config f '''' [])"
  by (simp add: sample_document_def sample_config_def load_eval)

lemma sample_deny_loads:
  "LoadConfig (Some (sample_document f ''/deny'')) ''/etc'' sample_files = Inr (sample_config f ''/deny''
    [\<lparr>dr_RegexpText = ''.ru'', dr_Regexp = Some (TemplateToRegex ''.ru''), dr_Actions = None\<rparr>])"
  by (simp add: sample_document_def sample_config_def load_eval list_eval sample_files_def)

lemma sample_deny_list:
  "listed sample_files ''/etc'' ''/deny'' ''shop.ru''"
proof -
  have "label_chain (''shop'' @ CHR ''.'' # '''')"
    by (rule label_chain.more) (auto intro: label_chain.none)
  then have "covers ''.ru'' ''shop.ru''"
    by (auto simp: covers_def HasPrefix_def TrimPrefix_def intro!: exI [of _ "''shop.''"])
  moreover have "list_names ''.ru'' = [''.ru'']" "canonical_host ''shop.ru'' = ''shop.ru''"
    by (simp_all add: list_eval canonical_host_def ToLower_def TrimSpace_def char_defs char_of_def bit_0 Let_def HasPrefix_def)
  ultimately show ?thesis
    by (simp add: listed_def sample_files_def resolve_path_def IsAbs_def HasPrefix_def covered_def)
qed

lemma list_file_matches_its_names_witness:
  "\<exists>rs. LoadList (Some ''.ru'') = Inr rs \<and> recordsMatch rs ''shop.ru''"
proof -
  obtain rs where r: "LoadList (Some ''.ru'') = Inr rs"
    by (simp add: list_eval TrimSpace_def char_defs char_of_def bit_0 Let_def HasPrefix_def)
  show ?thesis
    using r list_file_matches_its_names [OF r, of "''shop.ru''"] sample_deny_list
    by (simp add: listed_def sample_files_def resolve_path_def IsAbs_def HasPrefix_def covered_def)
qed

lemma upper_case_name_matches_nothing_witness:
  "\<exists>rs. LoadList (Some ''Ya.ru'') = Inr rs \<and> \<not> recordsMatch rs ''Ya.ru''"
proof -
  obtain rs where r: "LoadList (Some ''Ya.ru'') = Inr rs"
    by (simp add: list_eval TrimSpace_def char_defs char_of_def bit_0 Let_def HasPrefix_def)
  have "list_names ''Ya.ru'' = [''Ya.ru'']"
    by (simp add: list_eval TrimSpace_def char_defs char_of_def bit_0 Let_def HasPrefix_def)
  then have "\<forall>n \<in> set (list_names ''Ya.ru''). \<exists>c \<in> set n. is_upper c"
    by (simp add: char_defs)
  then have "\<not> recordsMatch rs ''Ya.ru''"
    by (rule upper_case_name_matches_nothing [OF r])
  with r show ?thesis by blast
qed


lemma accepted_config_policies_are_routable_witness:
  "policy_ok (sample_config ''vpn'' '''' []) (PolicyFor (sample_config ''vpn'' '''' []) ''a.org'' ''vpn'')
   \<and> rp_Upstream (PolicyFor (sample_config ''vpn'' '''' []) ''a.org'' ''vpn'') = ''vpn''"
  using accepted_config_policies_are_routable [OF sample_loads, of "''vpn''" "''a.org''" "''vpn''"]
  by (auto simp: sample_config_def sample_document_def static_policy_def)

lemma learning_filters_follow_their_files_witness:
  "\<exists>c. LoadConfig (Some (sample_document ''vpn'' ''/deny'')) ''/etc'' sample_files = Inr c
     \<and> \<not> fst (CanLearn (cf_Detection c) ''shop.ru'')"
  using learning_filters_follow_their_files [OF sample_deny_loads, of "''vpn''" "''shop.ru''"] sample_deny_list sample_deny_loads
  by (simp add: sample_document_def)

text \<open>\<open>LoadConfig\<close> checks the fallback of every strategy but not the one of the default policy
  that comes from \<^verbatim>\<open>detection.fallback-upstream\<close>: a document that names a proxy there that it
  does not configure is accepted, and every host of the default policy gets that fallback.\<close>

theorem unknown_default_fallback_accepted:
  "\<exists>c. LoadConfig (Some (sample_document ''gone'' '''')) ''/etc'' sample_files = Inr c
     \<and> map_of (cf_Upstreams c) ''gone'' = None
     \<and> (\<forall>host. rp_Fallback (PolicyFor c host '''') = ''gone'' \<and> rp_Egress (PolicyFor c host '''') = ''direct'')"
  using sample_loads [of "''gone''"] by (simp add: sample_config_def sample_document_def PolicyFor_def)

end
