(* ===== verification/Session_Props.thy ===== *)
theory Session_Props
  imports Session Learned_Props Config_Props
begin

text \<open>
  Properties of a session up to the connection: what client and server understand of each other,
  the replies a client gets, the breaker protocol of a dial, when a host is learned and what the
  next session makes of it, and the probe for blocked hosts.
\<close>

section \<open>Reading from a connection\<close>

lemma ReadFull_prefix:
  "length xs = n \<Longrightarrow> cn_in c = xs @ rest \<Longrightarrow> ReadFull n c = (Inr xs, c\<lparr>cn_in := rest\<rparr>)"
  by (simp add: ReadFull_def)

lemma ReadFull_length: "ReadFull n c = (Inr xs, c') \<Longrightarrow> length xs = n"
  by (auto simp: ReadFull_def split: if_splits)

lemma ReadFull_frame:
  "ReadFull n c = (r, c') \<Longrightarrow> cn_out c' = cn_out c \<and> cn_script c' = cn_script c"
  by (auto simp: ReadFull_def split: if_splits)

lemma be16_nth: "PutUint16 p = [a, b] \<Longrightarrow> be16 a b = p"
  using Uint16_PutUint16 [of p "[]"] by simp

section \<open>A chain of proxies\<close>

text \<open>The host and the kind of address a server reads from the request of the client.\<close>

definition seen_by_server :: "string \<Rightarrow> session_error + (string \<times> bool)" where
  "seen_by_server host =
     (case ParseIP host of
        None \<Rightarrow> Inr (host, False)
      | Some ip \<Rightarrow> (case To4 ip of None \<Rightarrow> Inl IPv6NotSupported | Some ip4 \<Rightarrow> Inr (ip4_string ip4, True)))"


lemma ip4_prefix_length [simp]: "length ip4_prefix = 12"
  by (simp add: ip4_prefix_def)

lemma To4_length: "To4 ip = Some ip4 \<Longrightarrow> length ip4 = 4"
  by (auto simp: To4_def split: if_splits)

lemma unat_of_nat_u8: "n \<le> 255 \<Longrightarrow> unat (of_nat n :: u8) = n"
  by (simp add: unat_of_nat take_bit_eq_mod)

text \<open>C20. The proxy understands its own client: when a proxy of this kind is the upstream of
  another, it reads from the CONNECT request exactly the port and the host of the client (an
  IPv4 address in its standard form), consumes exactly the request, and refuses a target that
  the client sends as an IPv6 address. Its answer to the greeting is the one the client accepts
  without credentials.\<close>

theorem server_understands_client:
  assumes "connect_request host port = Some req" "cn_in c = req @ rest"
  shows "(case seen_by_server host of
       Inr (h, ip) \<Rightarrow> read_request c = (Inr \<lparr>rq_host = h, rq_port = port, rq_isIP = ip\<rparr>, c\<lparr>cn_in := rest\<rparr>)
     | Inl e \<Rightarrow> fst (read_request c) = Inl e)
   \<and> (cn_script c2 = [] \<longrightarrow> cn_in c2 = greeting u @ rest \<longrightarrow>
        AuthRequest c2 = (None, c2\<lparr>cn_in := rest, cn_out := cn_out c2 @ [5, 0]\<rparr>))"
proof
  obtain p1 p2 where p: "PutUint16 port = [p1, p2]" by (simp add: PutUint16_def)
  note b = be16_nth [OF p]
  show "case seen_by_server host of
       Inr (h, ip) \<Rightarrow> read_request c = (Inr \<lparr>rq_host = h, rq_port = port, rq_isIP = ip\<rparr>, c\<lparr>cn_in := rest\<rparr>)
     | Inl e \<Rightarrow> fst (read_request c) = Inl e"
  proof (cases "ParseIP host")
    case None
    then have req: "req = [5, 1, 0] @ [3, of_nat (length host)] @ bytes_of_string host @ PutUint16 port"
        and l: "length host \<le> 255"
      using assms(1) by (auto simp: connect_request_def split: if_splits)
    then show ?thesis using assms(2) None unat_of_nat_u8 [OF l]
      by (simp add: seen_by_server_def read_request_def read_address_def socksVersion_def p b
          ReadFull_prefix [of "[5, 1, 0, 3]"] ReadFull_prefix [of "[of_nat (length host)]"]
          ReadFull_prefix [of "bytes_of_string host"] ReadFull_prefix [of "[p1, p2]"])
  next
    case (Some ip)
    show ?thesis
    proof (cases "To4 ip")
      case None
      then have "req = [5, 1, 0] @ [4] @ ip @ PutUint16 port"
        using assms(1) Some by (simp add: connect_request_def)
      then show ?thesis using assms(2) Some None
        by (simp add: seen_by_server_def read_request_def read_address_def socksVersion_def
            ReadFull_prefix [of "[5, 1, 0, 4]"])
    next
      case ip4: (Some ip4)
      then have "req = [5, 1, 0] @ [1] @ ip4 @ PutUint16 port"
        using assms(1) Some by (simp add: connect_request_def)
      then show ?thesis using assms(2) Some ip4 To4_length [OF ip4]
        by (simp add: seen_by_server_def read_request_def read_address_def socksVersion_def p b
            ReadFull_prefix [of "[5, 1, 0, 1]"] ReadFull_prefix [of ip4] ReadFull_prefix [of "[p1, p2]"])
    qed
  qed
  show "cn_script c2 = [] \<longrightarrow> cn_in c2 = greeting u @ rest \<longrightarrow>
        AuthRequest c2 = (None, c2\<lparr>cn_in := rest, cn_out := cn_out c2 @ [5, 0]\<rparr>)"
    by (auto simp: AuthRequest_def greeting_def socksVersion_def Write_def
        ReadFull_prefix [of "[5, 1]"] ReadFull_prefix [of "[5, 2]"] ReadFull_prefix [of "[0]"] ReadFull_prefix [of "[0, 2]"])
qed

lemma server_understands_client_witness:
  "read_request (open_conn ([5, 1, 0, 3, 4] @ bytes_of_string ''a.io'' @ [1, 187]))
     = (Inr \<lparr>rq_host = ''a.io'', rq_port = 443, rq_isIP = False\<rparr>, open_conn [])"
proof -
  have ip: "ParseIP ''a.io'' = None"
    by (simp add: ParseIP_def parseIPv4_def)
  have "PutUint16 443 = [1, 187]" by (simp add: PutUint16_def drop_bit_eq_div)
  then have r: "connect_request ''a.io'' 443 = Some ([5, 1, 0, 3, 4] @ bytes_of_string ''a.io'' @ [1, 187])"
    by (simp add: connect_request_def ip)
  show ?thesis
    using server_understands_client [OF r, of "open_conn ([5, 1, 0, 3, 4] @ bytes_of_string ''a.io'' @ [1, 187])" "[]"]
    by (simp add: open_conn_def seen_by_server_def ip)
qed

section \<open>Replies\<close>

lemma Write_unscripted: "cn_script c = [] \<Longrightarrow> Write c d = ((length d, None), c\<lparr>cn_out := cn_out c @ d\<rparr>)"
  by (simp add: Write_def)

lemma read_address_frame:
  "read_address a c = (r, c') \<Longrightarrow> cn_out c' = cn_out c \<and> cn_script c' = cn_script c"
  by (auto simp: read_address_def dest!: ReadFull_frame split: if_splits sum.splits prod.splits)

lemma read_request_frame:
  "read_request c = (r, c') \<Longrightarrow> cn_out c' = cn_out c \<and> cn_script c' = cn_script c"
  by (auto simp: read_request_def dest!: ReadFull_frame read_address_frame split: if_splits sum.splits prod.splits)

lemma successReply_shape:
  "take 3 (successReply a) = [5, 0, 0] \<and>
   (length (successReply a) = 10 \<and> successReply a ! 3 = 1 \<or> length (successReply a) = 22 \<and> successReply a ! 3 = 4)"
  by (auto simp: successReply_def socksVersion_def dest: To4_length split: local_addr.split option.split)

text \<open>C16. A client gets exactly one reply to a request that could be read, and none to one that
  could not: the reply says success, with an address of the length its type announces, exactly
  when the session has a connection to the target, and otherwise it is the ten bytes of a
  failure.\<close>

theorem request_gets_one_reply:
  assumes "cn_script c = []" "ProcessRequest Y fault ev cfg c w = (res, c')"
  shows "(sr_error res = None \<longleftrightarrow> sr_target res \<noteq> None) \<and>
    (case sr_request res of
       None \<Rightarrow> cn_out c' = cn_out c \<and> sr_error res \<noteq> None
     | Some rq \<Rightarrow>
         (case sr_target res of
            None \<Rightarrow> cn_out c' = cn_out c @ failure_reply
          | Some t \<Rightarrow> cn_out c' = cn_out c @ successReply (tg_local t)
               \<and> take 3 (successReply (tg_local t)) = [5, 0, 0]
               \<and> (length (successReply (tg_local t)) = 10 \<and> successReply (tg_local t) ! 3 = 1
                  \<or> length (successReply (tg_local t)) = 22 \<and> successReply (tg_local t) ! 3 = 4)))"
proof -
  obtain rr c1 where rd: "read_request c = (rr, c1)" by (cases "read_request c")
  then have c1: "cn_out c1 = cn_out c" "cn_script c1 = []"
    using read_request_frame assms(1) by auto
  show ?thesis
  proof (cases rr)
    case (Inl e)
    then show ?thesis using assms(2) rd c1 by (auto simp: ProcessRequest_def)
  next
    case (Inr rq)
    obtain r p w1 where d: "dial_target Y fault ev cfg (route_for ev cfg (rq_host rq) w) rq w = (r, p, w1)"
      by (metis prod.collapse)
    show ?thesis
      using assms(2) rd c1 Inr d successReply_shape
      by (cases r) (auto simp: ProcessRequest_def Write_unscripted Let_def split: if_splits)
  qed
qed

section \<open>Dials and the circuit breaker\<close>

lemma Allow_False_same: "Allow t n m = (False, m') \<Longrightarrow> m' = m"
  by (auto simp: Allow_def split: if_splits option.splits)

lemma Record_settles: "\<not> busy n (snd (Record t n e m))"
  by (cases e) (auto simp: busy_def Record_at after_result_def Let_def split: if_splits)

lemma Record_other_busy: "n' \<noteq> n \<Longrightarrow> busy n' (snd (Record t n e m)) = busy n' m"
  by (simp add: busy_def)

lemma Allow_other_busy: "n' \<noteq> n \<Longrightarrow> busy n' (snd (Allow t n m)) = busy n' m"
  by (simp add: busy_def)

lemma dialUpstream_cases [consumes 1]:
  assumes "dialUpstream ev cfg name host port (Some m) = (r, m')"
  obtains
    (unknown) "map_of (cf_Upstreams cfg) name = None" "r = Inl (UnknownUpstreamName name)" "m' = Some m"
  | (rejected) u where "map_of (cf_Upstreams cfg) name = Some u" "\<not> fst (Allow (ev_allow ev) name m)"
      "r = Inl (CircuitOpen name)" "m' = Some m"
  | (failed) u e where "map_of (cf_Upstreams cfg) name = Some u" "fst (Allow (ev_allow ev) name m)"
      "ev_dial ev u host port = Inl e" "r = Inl (UpstreamDialError e)"
      "m' = Some (snd (Record (ev_record ev) name (Some e) (snd (Allow (ev_allow ev) name m))))"
  | (connected) u t where "map_of (cf_Upstreams cfg) name = Some u" "fst (Allow (ev_allow ev) name m)"
      "ev_dial ev u host port = Inr t" "r = Inr t"
      "m' = Some (snd (Record (ev_record ev) name None (snd (Allow (ev_allow ev) name m))))"
proof (cases "map_of (cf_Upstreams cfg) name")
  case None
  then show ?thesis using assms unknown by (simp add: dialUpstream_def)
next
  case (Some u)
  obtain ok m1 where a: "Allow (ev_allow ev) name m = (ok, m1)" by (cases "Allow (ev_allow ev) name m")
  show ?thesis
  proof (cases ok)
    case False
    then show ?thesis using assms Some a rejected [OF Some] Allow_False_same [of "ev_allow ev" name m m1]
      by (simp add: dialUpstream_def Allow_opt_def)
  next
    case True
    then show ?thesis using assms Some a failed [OF Some] connected [OF Some]
      by (cases "ev_dial ev u host port") (simp_all add: dialUpstream_def Allow_opt_def Record_opt_def)
  qed
qed

text \<open>What the breaker has on record after a dial that it admitted: nothing for a name it does not
  manage, and otherwise the answer of the network, at the time it was reported.\<close>

definition recorded ::
  "UpstreamHealth \<Rightarrow> time \<Rightarrow> string + 'a \<Rightarrow> managedState option \<Rightarrow> managedState option \<Rightarrow> bool" where
  "recorded cfg now answer before after \<longleftrightarrow>
     (case before of
        None \<Rightarrow> after = None
      | Some s \<Rightarrow>
          (\<exists>s'. after = Some s' \<and> us_LastCheck s' = now \<and>
             (case answer of
                Inr _ \<Rightarrow> us_Health s' = ''healthy'' \<and> us_Circuit s' = ''closed'' \<and> us_ConsecutiveFailures s' = 0
                  \<and> us_LastSuccess s' = now \<and> us_LastError s' = ''''
              | Inl e \<Rightarrow> us_Health s' = ''unhealthy'' \<and> us_LastError s' = e
                  \<and> us_ConsecutiveFailures s' = us_ConsecutiveFailures s + 1
                  \<and> us_LastSuccess s' = us_LastSuccess s
                  \<and> us_Circuit s' = (if us_Circuit s \<noteq> ''closed''
                       \<or> uh_Enabled cfg \<and> Threshold cfg \<le> us_ConsecutiveFailures s + 1 then ''open'' else ''closed'')
                  \<and> (us_Circuit s' = ''open'' \<longrightarrow> us_OpenUntil s' = now + OpenCooldown cfg))))"

lemma admitted_state:
  assumes "manager_ok m" "fst (Allow t name m)" "map_of (mg_states m) name = Some s"
  shows "\<exists>s1. map_of (mg_states (snd (Allow t name m))) name = Some s1
    \<and> us_ConsecutiveFailures s1 = us_ConsecutiveFailures s \<and> us_LastSuccess s1 = us_LastSuccess s
    \<and> (if us_Circuit s = ''closed'' then us_Circuit s1 = ''closed'' else us_Circuit s1 = ''half-open'' \<and> uh_Enabled (mg_config m))"
  using assms manager_okD [OF assms(1,3)]
  by (auto simp: Allow_def put_state_def breaker_ok_def split: if_splits)

lemma recorded_dial:
  assumes "manager_ok m" "fst (Allow t name m)"
  shows "recorded (mg_config m) now r (map_of (mg_states m) name)
     (map_of (mg_states (snd (Record now name (case r of Inl e \<Rightarrow> Some e | Inr _ \<Rightarrow> None) (snd (Allow t name m))))) name)"
proof (cases "map_of (mg_states m) name")
  case None
  then show ?thesis by (simp add: recorded_def Record_at Allow_def)
next
  case (Some s)
  obtain s1 where s1: "map_of (mg_states (snd (Allow t name m))) name = Some s1"
      "us_ConsecutiveFailures s1 = us_ConsecutiveFailures s" "us_LastSuccess s1 = us_LastSuccess s"
      "if us_Circuit s = ''closed'' then us_Circuit s1 = ''closed'' else us_Circuit s1 = ''half-open'' \<and> uh_Enabled (mg_config m)"
    using admitted_state [OF assms Some] by blast
  show ?thesis
    using s1(4) by (cases r; cases "us_Circuit s = ''closed''")
      (simp_all add: recorded_def Record_at after_result_def Let_def Some s1(1-3))
qed

text \<open>C17. A dial never leaves the breaker waiting: if it was admitted, its result is recorded and
  the in-flight mark of its upstream is gone; if it was not, the manager is unchanged; the
  marks of other upstreams are untouched and the consistency of the manager is kept. A rejected
  dial never reaches the network, an admitted one reports exactly what the network answered,
  to its caller and to the breaker: after a success the state of the upstream is healthy and
  closed with no failure, after a failure it is unhealthy with one failure more and the error of
  the network, and the circuit is open if it was not closed or the threshold is reached.\<close>

theorem dial_always_reports_to_breaker:
  assumes "dialUpstream ev cfg name host port (Some m) = (r, m1)" "manager_ok m"
  shows "\<exists>m'. m1 = Some m' \<and> manager_ok m' \<and> mg_config m' = mg_config m
    \<and> (\<forall>n. n \<noteq> name \<longrightarrow> map_of (mg_states m') n = map_of (mg_states m) n)
    \<and> (if map_of (cf_Upstreams cfg) name = None \<or> \<not> fst (Allow (ev_allow ev) name m)
       then m' = m \<and> r \<in> {Inl (UnknownUpstreamName name), Inl (CircuitOpen name)}
       else \<not> busy name m'
         \<and> (case r of
              Inr t \<Rightarrow> ev_dial ev (the (map_of (cf_Upstreams cfg) name)) host port = Inr t
                \<and> circuit_of m' name \<in> {None, Some ''closed''}
            | Inl e \<Rightarrow> \<exists>x. e = UpstreamDialError x
                \<and> ev_dial ev (the (map_of (cf_Upstreams cfg) name)) host port = Inl x)
         \<and> recorded (mg_config m) (ev_record ev) (ev_dial ev (the (map_of (cf_Upstreams cfg) name)) host port)
             (map_of (mg_states m) name) (map_of (mg_states m') name))"
  using assms(1)
proof (cases rule: dialUpstream_cases)
  case (failed u e)
  then show ?thesis using assms(2) recorded_dial [OF assms(2), of "ev_allow ev" name "ev_record ev" "Inl e"]
    by (simp add: Record_ok Allow_ok Record_settles)
next
  case (connected u t)
  then show ?thesis using assms(2) recorded_dial [OF assms(2), of "ev_allow ev" name "ev_record ev" "Inr t"]
    by (auto simp: Record_ok Allow_ok Record_settles circuit_of_def Record_at after_result_def Let_def map_option_case
        split: option.split)
qed (use assms(2) in \<open>auto simp: Record_ok Allow_ok Record_settles\<close>)

section \<open>Learning\<close>

definition same_routes :: "'y Store \<Rightarrow> 'y Store \<Rightarrow> bool" where
  "same_routes s s' \<longleftrightarrow>
     (\<forall>k. map_option ld_Upstream (map_of (st_domains s') k) = map_option ld_Upstream (map_of (st_domains s) k))"

lemma AddWithLimit_effect:
  assumes "store_ok s" "AddWithLimit Y fault now s host up reason limit = (r, s')"
  shows "store_ok s'" "same_routes s s' \<or> (\<exists>ev. inserted s s' (new_entry (normalizeHost host) up reason now) limit ev)"
proof -
  show "store_ok s'" by (rule AddWithLimit_ok [OF assms])
  show "same_routes s s' \<or> (\<exists>ev. inserted s s' (new_entry (normalizeHost host) up reason now) limit ev)"
    using assms(2)
  proof (cases rule: AddWithLimit_cases)
    case (added content)
    then show ?thesis using AddWithLimit_inserted [OF assms(1)] assms(2) by blast
  next
    case (undone err)
    then show ?thesis using map_of_put_back [OF assms(1) refl] by (simp add: same_routes_def)
  qed (simp_all add: same_routes_def)
qed

lemma MarkUsed_effect: "store_ok s \<Longrightarrow> store_ok (snd (MarkUsed s h t)) \<and> same_routes s (snd (MarkUsed s h t))"
  using MarkUsed_ok [of s h t "fst (MarkUsed s h t)" "snd (MarkUsed s h t)"]
  by (auto simp: MarkUsed_def same_routes_def Let_def split: option.split)

text \<open>The outcome of the dial of a request, in the three ways a session can get a connection.\<close>

definition learned_after :: "'y yaml \<Rightarrow> save_fault \<Rightarrow> env \<Rightarrow> Config \<Rightarrow> string \<Rightarrow> string \<Rightarrow> 'y Store \<Rightarrow> 'y Store" where
  "learned_after Y fault ev cfg host up st =
     (if \<not> fst (CanLearn (cf_Detection cfg) host) then st
      else snd (AddWithLimit Y fault (ev_later ev) st host up
             ''direct-connect-failure-upstream-success'' (LearnedLimit (cf_Detection cfg))))"

lemma dial_target_cases [consumes 1]:
  assumes "dial_target Y fault ev cfg policy rq w = (r, policy', w')"
  obtains
    (plain) "wd_learned w' = wd_learned w" "policy' = policy"
      "fallback_allowed policy \<Longrightarrow>
        ev_direct ev (JoinHostPort (rq_host rq) (Itoa (unat (rq_port rq)))) = None \<Longrightarrow> \<exists>e. r = Inl e"
  | (fell_back) t where "fallback_allowed policy"
      "ev_direct ev (JoinHostPort (rq_host rq) (Itoa (unat (rq_port rq)))) = None" "r = Inr t"
      "\<exists>u. map_of (cf_Upstreams cfg) (rp_Fallback policy) = Some u \<and> ev_dial ev u (rq_host rq) (rq_port rq) = Inr t"
      "policy' = policy\<lparr>rp_Name := ''connect-fallback'', rp_Egress := ''socks5'', rp_DPI := ''none'',
         rp_Upstream := rp_Fallback policy\<rparr>"
      "wd_learned w' = map_option (learned_after Y fault ev cfg (rq_host rq) (rp_Fallback policy)) (wd_learned w)"
proof (cases "fallback_allowed policy \<and> ev_direct ev (JoinHostPort (rq_host rq) (Itoa (unat (rq_port rq)))) = None")
  case no: False
  then have "wd_learned w' = wd_learned w" "policy' = policy"
    using assms by (auto simp: dial_target_def split: if_splits option.splits prod.splits)
  with no show ?thesis by (intro plain) auto
next
  case True
  then have direct: "rp_Egress policy \<noteq> ''socks5''" by (simp add: fallback_allowed_def)
  obtain d m where d: "dialUpstream ev cfg (rp_Fallback policy) (rq_host rq) (rq_port rq) (wd_manager w) = (d, m)"
    by (metis prod.collapse)
  show ?thesis
  proof (cases d)
    case (Inl e)
    then show ?thesis using assms True direct d
      by (intro plain) (auto simp: dial_target_def connectAfterDirectFailure_def Let_def)
  next
    case (Inr t)
    then obtain u where "map_of (cf_Upstreams cfg) (rp_Fallback policy) = Some u" "ev_dial ev u (rq_host rq) (rq_port rq) = Inr t"
      using d by (auto simp: dialUpstream_def split: option.splits prod.splits bool.splits sum.splits)
    then show ?thesis using assms True direct d Inr
      by (intro fell_back [of t])
        (auto simp: dial_target_def connectAfterDirectFailure_def learned_after_def Let_def map_option_case split: option.splits)
  qed
qed

lemma ProcessRequest_cases [consumes 1]:
  assumes "ProcessRequest Y fault ev cfg c w = (res, c')"
  obtains
    (refused) "sr_world res = w" "sr_target res = None" "sr_policy res = None"
  | (dialed) rq r policy w1 where "sr_request res = Some rq" "sr_policy res = Some policy"
      "dial_target Y fault ev cfg (route_for ev cfg (rq_host rq) w) rq w = (r, policy, w1)"
      "sr_world res = w1 \<or> (rp_Name policy = ''learned-domain'' \<and> sr_world res = w1\<lparr>wd_learned :=
          map_option (\<lambda>st. snd (MarkUsed st (rq_host rq) (ev_later ev))) (wd_learned w1)\<rparr>)"
proof -
  obtain rr c1 where rd: "read_request c = (rr, c1)" by (cases "read_request c")
  show ?thesis
  proof (cases rr)
    case (Inl e)
    then show ?thesis using assms rd by (intro refused) (auto simp: ProcessRequest_def)
  next
    case (Inr rq)
    obtain r p w1 where d: "dial_target Y fault ev cfg (route_for ev cfg (rq_host rq) w) rq w = (r, p, w1)"
      by (metis prod.collapse)
    show ?thesis
    proof (cases "rq_host rq = ''0.0.0.0''")
      case True
      then show ?thesis using assms rd Inr by (intro refused) (auto simp: ProcessRequest_def)
    next
      case False
      then show ?thesis using assms rd Inr d
        by (intro dialed [of rq p r w1])
          (auto simp: ProcessRequest_def Let_def split: sum.splits prod.splits option.splits if_splits)
    qed
  qed
qed

lemma session_learning:
  assumes "ProcessRequest Y fault ev cfg c w = (res, c')" "wd_learned w = Some st" "store_ok st"
  shows "\<exists>st'. wd_learned (sr_world res) = Some st' \<and> store_ok st' \<and>
    (same_routes st st' \<or>
     (\<exists>rq. sr_request res = Some rq \<and>
       (let policy = route_for ev cfg (rq_host rq) w; h = normalizeHost (rq_host rq) in
        fallback_allowed policy
        \<and> ev_direct ev (JoinHostPort (rq_host rq) (Itoa (unat (rq_port rq)))) = None
        \<and> (\<exists>u t. map_of (cf_Upstreams cfg) (rp_Fallback policy) = Some u
             \<and> ev_dial ev u (rq_host rq) (rq_port rq) = Inr t)
        \<and> fst (CanLearn (cf_Detection cfg) (rq_host rq))
        \<and> map_of (st_domains st') h = Some (new_entry h (rp_Fallback policy)
             ''direct-connect-failure-upstream-success'' (ev_later ev))
        \<and> (\<exists>gone. inserted st st' (new_entry h (rp_Fallback policy)
             ''direct-connect-failure-upstream-success'' (ev_later ev)) (LearnedLimit (cf_Detection cfg)) gone))))"
  using assms(1)
proof (cases rule: ProcessRequest_cases)
  case refused
  then show ?thesis using assms(2,3) by (auto simp: same_routes_def)
next
  case (dialed rq r policy w1)
  show ?thesis using dialed(3)
  proof (cases rule: dial_target_cases)
    case plain
    then show ?thesis using dialed(4) assms(2,3) MarkUsed_effect [OF assms(3), of "rq_host rq" "ev_later ev"]
      by (auto simp: same_routes_def)
  next
    case (fell_back t)
    let ?st1 = "learned_after Y fault ev cfg (rq_host rq) (rp_Fallback (route_for ev cfg (rq_host rq) w)) st"
    have w1: "wd_learned (sr_world res) = Some ?st1"
      using dialed(4) fell_back assms(2) by auto
    show ?thesis
    proof (cases "fst (CanLearn (cf_Detection cfg) (rq_host rq))")
      case False
      then show ?thesis using w1 assms(3) by (simp add: learned_after_def same_routes_def)
    next
      case True
      then have "store_ok ?st1" "same_routes st ?st1 \<or> (\<exists>e. inserted st ?st1
          (new_entry (normalizeHost (rq_host rq)) (rp_Fallback (route_for ev cfg (rq_host rq) w))
            ''direct-connect-failure-upstream-success'' (ev_later ev)) (LearnedLimit (cf_Detection cfg)) e)"
        using AddWithLimit_effect [OF assms(3) prod.collapse [symmetric]] by (simp_all add: learned_after_def)
      then show ?thesis using w1 dialed(1) fell_back True by (auto simp: Let_def dest: inserted_bound)
    qed
  qed
qed

text \<open>C3. A session changes the learned routes in one situation only: the policy of the requested
  host was direct and allows a fallback, the direct dial failed, the fallback proxy connected
  to the same host and port, and the learning filters allow the host. Then the route of that
  host is set to that proxy by a fresh entry, and every other host keeps its entry, but for the
  least recently used one when a new host meets a table at its limit (\<open>inserted\<close>). In every other
  run each host keeps its route, whatever else happens.\<close>

theorem session_learns_only_after_fallback:
  assumes "ProcessRequest Y fault ev cfg c w = (res, c')" "wd_learned w = Some st" "store_ok st"
  shows "\<exists>st'. wd_learned (sr_world res) = Some st' \<and> store_ok st' \<and>
    (same_routes st st' \<or>
     (\<exists>rq. sr_request res = Some rq \<and>
       (let policy = route_for ev cfg (rq_host rq) w; h = normalizeHost (rq_host rq) in
        fallback_allowed policy
        \<and> ev_direct ev (JoinHostPort (rq_host rq) (Itoa (unat (rq_port rq)))) = None
        \<and> (\<exists>u t. map_of (cf_Upstreams cfg) (rp_Fallback policy) = Some u
             \<and> ev_dial ev u (rq_host rq) (rq_port rq) = Inr t)
        \<and> fst (CanLearn (cf_Detection cfg) (rq_host rq))
        \<and> map_of (st_domains st') h = Some (new_entry h (rp_Fallback policy)
             ''direct-connect-failure-upstream-success'' (ev_later ev))
        \<and> (\<exists>gone. inserted st st' (new_entry h (rp_Fallback policy)
             ''direct-connect-failure-upstream-success'' (ev_later ev)) (LearnedLimit (cf_Detection cfg)) gone))))"
  by (rule session_learning [OF assms])

lemma direct_route_static:
  assumes "fallback_allowed (PolicyFor cfg host l)"
  shows "PolicyFor cfg host l' = (if map_of (cf_Upstreams cfg) l' \<noteq> None
    then (PolicyFor cfg host l)\<lparr>rp_Name := ''learned-domain'', rp_Egress := ''socks5'', rp_DPI := ''none'', rp_Upstream := l'\<rparr>
    else PolicyFor cfg host l)"
  using assms by (auto simp: PolicyFor_def Let_def fallback_allowed_def split: option.splits if_splits)

text \<open>C13. What a session learned decides the next one: after a session that fell back and added
  the host, a session for the same host within the lifetime of the entry gets a policy that goes
  through the same proxy at once, without another direct attempt.\<close>

theorem next_session_uses_learned_route:
  assumes "ProcessRequest Y fault ev cfg c w = (res, c')" "wd_learned w = Some st" "store_ok st"
    and rq: "sr_request res = Some rq" and new: "Lookup st (rq_host rq) = None"
    and st': "wd_learned (sr_world res) = Some st'" "Lookup st' (rq_host rq) \<noteq> None"
    and young: "LearnedTTL (cf_Detection cfg) \<le> 0 \<or> time_Sub (ev_now ev') (ev_later ev) < LearnedTTL (cf_Detection cfg)"
  shows "\<exists>up. rp_Fallback (route_for ev cfg (rq_host rq) w) = up
    \<and> route_for ev' cfg (rq_host rq) (sr_world res) = (route_for ev cfg (rq_host rq) w)
        \<lparr>rp_Name := ''learned-domain'', rp_Egress := ''socks5'', rp_DPI := ''none'', rp_Upstream := up\<rparr>"
proof -
  let ?h = "normalizeHost (rq_host rq)" and ?p = "route_for ev cfg (rq_host rq) w"
  have "\<not> same_routes st st'" using new st'(2) by (auto simp: same_routes_def Lookup_def intro!: exI [of _ ?h])
  then obtain u where u: "fallback_allowed ?p" "map_of (cf_Upstreams cfg) (rp_Fallback ?p) = Some u"
      and e: "map_of (st_domains st') ?h = Some (new_entry ?h (rp_Fallback ?p)
             ''direct-connect-failure-upstream-success'' (ev_later ev))"
    using session_learning [OF assms(1,2,3)] rq st' by (auto simp: Let_def)
  have "LookupActive st' (rq_host rq) (LearnedTTL (cf_Detection cfg)) (ev_now ev') =
      Some (new_entry ?h (rp_Fallback ?p) ''direct-connect-failure-upstream-success'' (ev_later ev))"
    using e young by (auto simp: LookupActive_def Lookup_def new_entry_def)
  then have "route_for ev' cfg (rq_host rq) (sr_world res) = PolicyFor cfg (rq_host rq) (rp_Fallback ?p)"
    using st' by (simp add: route_for_def new_entry_def)
  moreover obtain l where l: "?p = PolicyFor cfg (rq_host rq) l" by (simp add: route_for_def Let_def)
  ultimately show ?thesis using direct_route_static [of cfg "rq_host rq" l "rp_Fallback ?p"] u by simp
qed

section \<open>The probe for blocked hosts\<close>

lemma AddWithLimit_routes:
  assumes "AddWithLimit Y fault now s host up reason limit = (r, s')" "store_ok s"
  shows "(\<exists>x. r = Inr x) \<longrightarrow> routed_to s' (normalizeHost host) up" "(\<exists>e. r = Inl e) \<longrightarrow> same_routes s s'"
  using assms(1)
proof (atomize (full), cases rule: AddWithLimit_cases)
  case (added content)
  then show "((\<exists>x. r = Inr x) \<longrightarrow> routed_to s' (normalizeHost host) up) \<and> ((\<exists>e. r = Inl e) \<longrightarrow> same_routes s s')"
    by (simp add: with_new_def routed_to_def new_entry_def)
next
  case (undone err)
  then show "((\<exists>x. r = Inr x) \<longrightarrow> routed_to s' (normalizeHost host) up) \<and> ((\<exists>e. r = Inl e) \<longrightarrow> same_routes s s')"
    using map_of_put_back [OF assms(2) refl] by (simp add: same_routes_def)
qed (simp_all add: same_routes_def)

lemma Start_backoff:
  "0 < retryAfter \<Longrightarrow> t < retryAfter \<Longrightarrow> \<not> fst (fst (Start host t (Done host retryAfter p)))"
  by (auto simp: Start_def Done_def Let_def IsZero_def)

text \<open>A probe for a host that seems blocked always gives its place back: afterwards the host is
  not marked active (unless another session's probe of it was already running, and then this
  one does nothing), no other host is affected, and the table stays within its bound. The host
  is routed through the fallback, and the session closed for a retry, only if the direct
  target stayed silent throughout and the learning filters allow the host; otherwise every
  route stays. After a failed probe, no probe for the host starts before the backoff ends.\<close>

theorem probe_releases_its_host:
  assumes "monitorBlockCandidate Y fault pe cfg policy rq host hello p w = Ok (p', w', closed)"
    and "probes_ok p" "wd_learned w = Some st" "store_ok st" "0 < pe_retry_from pe + FailureBackoff (cf_Detection cfg)"
  shows "probes_ok p' \<and> (\<forall>h. h \<noteq> normalizeProbeHost host \<longrightarrow> active_in p' h = active_in p h)
    \<and> (if active_in p (normalizeProbeHost host) then active_in p' (normalizeProbeHost host) \<and> w' = w \<and> \<not> closed
       else \<not> active_in p' (normalizeProbeHost host))
    \<and> (\<exists>st'. wd_learned w' = Some st' \<and>
        (if closed
         then \<not> pe_answered pe \<and> \<not> pe_answered_later pe \<and> fst (CanLearn (cf_Detection cfg) host)
           \<and> routed_to st' (normalizeHost host) (rp_Fallback policy)
         else same_routes st st'))
    \<and> (\<not> closed \<and> fst (fst (Start host (pe_start pe) p)) \<and> \<not> pe_answered pe \<and> \<not> pe_answered_later pe
        \<and> fst (CanLearn (cf_Detection cfg) host) \<longrightarrow>
         (\<forall>t < pe_retry_from pe + FailureBackoff (cf_Detection cfg). \<not> fst (fst (Start host t p'))))"
proof (cases "pe_answered pe \<or> \<not> fst (CanLearn (cf_Detection cfg) host) \<or> \<not> fst (fst (Start host (pe_start pe) p))")
  case True
  then have r: "w' = w" "\<not> closed" "p' = p \<or> p' = snd (Start host (pe_start pe) p)"
      "p' = p \<or> \<not> fst (fst (Start host (pe_start pe) p))"
    using assms(1) by (auto simp: monitorBlockCandidate_def split: if_splits prod.splits bool.splits)
  have "wf_map p" using assms(2) by (simp add: probes_ok_def)
  then show ?thesis using r True assms(2,3) Start_ok [OF assms(2)]
    by (auto simp: Start_active same_routes_def)
next
  case False
  let ?R = "pe_retry_from pe + FailureBackoff (cf_Detection cfg)"
  obtain x p1 where s: "Start host (pe_start pe) p = ((True, x), p1)" using False by (metis prod.collapse)
  have wf: "wf_map p" using assms(2) by (simp add: probes_ok_def)
  have p1: "probes_ok p1" "\<And>h. active_in p1 h = (active_in p h \<or> h = normalizeProbeHost host)"
      "\<not> active_in p (normalizeProbeHost host)"
    using Start_ok [OF assms(2), of host "pe_start pe"] Start_active [OF wf, of host "pe_start pe"]
      Start_refuses_active [of p host "pe_start pe"] s by auto
  have released: "probes_ok (Done host t p1) \<and> (\<forall>h. h \<noteq> normalizeProbeHost host \<longrightarrow> active_in (Done host t p1) h = active_in p h)
      \<and> \<not> active_in (Done host t p1) (normalizeProbeHost host)" for t
    using Done_ok [OF p1(1), of host t] p1(2) by (simp add: Done_other Done_inactive)
  obtain ar s1 where A: "AddWithLimit Y fault (pe_end pe) st host (rp_Fallback policy)
      ''direct-timeout-upstream-success'' (LearnedLimit (cf_Detection cfg)) = (ar, s1)" by (metis prod.collapse)
  have "same_routes st st" by (simp add: same_routes_def)
  then have "(p' = Done host ?R p1 \<and> \<not> closed \<and> (\<exists>st'. wd_learned w' = Some st' \<and> same_routes st st'))
      \<or> (p' = Done host 0 p1 \<and> pe_answered_later pe \<and> \<not> closed \<and> wd_learned w' = Some st)
      \<or> (p' = Done host 0 p1 \<and> \<not> pe_answered_later pe \<and> closed
          \<and> (\<exists>st'. wd_learned w' = Some st' \<and> routed_to st' (normalizeHost host) (rp_Fallback policy)))"
    using assms(1,3) False s AddWithLimit_routes [OF A assms(4)] A
    by (auto simp: monitorBlockCandidate_def Let_def
        split: if_splits option.splits sum.splits prod.splits bool.splits)
  then show ?thesis using released p1(3) False Start_backoff [OF assms(5)]
    by (auto simp: same_routes_def)
qed

section \<open>At most one probe per host\<close>

text \<open>C26. Over every sequence of sessions that start probes and end the ones they started, at any
  times, the probes in flight are for different hosts, the coordinator knows exactly which they
  are, and its table never grows beyond its bound.\<close>

theorem at_most_one_probe_per_host:
  assumes "flights normalizeProbeHost begin_probe Done es newProbeCoordinator [] = Some (p, ks)"
  shows "distinct ks \<and> length p \<le> 10000 \<and> (\<forall>k. active_in p k = (k \<in> set ks))"
proof -
  have "probes_ok newProbeCoordinator" "active_in newProbeCoordinator k = (k \<in> set [])" for k
    by (simp_all add: newProbeCoordinator_def probes_ok_def active_in_def)
  from probes.flights_distinct [OF assms this(1) _ this(2)] show ?thesis
    by (simp add: probes_ok_def maxProbeStates_def)
qed

section \<open>A sample session\<close>

definition sample_target :: target where
  "sample_target = \<lparr>tg_local = TCPAddr [10, 0, 0, 1] 4000, tg_remote = ''10.0.0.2''\<rparr>"

definition sample_env :: env where
  "sample_env = \<lparr>ev_now = 5, ev_allow = 5, ev_record = 6, ev_later = 6, ev_took = 1, ev_fallback_took = 0, ev_direct = (\<lambda>a. if a = '':80'' then Some sample_target else None),
     ev_dial = (\<lambda>u host port. Inr sample_target)\<rparr>"

definition sample_world :: "learnedFile world" where
  "sample_world = \<lparr>wd_manager = None, wd_learned = Some empty_store\<rparr>"

abbreviation sample_cfg :: Config where "sample_cfg \<equiv> sample_config ''vpn'' '''' []"

abbreviation sample_client :: conn where "sample_client \<equiv> open_conn [5, 1, 0, 1, 1, 2, 3, 4, 0, 80]"

definition sample_rq :: request where
  "sample_rq = \<lparr>rq_host = ''1.2.3.4'', rq_port = 80, rq_isIP = True\<rparr>"

lemma sample_read: "read_request sample_client = (Inr sample_rq, open_conn [])"
  by (simp add: read_request_def read_address_def ReadFull_def open_conn_def socksVersion_def sample_rq_def
      ip4_string_def byte_string_def digit_char_def be16_def char_of_def bit_0)

lemma sample_route: "route_for sample_env sample_cfg host sample_world =
    \<lparr>rp_Name = ''default'', rp_Egress = ''direct'', rp_DPI = ''none'', rp_Upstream = '''', rp_Fallback = ''vpn'', rp_Params = None\<rparr>"
  by (simp add: route_for_def sample_world_def LookupActive_def Lookup_def empty_store_def PolicyFor_def
      sample_config_def sample_document_def Let_def)

lemma sample_port: "Itoa 80 = ''80''"
  by (simp add: Itoa.simps [of 80] Itoa.simps [of 8] digit_char_def char_of_def bit_0)

lemma sample_upstream: "map_of (cf_Upstreams sample_cfg) ''vpn'' \<noteq> None"
  by (simp add: sample_config_def sample_document_def Let_def)

lemma sample_learns:
  "\<exists>st'. AddWithLimit id_yaml NoFault 6 empty_store ''1.2.3.4'' ''vpn'' reason 10000 = (Inr (True, None), st')
     \<and> Lookup st' ''1.2.3.4'' \<noteq> None \<and> store_ok st'"
proof -
  obtain st' where s: "AddWithLimit id_yaml NoFault 6 empty_store ''1.2.3.4'' ''vpn'' reason 10000 = (Inr (True, None), st')"
      "Lookup st' ''1.2.3.4'' \<noteq> None"
    by (simp add: AddWithLimit_def empty_store_def saveLocked_def Lookup_def host_eval Let_def)
  with AddWithLimit_ok [OF empty_store_ok s(1)] show ?thesis by blast
qed

lemma sample_session:
  "\<exists>res c' st'. ProcessRequest id_yaml NoFault sample_env sample_cfg sample_client sample_world = (res, c')
     \<and> sr_request res = Some sample_rq \<and> sr_target res = Some sample_target
     \<and> wd_learned (sr_world res) = Some st' \<and> Lookup st' ''1.2.3.4'' \<noteq> None"
proof -
  obtain u where u: "map_of (cf_Upstreams sample_cfg) ''vpn'' = Some u" using sample_upstream by blast
  have d: "dialUpstream sample_env sample_cfg ''vpn'' h p None = (Inr sample_target, None)" for h p
    using u by (simp add: dialUpstream_def Allow_opt_def Record_opt_def sample_env_def)
  have l: "fst (CanLearn (cf_Detection sample_cfg) h) \<and> LearnedLimit (cf_Detection sample_cfg) = 10000" for h
    by (simp add: CanLearn_def recordsMatch_def sample_config_def sample_document_def LearnedLimit_def Let_def)
  obtain st' where st': "AddWithLimit id_yaml NoFault 6 empty_store ''1.2.3.4'' ''vpn''
      ''direct-connect-failure-upstream-success'' 10000 = (Inr (True, None), st')" "Lookup st' ''1.2.3.4'' \<noteq> None"
    using sample_learns by blast
  have n: "ev_direct sample_env (JoinHostPort ''1.2.3.4'' ''80'') = None"
    by (simp add: sample_env_def JoinHostPort_def)
  have w: "wd_learned sample_world = Some empty_store" "wd_manager sample_world = None" "cn_script (open_conn []) = []"
    by (simp_all add: sample_world_def open_conn_def)
  have e: "ev_later sample_env = 6" by (simp add: sample_env_def)
  show ?thesis
    using st' l n
    by (simp add: ProcessRequest_def sample_read sample_route dial_target_def fallback_allowed_def
        sample_port connectAfterDirectFailure_def d sample_rq_def Write_unscripted e w Let_def)
qed

lemma request_gets_one_reply_witness:
  "\<exists>res c'. ProcessRequest id_yaml NoFault sample_env sample_cfg sample_client sample_world = (res, c')
     \<and> take 3 (cn_out c') = [5, 0, 0] \<and> length (cn_out c') = 10"
proof -
  obtain res c' where r: "ProcessRequest id_yaml NoFault sample_env sample_cfg sample_client sample_world = (res, c')"
      "sr_request res = Some sample_rq" "sr_target res = Some sample_target"
    using sample_session by blast
  have "length (successReply (tg_local sample_target)) = 10"
    by (simp add: successReply_def sample_target_def To4_def)
  then show ?thesis using request_gets_one_reply [OF _ r(1)] r by (simp add: open_conn_def)
qed

lemma dial_always_reports_to_breaker_witness:
  "\<exists>r m'. dialUpstream sample_env sample_cfg ''vpn'' ''h'' 80 (Some (New (cf_Upstreams sample_cfg) (cf_UpstreamHealth sample_cfg)))
     = (r, Some m') \<and> \<not> busy ''vpn'' m' \<and> manager_ok m'"
proof -
  let ?m = "New (cf_Upstreams sample_cfg) (cf_UpstreamHealth sample_cfg)"
  obtain r m1 where d: "dialUpstream sample_env sample_cfg ''vpn'' ''h'' 80 (Some ?m) = (r, m1)"
    by (metis prod.collapse)
  have "fst (Allow (ev_allow sample_env) ''vpn'' ?m)"
    by (simp add: Allow_def New_def fresh_state_def sample_config_def sample_document_def Let_def)
  then show ?thesis
    using dial_always_reports_to_breaker [OF d manager_ok_New] sample_upstream d by auto
qed

lemma session_learns_only_after_fallback_witness:
  "\<exists>res c'. ProcessRequest id_yaml NoFault sample_env sample_cfg sample_client sample_world = (res, c')
     \<and> fallback_allowed (route_for sample_env sample_cfg ''1.2.3.4'' sample_world)"
proof -
  obtain res c' st' where r: "ProcessRequest id_yaml NoFault sample_env sample_cfg sample_client sample_world = (res, c')"
      "sr_request res = Some sample_rq" "wd_learned (sr_world res) = Some st'" "Lookup st' ''1.2.3.4'' \<noteq> None"
    using sample_session by blast
  have "\<not> same_routes empty_store st'" using r(4)
    by (auto simp: same_routes_def Lookup_def empty_store_def intro!: exI [of _ "normalizeHost ''1.2.3.4''"])
  moreover have w: "wd_learned sample_world = Some empty_store" by (simp add: sample_world_def)
  ultimately show ?thesis
    using session_learns_only_after_fallback [OF r(1) w empty_store_ok] r by (auto simp: Let_def sample_rq_def)
qed

lemma next_session_uses_learned_route_witness:
  "\<exists>res c'. ProcessRequest id_yaml NoFault sample_env sample_cfg sample_client sample_world = (res, c')
     \<and> rp_Upstream (route_for sample_env sample_cfg ''1.2.3.4'' (sr_world res)) = ''vpn''"
proof -
  obtain res c' st' where r: "ProcessRequest id_yaml NoFault sample_env sample_cfg sample_client sample_world = (res, c')"
      "sr_request res = Some sample_rq" "wd_learned (sr_world res) = Some st'" "Lookup st' ''1.2.3.4'' \<noteq> None"
    using sample_session by blast
  have w: "wd_learned sample_world = Some empty_store" by (simp add: sample_world_def)
  have "LearnedTTL (cf_Detection sample_cfg) \<le> 0"
    by (simp add: LearnedTTL_def parseDuration_def sample_config_def sample_document_def Let_def)
  moreover have "Lookup (empty_store :: learnedFile Store) (rq_host sample_rq) = None" by (simp add: Lookup_def empty_store_def)
  ultimately show ?thesis
    using next_session_uses_learned_route [OF r(1) w empty_store_ok r(2) _ r(3), of sample_env] r(1,4) sample_route
    by (auto simp: sample_rq_def)
qed

definition failing_probe :: probe_env where
  "failing_probe = \<lparr>pe_answered = False, pe_answered_later = False, pe_start = 5, pe_retry_from = 5, pe_allow = 5, pe_record = 6, pe_end = 6,
     pe_dial = (\<lambda>u h p. Inl ''refused''), pe_deadline_ok = True\<rparr>"

lemma probe_releases_its_host_witness:
  "\<exists>p' w'. monitorBlockCandidate id_yaml NoFault failing_probe sample_cfg
       (route_for sample_env sample_cfg ''a.io'' sample_world) sample_rq ''a.io'' [22] newProbeCoordinator sample_world
     = (Ok (p', w', False) :: (unit, coordinator \<times> learnedFile world \<times> bool) outcome)
     \<and> \<not> active_in p' (normalizeProbeHost ''a.io'') \<and> \<not> fst (fst (Start ''a.io'' 100 p'))"
proof -
  have l: "fst (CanLearn (cf_Detection sample_cfg) h)" "FailureBackoff (cf_Detection sample_cfg) = 5 * Minute" for h
    by (simp_all add: CanLearn_def recordsMatch_def sample_config_def sample_document_def FailureBackoff_def parseDuration_def Let_def)
  obtain u where u: "map_of (cf_Upstreams sample_cfg) ''vpn'' = Some u" using sample_upstream by blast
  obtain p1 where s: "Start ''a.io'' 5 newProbeCoordinator = ((True, ''''), p1)"
    by (simp add: Start_def newProbeCoordinator_def maxProbeStates_def Let_def)
  have d: "probe_dial failing_probe sample_cfg ''vpn'' h p None = (Inl (UpstreamDialError ''refused''), None)" for h p
    using u by (simp add: probe_dial_def failing_probe_def Allow_opt_def Record_opt_def)
  have f: "pe_answered failing_probe = False" "pe_start failing_probe = 5" "pe_retry_from failing_probe = 5" "pe_answered_later failing_probe = False"
    by (simp_all add: failing_probe_def)
  have w: "wd_manager sample_world = None" "wd_learned sample_world = Some empty_store" by (simp_all add: sample_world_def)
  obtain p' w' where r: "monitorBlockCandidate id_yaml NoFault failing_probe sample_cfg
       (route_for sample_env sample_cfg ''a.io'' sample_world) sample_rq ''a.io'' [22] newProbeCoordinator sample_world
     = (Ok (p', w', False) :: (unit, coordinator \<times> learnedFile world \<times> bool) outcome)"
    using l u by (simp add: monitorBlockCandidate_def f s sample_route d w Let_def)
  have "probes_ok newProbeCoordinator" "\<not> active_in newProbeCoordinator (normalizeProbeHost ''a.io'')"
    by (simp_all add: newProbeCoordinator_def probes_ok_def active_in_def)
  from probe_releases_its_host [OF r this(1) w(2) empty_store_ok] this(2) r l f s
  show ?thesis by auto
qed

lemma at_most_one_probe_per_host_witness:
  "\<exists>p ks. flights normalizeProbeHost begin_probe Done [Begin ''a'' 1, Begin ''a'' 2, Finish ''a'' 0] newProbeCoordinator [] = Some (p, ks)
     \<and> distinct ks"
proof -
  obtain p ks where r: "flights normalizeProbeHost begin_probe Done [Begin ''a'' 1, Begin ''a'' 2, Finish ''a'' 0] newProbeCoordinator [] = Some (p, ks)"
    by (simp add: begin_probe_def Start_def newProbeCoordinator_def maxProbeStates_def Let_def)
  from at_most_one_probe_per_host [OF r] r show ?thesis by blast
qed

text \<open>The refusal of the target \<open>0.0.0.0\<close>, which stands for the machine of the proxy itself, is a
  comparison of texts: a request with an empty domain name passes it and is dialed as
  \<^verbatim>\<open>:port\<close>, which means the same machine to \<^verbatim>\<open>net.Dial\<close>.\<close>

theorem empty_domain_reaches_local_machine:
  "\<exists>res c'. ProcessRequest id_yaml NoFault sample_env sample_cfg (open_conn [5, 1, 0, 3, 0, 0, 80]) sample_world = (res, c')
     \<and> sr_error res = None \<and> sr_target res = ev_direct sample_env '':80''
     \<and> sr_error (fst (ProcessRequest id_yaml NoFault sample_env sample_cfg (open_conn [5, 1, 0, 1, 0, 0, 0, 0, 0, 80]) sample_world))
         = Some ForbiddenTarget"
proof -
  have e: "read_request (open_conn [5, 1, 0, 3, 0, 0, 80]) = (Inr \<lparr>rq_host = '''', rq_port = 80, rq_isIP = False\<rparr>, open_conn [])"
    by (simp add: read_request_def read_address_def ReadFull_def open_conn_def socksVersion_def string_of_bytes_def be16_def)
  have z: "read_request (open_conn [5, 1, 0, 1, 0, 0, 0, 0, 0, 80]) = (Inr \<lparr>rq_host = ''0.0.0.0'', rq_port = 80, rq_isIP = True\<rparr>, open_conn [])"
    by (simp add: read_request_def read_address_def ReadFull_def open_conn_def socksVersion_def
        ip4_string_def byte_string_def digit_char_def be16_def char_of_def bit_0)
  have d: "ev_direct sample_env (JoinHostPort '''' ''80'') = Some sample_target" "ev_direct sample_env '':80'' = Some sample_target"
    by (simp_all add: sample_env_def JoinHostPort_def)
  have s: "cn_script (open_conn []) = []" by (simp add: open_conn_def)
  show ?thesis
    using d by (simp add: ProcessRequest_def e z sample_route dial_target_def sample_port Write_unscripted s Let_def)
qed

end
