(* ===== verification/Tls_Lemmas.thy ===== *)
theory Tls_Lemmas
  imports Tls
begin

text \<open>
  Lemmas on the TLS codec: the decoder never panics, a locale for decoders that read a sequence
  of encoded elements at an offset, with its two instances in the decoder, and the round trip
  of the ClientHello.
\<close>

section \<open>No panics in the decoder\<close>

lemma get_safe [simp]: "get d off n e \<noteq> Panic" "get8 d off e \<noteq> Panic" "get16 d off e \<noteq> Panic"
proof -
  show "get d off n e \<noteq> Panic" "get8 d off e \<noteq> Panic" by (simp_all add: get_def get8_def)
  show "get16 d off e \<noteq> Panic"
  proof (cases "length d < off + 2")
    case False
    then have "2 \<le> length (drop off d)" by simp
    from Uint16_not_Panic [OF this] False show ?thesis by (simp add: get16_def)
  qed (simp add: get16_def)
qed

lemma decode_suites_safe [simp]: "decode_suites d off n \<noteq> Panic"
  by (induction d off n rule: decode_suites.induct) (auto simp: obind_Panic_iff)

lemma decode_extensions_safe [simp]: "decode_extensions d off ending \<noteq> Panic"
proof (induction d off ending rule: decode_extensions.induct)
  case (1 d off ending)
  have "Uint16 (drop off d) \<noteq> Panic \<and> Uint16 (drop (off + 2) d) \<noteq> Panic" if "off + 4 \<le> length d"
    using that by (auto intro!: Uint16_not_Panic)
  then show ?case using "1.IH"
    by (subst decode_extensions.simps) (auto simp: obind_Panic_iff)
qed

lemma decode_hello_safe [simp]: "decode_hello d \<noteq> Panic"
  by (simp add: decode_hello_def Let_def obind_Panic_iff split: prod.split)

section \<open>Reading at an offset\<close>

lemma get_at:
  "length d = n \<Longrightarrow> get (pre @ d @ rest) (length pre) n e = Ok d"
  "off = length pre \<Longrightarrow> get8 (pre @ b # rest) off e = Ok b"
  "off = length pre \<Longrightarrow> get16 (pre @ PutUint16 v @ rest) off e = Ok v"
  by (simp_all add: get_def get8_def get16_def)

text \<open>A decoder that reads a sequence of elements between two offsets, and one step of it on an
  encoded element.\<close>

locale sequence_codec =
  fixes enc :: "'x \<Rightarrow> bytes"
    and ok :: "'x \<Rightarrow> bool"
    and loop :: "bytes \<Rightarrow> nat \<Rightarrow> nat \<Rightarrow> ('e, 'x list) outcome"
  assumes stop: "ending \<le> off \<Longrightarrow> loop d off ending = Ok []"
    and step: "ok x \<Longrightarrow> ending = length pre + length (enc x) + extra \<Longrightarrow> extra \<le> length rest \<Longrightarrow>
      loop (pre @ enc x @ rest) (length pre) ending =
      obind (loop (pre @ enc x @ rest) (length pre + length (enc x)) ending) (\<lambda>xs. Ok (x # xs))"
begin

lemma reads_sequence:
  "\<forall>x \<in> set xs. ok x \<Longrightarrow>
   loop (pre @ concat (map enc xs) @ rest) (length pre) (length pre + length (concat (map enc xs))) = Ok xs"
proof (induction xs arbitrary: pre)
  case Nil
  then show ?case by (simp add: stop)
next
  case (Cons x xs)
  let ?body = "concat (map enc xs)"
  have "loop (pre @ enc x @ (?body @ rest)) (length pre) (length pre + length (enc x) + length ?body) =
      obind (loop (pre @ enc x @ (?body @ rest)) (length pre + length (enc x))
        (length pre + length (enc x) + length ?body)) (\<lambda>xs. Ok (x # xs))"
    by (rule step) (use Cons.prems in auto)
  moreover have "loop ((pre @ enc x) @ ?body @ rest) (length (pre @ enc x)) (length (pre @ enc x) + length ?body) = Ok xs"
    by (rule Cons.IH) (use Cons.prems in auto)
  ultimately show ?case by (simp add: add.assoc)
qed

end

text \<open>The cipher suites: two bytes each, as many as fit between the offsets.\<close>

definition suites_between :: "bytes \<Rightarrow> nat \<Rightarrow> nat \<Rightarrow> (tls_error, u16 list) outcome" where
  "suites_between d off ending = decode_suites d off ((ending - off) div 2)"

interpretation suites: sequence_codec PutUint16 "\<lambda>_. True" suites_between
proof
  fix x :: u16 and pre rest :: bytes and ending extra :: nat
  assume e: "ending = length pre + length (PutUint16 x) + extra" "extra \<le> length rest"
  then have n: "(ending - length pre) div 2 = Suc ((ending - (length pre + 2)) div 2)" by simp
  show "suites_between (pre @ PutUint16 x @ rest) (length pre) ending =
      obind (suites_between (pre @ PutUint16 x @ rest) (length pre + length (PutUint16 x)) ending) (\<lambda>xs. Ok (x # xs))"
    by (simp add: suites_between_def n get_at)
qed (simp add: suites_between_def)

text \<open>The extensions: type, length and data, until the end of the block.\<close>

definition ext_bytes :: "HelloExtension \<Rightarrow> bytes" where
  "ext_bytes e = PutUint16 (he_Type e) @ PutUint16 (of_nat (length (he_Data e))) @ he_Data e"

definition ext_ok :: "HelloExtension \<Rightarrow> bool" where
  "ext_ok e \<longleftrightarrow> length (he_Data e) \<le> 65535 \<and> he_Length e = of_nat (length (he_Data e))"

lemma unat_of_nat16: "n \<le> 65535 \<Longrightarrow> unat (of_nat n :: u16) = n"
  by (simp add: unat_of_nat take_bit_eq_mod)

lemma unat_of_nat8: "n \<le> 255 \<Longrightarrow> unat (of_nat n :: u8) = n"
  by (simp add: unat_of_nat take_bit_eq_mod)

lemma ext_ok_length: "ext_ok e \<Longrightarrow> unat (he_Length e) = length (he_Data e)"
  by (simp add: ext_ok_def unat_of_nat16)

interpretation extensions: sequence_codec ext_bytes ext_ok decode_extensions
proof
  fix d :: bytes and off ending :: nat
  show "ending \<le> off \<Longrightarrow> decode_extensions d off ending = Ok []"
    by (simp add: decode_extensions.simps)
next
  fix x :: HelloExtension and pre rest :: bytes and ending extra :: nat
  assume x: "ext_ok x" and e: "ending = length pre + length (ext_bytes x) + extra" "extra \<le> length rest"
  let ?d = "pre @ ext_bytes x @ rest"
  let ?h = "PutUint16 (he_Type x) @ PutUint16 (he_Length x)"
  have d: "ext_bytes x = ?h @ he_Data x" using x by (simp add: ext_bytes_def ext_ok_def)
  have eta: "\<lparr>he_Type = he_Type x, he_Length = he_Length x, he_Data = he_Data x\<rparr> = x" by (cases x) simp
  have n: "length pre + length (ext_bytes x) = length pre + 4 + unat (he_Length x)"
    by (simp add: d ext_ok_length [OF x])
  have "length pre < ending" "length pre + 4 \<le> length ?d"
    using e by (auto simp: d)
  moreover have "Uint16 (drop (length pre) ?d) = Ok (he_Type x)"
      "Uint16 (drop (length pre + 2) ?d) = Ok (he_Length x)"
    by (simp_all add: d)
  moreover have "get ?d (length pre + 4) (unat (he_Length x)) IncompleteExtension = Ok (he_Data x)"
    using get_at(1) [of "he_Data x" _ "pre @ ?h" rest IncompleteExtension] ext_ok_length [OF x] by (simp add: d)
  ultimately show "decode_extensions ?d (length pre) ending =
      obind (decode_extensions ?d (length pre + length (ext_bytes x)) ending) (\<lambda>xs. Ok (x # xs))"
    unfolding n using ext_ok_length [OF x] by (subst decode_extensions.simps) (simp add: d eta)
qed

section \<open>What the encoder writes\<close>

lemma encodeExtensions_Ok:
  "encodeExtensions es = Ok bs \<longleftrightarrow> (\<forall>e \<in> set es. length (he_Data e) \<le> 65535) \<and> bs = concat (map ext_bytes es)"
  by (induction es arbitrary: bs) (auto simp: ext_bytes_def)

lemma encodeExtensions_safe [simp]: "encodeExtensions es \<noteq> Panic"
  by (induction es) (auto simp: obind_Panic_iff)

text \<open>The hello with the lengths the encoder writes.\<close>

definition with_lengths :: "ClientHello \<Rightarrow> ClientHello" where
  "with_lengths m = m\<lparr>
     ch_SessionID := (if 0 < ch_SessionIDLen m then ch_SessionID m else []),
     ch_CipherSuitesLen := of_nat (length (ch_CipherSuites m) * 2),
     ch_CompressionMethodsLen := of_nat (length (ch_CompressionMethods m)),
     ch_ExtensionsLength := of_nat (length (concat (map ext_bytes (ch_Extensions m)))),
     ch_Extensions := map (\<lambda>e. e\<lparr>he_Length := of_nat (length (he_Data e))\<rparr>) (ch_Extensions m)\<rparr>"

lemma encodeClientHello_Ok:
  assumes "encodeClientHello m = Ok bs"
  shows "ch_SessionIDLen m \<le> 32" "0 < ch_SessionIDLen m \<Longrightarrow> length (ch_SessionID m) = unat (ch_SessionIDLen m)"
    "length (ch_CipherSuites m) * 2 \<le> 65535" "length (ch_CompressionMethods m) \<le> 255"
    "\<forall>e \<in> set (ch_Extensions m). length (he_Data e) \<le> 65535"
    "length (concat (map ext_bytes (ch_Extensions m))) \<le> 65535"
    "bs = PutUint16 (ch_Version m) @ ch_Random m @ [ch_SessionIDLen m] @ ch_SessionID (with_lengths m)
       @ PutUint16 (ch_CipherSuitesLen (with_lengths m)) @ concat (map PutUint16 (ch_CipherSuites m))
       @ [ch_CompressionMethodsLen (with_lengths m)] @ ch_CompressionMethods m
       @ PutUint16 (ch_ExtensionsLength (with_lengths m)) @ concat (map ext_bytes (ch_Extensions m))"
proof -
  obtain ext where ext: "encodeExtensions (ch_Extensions m) = Ok ext"
    using assms by (auto simp: encodeClientHello_def split: if_splits)
  have tail: "(if 0 < length ext then PutUint16 (of_nat (length ext)) @ ext else [0, 0]) = PutUint16 (of_nat (length ext)) @ ext"
    by (simp add: PutUint16_def)
  show "ch_SessionIDLen m \<le> 32" "0 < ch_SessionIDLen m \<Longrightarrow> length (ch_SessionID m) = unat (ch_SessionIDLen m)"
    "length (ch_CipherSuites m) * 2 \<le> 65535" "length (ch_CompressionMethods m) \<le> 255"
    "\<forall>e \<in> set (ch_Extensions m). length (he_Data e) \<le> 65535"
    "length (concat (map ext_bytes (ch_Extensions m))) \<le> 65535"
    "bs = PutUint16 (ch_Version m) @ ch_Random m @ [ch_SessionIDLen m] @ ch_SessionID (with_lengths m)
       @ PutUint16 (ch_CipherSuitesLen (with_lengths m)) @ concat (map PutUint16 (ch_CipherSuites m))
       @ [ch_CompressionMethodsLen (with_lengths m)] @ ch_CompressionMethods m
       @ PutUint16 (ch_ExtensionsLength (with_lengths m)) @ concat (map ext_bytes (ch_Extensions m))"
    using assms [unfolded encodeClientHello_def ext obind.simps tail] encodeExtensions_Ok [THEN iffD1, OF ext]
    by (auto simp: with_lengths_def not_less simp del: length_concat split: if_splits)
qed

section \<open>The round trip\<close>

lemma with_lengths_simps [simp]:
  "ch_Version (with_lengths m) = ch_Version m" "ch_Random (with_lengths m) = ch_Random m"
  "ch_SessionIDLen (with_lengths m) = ch_SessionIDLen m"
  "ch_CipherSuites (with_lengths m) = ch_CipherSuites m"
  "ch_CompressionMethods (with_lengths m) = ch_CompressionMethods m"
  by (simp_all add: with_lengths_def)

lemma ext_bytes_with_length [simp]: "ext_bytes (e\<lparr>he_Length := l\<rparr>) = ext_bytes e"
  by (simp add: ext_bytes_def)

text \<open>The lengths of an encoded hello, as the decoder computes them.\<close>

lemma encoded_widths:
  assumes "encodeClientHello m = Ok bs"
  shows "length (concat (map PutUint16 (ch_CipherSuites m))) = 2 * length (ch_CipherSuites m)"
    "length (ch_SessionID (with_lengths m)) = unat (ch_SessionIDLen m)"
    "unat (ch_CipherSuitesLen (with_lengths m)) = 2 * length (ch_CipherSuites m)"
    "unat (ch_CompressionMethodsLen (with_lengths m)) = length (ch_CompressionMethods m)"
    "unat (ch_ExtensionsLength (with_lengths m)) = length (concat (map ext_bytes (ch_Extensions m)))"
proof -
  note e = encodeClientHello_Ok [OF assms]
  show "length (concat (map PutUint16 (ch_CipherSuites m))) = 2 * length (ch_CipherSuites m)"
    by (induction "ch_CipherSuites m") (simp_all add: length_concat comp_def sum_list_triv)
  show "length (ch_SessionID (with_lengths m)) = unat (ch_SessionIDLen m)"
    using e(2) by (auto simp: with_lengths_def word_gt_0)
  show "unat (ch_CipherSuitesLen (with_lengths m)) = 2 * length (ch_CipherSuites m)"
    using unat_of_nat16 [of "length (ch_CipherSuites m) * 2"] e(3) by (simp add: with_lengths_def)
  show "unat (ch_CompressionMethodsLen (with_lengths m)) = length (ch_CompressionMethods m)"
    using e(4) by (simp add: with_lengths_def unat_of_nat8)
  show "unat (ch_ExtensionsLength (with_lengths m)) = length (concat (map ext_bytes (ch_Extensions m)))"
    using unat_of_nat16 [OF e(6)] by (simp add: with_lengths_def)
qed

text \<open>A field that is read only when its length is not zero.\<close>

lemma get_optional:
  fixes n :: u8
  assumes "d = p @ xs @ rest" "length xs = unat n" "off = length p"
  shows "(if 0 < n then get d off (unat n) e else Ok []) = Ok xs"
  using get_at(1) [OF assms(2), of p rest e] assms by (auto simp: word_gt_0)

lemma decode_encode_hello:
  assumes enc: "encodeClientHello m = Ok bs" and r: "length (ch_Random m) = 32"
  shows "decode_hello bs = Ok (with_lengths m)"
proof -
  note e = encodeClientHello_Ok [OF enc] and w = encoded_widths [OF enc]
  let ?m = "with_lengths m" and ?n = "length (ch_CipherSuites m)"
  let ?exts = "concat (map ext_bytes (ch_Extensions m))" and ?suites = "concat (map PutUint16 (ch_CipherSuites m))"
  define p1 where "p1 = PutUint16 (ch_Version m) @ ch_Random m"
  define p2 where "p2 = p1 @ [ch_SessionIDLen m] @ ch_SessionID ?m"
  define p3 where "p3 = p2 @ PutUint16 (ch_CipherSuitesLen ?m) @ ?suites"
  define p4 where "p4 = p3 @ [ch_CompressionMethodsLen ?m] @ ch_CompressionMethods m"
  have b4: "bs = p4 @ PutUint16 (ch_ExtensionsLength ?m) @ ?exts"
    using e(7) by (simp add: p4_def p3_def p2_def p1_def)
  then obtain t1 t2 t3 where b1: "bs = p1 @ ch_SessionIDLen m # ch_SessionID ?m @ t1"
    and b2: "bs = p2 @ PutUint16 (ch_CipherSuitesLen ?m) @ ?suites @ t2"
    and b3: "bs = p3 @ ch_CompressionMethodsLen ?m # ch_CompressionMethods m @ t3"
    by (simp add: p4_def p3_def p2_def)
  have l: "length p1 = 34" "length p2 = 35 + unat (ch_SessionIDLen m)"
    "length p3 = 35 + unat (ch_SessionIDLen m) + 2 + 2 * ?n"
    "length p4 = 35 + unat (ch_SessionIDLen m) + 2 + 2 * ?n + 1 + length (ch_CompressionMethods m)"
    by (simp_all add: p1_def p2_def p3_def p4_def r w(1,2))
  have v: "get16 bs 0 e = Ok (ch_Version m)" "get bs 2 32 e = Ok (ch_Random m)" for e :: tls_error
    using get_at(3) [of 0 "[]"] get_at(1) [OF r, of "PutUint16 (ch_Version m)"] by (simp_all add: b1 p1_def)
  have s: "get8 bs 34 e = Ok (ch_SessionIDLen m)" for e :: tls_error
    unfolding b1 by (rule get_at(2)) (simp add: l)
  have o: "(if 0 < ch_SessionIDLen m then get bs 35 (unat (ch_SessionIDLen m)) e else Ok []) = Ok (ch_SessionID ?m)" for e :: tls_error
    by (rule get_optional [where p = "p1 @ [ch_SessionIDLen m]" and rest = t1]) (simp_all add: b1 l w(2))
  have c: "get16 bs (35 + unat (ch_SessionIDLen m)) e = Ok (ch_CipherSuitesLen ?m)"
    "decode_suites bs (35 + unat (ch_SessionIDLen m) + 2) ?n = Ok (ch_CipherSuites m)" for e :: tls_error
    using get_at(3) [of "35 + unat (ch_SessionIDLen m)" p2] w(1)
      suites.reads_sequence [of "ch_CipherSuites m" "p2 @ PutUint16 (ch_CipherSuitesLen ?m)" t2]
    by (simp_all add: suites_between_def b2 l)
  have k: "get8 bs (35 + unat (ch_SessionIDLen m) + 2 + 2 * ?n) e = Ok (ch_CompressionMethodsLen ?m)" for e :: tls_error
    unfolding b3 by (rule get_at(2)) (simp add: l)
  have z: "(if 0 < ch_CompressionMethodsLen ?m
      then get bs (35 + unat (ch_SessionIDLen m) + 2 + 2 * ?n + 1) (length (ch_CompressionMethods m)) e else Ok [])
     = Ok (ch_CompressionMethods m)" for e :: tls_error
    unfolding w(4) [symmetric]
    by (rule get_optional [where p = "p3 @ [ch_CompressionMethodsLen ?m]" and rest = t3]) (simp_all add: b3 l w(4))
  have x1: "get16 bs (length p4) e = Ok (ch_ExtensionsLength ?m)" for e :: tls_error
    unfolding b4 by (rule get_at(3)) simp
  have "\<forall>e \<in> set (ch_Extensions ?m). ext_ok e" "concat (map ext_bytes (ch_Extensions ?m)) = ?exts"
    using e(5) by (auto simp: with_lengths_def ext_ok_def comp_def)
  then have x2: "decode_extensions bs (length p4 + 2) (length p4 + 2 + length ?exts) = Ok (ch_Extensions ?m)"
    using extensions.reads_sequence [of "ch_Extensions ?m" "p4 @ PutUint16 (ch_ExtensionsLength ?m)" "[]"] by (simp add: b4)
  have x0: "length p4 < length bs" by (simp add: b4)
  show ?thesis
    unfolding decode_hello_def Let_def v s o c(1) w(3) obind.simps
      nonzero_mult_div_cancel_left [OF zero_neq_numeral [symmetric]] c(2) k w(4) z l(4) [symmetric] if_P [OF x0] x1 w(5) x2
      prod.case
    by (cases ?m) (simp, metis with_lengths_simps ClientHello.select_convs)
qed

lemma be24_bytes:
  assumes "len < 2 ^ 24"
  shows "be24 (ucast (drop_bit 16 len AND 0xFF)) (ucast (drop_bit 8 len AND 0xFF)) (ucast (len AND 0xFF)) = (len :: u32)"
proof -
  have m: "(0xFF :: u32) = mask 8" by (simp add: mask_eq_exp_minus_1)
  have "take_bit 24 len = len"
    using assms less_mask_eq [of len 24] by (simp flip: take_bit_eq_mask)
  then have h: "\<not> bit len n" if "24 \<le> n" for n
    using that by (metis bit_take_bit_iff not_less)
  show ?thesis
  proof (rule bit_word_eqI)
    fix n assume "n < LENGTH(32)"
    then consider "n < 8" | "8 \<le> n" "n < 16" | "16 \<le> n" "n < 24" | "24 \<le> n" "n < 32"
      by (cases "n < 8"; cases "n < 16"; cases "n < 24") auto
    then show "bit (be24 (ucast (drop_bit 16 len AND 0xFF)) (ucast (drop_bit 8 len AND 0xFF)) (ucast (len AND 0xFF))) n = bit len n"
      unfolding be24_def m by cases (auto simp: bit_simps h less_diff_conv)
  qed
qed

lemma decode_encode_record:
  assumes enc: "EncodeTLS t = Ok (bs, t')" and r: "length (ch_Random (tr_Message t)) = 32"
    and mt: "hh_MsgType (tr_Header t) = 1" and fit: "length bs \<le> 65540"
  shows "DecodeTLS bs = Ok (t'\<lparr>tr_Header := \<lparr>hh_MsgType = 1, hh_Length = of_nat (length bs - 9)\<rparr>,
    tr_Message := with_lengths (tr_Message t)\<rparr>)"
proof -
  obtain hello where hello: "encodeClientHello (tr_Message t) = Ok hello" and ct: "tr_ContentType t = 0x16"
    using enc by (auto simp: EncodeTLS_def split: if_splits)
  let ?len = "of_nat (length hello) :: u32"
  have t': "t' = t\<lparr>tr_Length := of_nat (4 + length hello)\<rparr>"
    and bs: "bs = tr_ContentType t # PutUint16 (tr_Version t) @ PutUint16 (tr_Length t') @ encodeHandshakeHeader t ?len @ hello"
    using enc by (auto simp: EncodeTLS_def hello ct Let_def encodeHandshakeHeader_def encodeTLSRecordHeader_def)
  have l: "length bs = 9 + length hello" by (simp add: bs encodeHandshakeHeader_def)
  have n: "unat (tr_Length t') = 4 + length hello"
    using fit unat_of_nat16 [of "4 + length hello"] by (simp add: t' l)
  have "unat ?len = length hello" using fit l by (simp add: unat_of_nat take_bit_eq_mod)
  then have len: "?len < 2 ^ 24" "unat ?len = length hello"
    using fit l by (simp_all add: word_less_nat_alt)
  obtain v1 v2 l1 l2 where v: "PutUint16 (tr_Version t) = [v1, v2]" "PutUint16 (tr_Length t') = [l1, l2]"
    by (simp add: PutUint16_def)
  then have be: "be16 v1 v2 = tr_Version t" "be16 l1 l2 = tr_Length t'"
    using Uint16_PutUint16 [of "tr_Version t" "[]"] Uint16_PutUint16 [of "tr_Length t'" "[]"] by simp_all
  show ?thesis
    unfolding bs
    by (simp add: DecodeTLS_def v be ct mt slice_def index_def Let_def encodeHandshakeHeader_def n
        be24_bytes [OF len(1)] len(2) decode_encode_hello [OF hello r])
      (simp add: t' ct)
qed

section \<open>What a decoded record satisfies\<close>

lemma get_Ok: "get d off n e = Ok b \<Longrightarrow> length b = n"
  by (auto simp: get_def slice_def split: if_splits)

lemma decode_extensions_Ok: "decode_extensions d off ending = Ok es \<Longrightarrow> \<forall>e \<in> set es. ext_ok e"
proof (induction d off ending arbitrary: es rule: decode_extensions.induct)
  case (1 d off ending)
  show ?case
  proof (cases "off < ending \<and> off + 4 \<le> length d")
    case True
    with "1.prems" obtain t l body es' where
      d: "Uint16 (drop off d) = (Ok t :: (tls_error, u16) outcome)" "Uint16 (drop (off + 2) d) = (Ok l :: (tls_error, u16) outcome)"
         "get d (off + 4) (unat l) IncompleteExtension = Ok body"
         "decode_extensions d (off + 4 + unat l) ending = Ok es'"
      and es: "es = \<lparr>he_Type = t, he_Length = l, he_Data = body\<rparr> # es'"
      unfolding decode_extensions.simps [of d off ending] by auto
    have "unat l < 2 ^ 16" using unsigned_less [of l] by simp
    then have "ext_ok \<lparr>he_Type = t, he_Length = l, he_Data = body\<rparr>"
      using get_Ok [OF d(3)] by (simp add: ext_ok_def)
    then show ?thesis using "1.IH" [OF True d(4)] by (simp add: es)
  qed (use "1.prems" in \<open>auto simp: decode_extensions.simps [of d off ending] split: if_splits\<close>)
qed

lemma decode_hello_Ok:
  assumes "decode_hello d = Ok h"
  shows "length (ch_Random h) = 32" "\<forall>e \<in> set (ch_Extensions h). ext_ok e"
proof -
  show "length (ch_Random h) = 32"
    using assms by (auto simp: decode_hello_def Let_def dest!: get_Ok)
  show "\<forall>e \<in> set (ch_Extensions h). ext_ok e"
    using assms by (auto simp: decode_hello_def Let_def dest!: decode_extensions_Ok split: if_splits)
qed

lemma DecodeTLS_Ok:
  assumes "DecodeTLS d = Ok r"
  shows "tr_ContentType r = 0x16" "hh_MsgType (tr_Header r) = 1" "decode_hello (drop 9 d) = Ok (tr_Message r)"
  using assms by (auto simp: DecodeTLS_def Let_def split: if_splits)

section \<open>Finding and replacing extensions\<close>

lemma find_ext_shift: "find_ext t (Suc i) es = map_option (apfst Suc) (find_ext t i es)"
  by (induction es arbitrary: i) auto

lemma find_ext_Some:
  "find_ext t 0 es = Some (i, d) \<longleftrightarrow>
     i < length es \<and> he_Type (es ! i) = t \<and> he_Data (es ! i) = d \<and> (\<forall>j < i. he_Type (es ! j) \<noteq> t)"
proof (induction es arbitrary: i)
  case (Cons e es)
  show ?case
  proof (cases i)
    case 0
    then show ?thesis by (auto simp: find_ext_shift)
  next
    case (Suc k)
    then show ?thesis using Cons.IH [of k]
      by (cases "he_Type e = t") (auto simp: find_ext_shift less_Suc_eq_0_disj)
  qed
qed simp

lemma find_ext_append:
  "find_ext t i (xs @ ys) = (case find_ext t i xs of None \<Rightarrow> find_ext t (i + length xs) ys | Some r \<Rightarrow> Some r)"
  by (induction xs arbitrary: i) (auto cong: option.case_cong)

lemma find_ext_update_other:
  "k < length es \<Longrightarrow> he_Type (es ! k) \<noteq> t \<Longrightarrow> he_Type x \<noteq> t \<Longrightarrow> find_ext t i (es[k := x]) = find_ext t i es"
  by (induction es arbitrary: i k) (auto split: nat.split simp: nth_Cons')

lemma find_ext_map_length: "find_ext t i (map (\<lambda>e. e\<lparr>he_Length := f e\<rparr>) es) = find_ext t i es"
  by (induction es arbitrary: i) auto

lemma FindExtension_with_lengths [simp]: "FindExtension (with_lengths h) t = FindExtension h t"
  by (simp add: FindExtension_def with_lengths_def find_ext_map_length)

lemma FindSNI_with_lengths [simp]: "FindSNI (with_lengths h) = FindSNI h"
  by (simp add: FindSNI_def)

lemma ReplaceSNI_finds:
  "\<exists>i. FindExtension (snd (ReplaceSNI h name)) 0 = Some (i, encodeSNI name)"
proof (cases "FindExtension h 0")
  case None
  then show ?thesis by (auto simp: ReplaceSNI_def Let_def FindExtension_def find_ext_append)
next
  case (Some r)
  then obtain i d where i: "find_ext 0 0 (ch_Extensions h) = Some (i, d)" by (cases r) (auto simp: FindExtension_def)
  then have "find_ext 0 0 ((ch_Extensions h)[i := \<lparr>he_Type = 0, he_Length = l, he_Data = b\<rparr>]) = Some (i, b)" for l b
    unfolding find_ext_Some by auto
  with i Some show ?thesis by (auto simp: ReplaceSNI_def Let_def FindExtension_def)
qed

lemma ReplaceSNI_other:
  "t \<noteq> 0 \<Longrightarrow> map_option snd (FindExtension (snd (ReplaceSNI h name)) t) = map_option snd (FindExtension h t)"
proof (cases "FindExtension h 0")
  case None
  then show "t \<noteq> 0 \<Longrightarrow> ?thesis"
    by (auto simp: ReplaceSNI_def Let_def FindExtension_def find_ext_append split: option.split)
next
  case (Some r)
  then obtain i d where i: "find_ext 0 0 (ch_Extensions h) = Some (i, d)" by (cases r) (auto simp: FindExtension_def)
  then have "FindExtension h 0 = Some (i, d)" by (simp add: FindExtension_def)
  moreover have "i < length (ch_Extensions h)" "he_Type (ch_Extensions h ! i) = 0"
    using i by (simp_all add: find_ext_Some)
  ultimately show "t \<noteq> 0 \<Longrightarrow> ?thesis" using i
    by (simp add: ReplaceSNI_def Let_def) (simp add: FindExtension_def find_ext_update_other)
qed

lemma ReplaceSNI_rest [simp]:
  "ch_Version (snd (ReplaceSNI h n)) = ch_Version h" "ch_Random (snd (ReplaceSNI h n)) = ch_Random h"
  "ch_SessionIDLen (snd (ReplaceSNI h n)) = ch_SessionIDLen h" "ch_SessionID (snd (ReplaceSNI h n)) = ch_SessionID h"
  "ch_CipherSuites (snd (ReplaceSNI h n)) = ch_CipherSuites h"
  "ch_CompressionMethods (snd (ReplaceSNI h n)) = ch_CompressionMethods h"
  by (simp_all add: ReplaceSNI_def Let_def split: option.split)

lemma FindSNI_encoded:
  assumes "FindExtension h 0 = Some (i, encodeSNI name)" "length name \<le> 65530"
  shows "FindSNI h = Ok (True, name)"
proof -
  let ?len = "of_nat (3 + length name) :: u16"
  have u: "unat ?len = 3 + length name" using assms(2) by (intro unat_of_nat16) simp
  have "unat (2 + ?len) = 5 + length name"
    using unat_of_nat16 [of "5 + length name"] assms(2) by simp
  moreover have "?len \<noteq> 0" using u by (metis add_is_0 unat_0 zero_neq_numeral)
  moreover obtain a b c d where ab: "PutUint16 ?len = [a, b]"
      and e: "encodeSNI name = a # b # 0 # c # d # bytes_of_string name"
    by (simp add: PutUint16_def encodeSNI_def Let_def)
  moreover have "be16 a b = ?len" using Uint16_PutUint16 [of ?len "[]"] ab by simp
  ultimately show ?thesis using assms(1) u
    by (simp add: FindSNI_def slice_def del: of_nat_add of_nat_numeral)
qed

end
