(* ===== verification/Tls_Props.thy ===== *)
theory Tls_Props
  imports Tls_Lemmas
begin

text \<open>
  Properties of the TLS codec: the decoder is total, the encoder and the decoder agree, what the
  rewriting of the server name does to a ClientHello, and where the operations on extensions
  go wrong.
\<close>

text \<open>C35. \<open>DecodeTLS\<close> never reads outside the bytes it is given, whatever they are: it returns a
  record or one of its errors. A record it returns is a handshake record with a ClientHello,
  its random has 32 bytes, and every extension has the length it states.\<close>

theorem decoder_never_panics:
  "DecodeTLS data \<noteq> Panic
   \<and> (\<forall>r. DecodeTLS data = Ok r \<longrightarrow> tr_ContentType r = 0x16 \<and> hh_MsgType (tr_Header r) = 1
        \<and> length (ch_Random (tr_Message r)) = 32
        \<and> (\<forall>e \<in> set (ch_Extensions (tr_Message r)). length (he_Data e) = unat (he_Length e)))"
proof (intro conjI allI impI)
  have "Uint16 b \<noteq> (Panic :: (tls_error, u16) outcome)" if "length b = 2" for b
    using that by (intro Uint16_not_Panic) simp
  then show "DecodeTLS data \<noteq> Panic"
    by (auto simp: DecodeTLS_def Let_def obind_Panic_iff slice_Ok_iff index_def slice_def)
qed (use DecodeTLS_Ok decode_hello_Ok ext_ok_length in force)+

lemma decoder_never_panics_witness: "DecodeTLS [0x16, 3, 1, 0, 2, 1, 0] = Err ShortHandshake \<and> DecodeTLS [0x16, 3, 1, 0, 2, 1, 0] \<noteq> Panic"
  using decoder_never_panics [of "[0x16, 3, 1, 0, 2, 1, 0]"]
  by (simp add: DecodeTLS_def slice_def index_def be16_def Let_def)

text \<open>C18. What \<open>EncodeTLS\<close> writes, \<open>DecodeTLS\<close> reads back: the same record with the lengths that
  were written. The record must hold a ClientHello with a random of 32 bytes and fit in a TLS
  record, which the encoder does not check.\<close>

theorem encoded_hello_decodes:
  assumes "EncodeTLS t = Ok (bs, t')" "length (ch_Random (tr_Message t)) = 32"
    and "hh_MsgType (tr_Header t) = 1" "length bs \<le> 5 + 65535"
  shows "\<exists>r. DecodeTLS bs = Ok r \<and> tr_Version r = tr_Version t \<and> tr_Message r = with_lengths (tr_Message t)
    \<and> unat (tr_Length r) = length bs - 5"
proof -
  have "tr_Length t' = of_nat (length bs - 5)"
    using assms(1) by (auto simp: EncodeTLS_def Let_def encodeTLSRecordHeader_def split: if_splits)
  moreover have "tr_Version t' = tr_Version t" using assms(1) by (auto simp: EncodeTLS_def Let_def split: if_splits)
  ultimately show ?thesis
    using decode_encode_record [OF assms(1,2,3)] assms(4) unat_of_nat16 [of "length bs - 5"] by simp
qed

text \<open>The extensions of a hello with the server name replaced: the new one stands where the first
  server-name extension was, or at the end if there was none.\<close>

definition with_name :: "HelloExtension \<Rightarrow> HelloExtension list \<Rightarrow> HelloExtension list" where
  "with_name e es = takeWhile (\<lambda>x. he_Type x \<noteq> 0) es @ [e] @ tl (dropWhile (\<lambda>x. he_Type x \<noteq> 0) es)"

definition name_extension :: "string \<Rightarrow> HelloExtension" where
  "name_extension name = \<lparr>he_Type = 0, he_Length = of_nat (length (encodeSNI name)), he_Data = encodeSNI name\<rparr>"

lemma find_ext_None: "find_ext t i es = None \<longleftrightarrow> (\<forall>e \<in> set es. he_Type e \<noteq> t)"
  by (induction es arbitrary: i) auto

lemma ReplaceSNI_extensions:
  "snd (ReplaceSNI h name) = h\<lparr>ch_Extensions := with_name (name_extension name) (ch_Extensions h)\<rparr>"
proof (cases "FindExtension h 0")
  case None
  then have "\<forall>x \<in> set (ch_Extensions h). he_Type x \<noteq> 0" by (simp add: FindExtension_def find_ext_None)
  then have w: "takeWhile (\<lambda>x. he_Type x \<noteq> 0) (ch_Extensions h) = ch_Extensions h"
      "dropWhile (\<lambda>x. he_Type x \<noteq> 0) (ch_Extensions h) = []" by simp_all
  from None show ?thesis by (simp add: ReplaceSNI_def Let_def with_name_def name_extension_def w)
next
  case (Some x)
  then obtain i d where x: "FindExtension h 0 = Some (i, d)" by (cases x) auto
  then have i: "i < length (ch_Extensions h)" "he_Type (ch_Extensions h ! i) = 0"
      "\<forall>j < i. he_Type (ch_Extensions h ! j) \<noteq> 0"
    by (simp_all add: FindExtension_def find_ext_Some)
  then have "takeWhile (\<lambda>x. he_Type x \<noteq> 0) (ch_Extensions h) = take i (ch_Extensions h)"
    by (intro takeWhile_eq_take_P_nth) auto
  with i(1) x show ?thesis
    by (simp add: ReplaceSNI_def Let_def with_name_def name_extension_def dropWhile_eq_drop upd_conv_take_nth_drop
        tl_drop drop_Suc)
qed

text \<open>Decoding leaves nothing in the session id when its length is zero.\<close>

lemma decode_hello_session:
  "decode_hello d = Ok h \<Longrightarrow> \<not> 0 < ch_SessionIDLen h \<Longrightarrow> ch_SessionID h = []"
  by (auto simp: decode_hello_def Let_def)

lemma with_name_set: "x \<in> set (with_name e es) \<Longrightarrow> x = e \<or> x \<in> set es"
  using set_dropWhileD [of x "\<lambda>x. he_Type x \<noteq> 0" es]
  by (cases "dropWhile (\<lambda>x. he_Type x \<noteq> 0) es") (auto simp: with_name_def dest: set_takeWhileD)

text \<open>C36. The fake packet carries the decoy name and is otherwise the hello of the client: when
  \<open>injectFakePacket\<close> replaces the server name of a decoded hello and encodes the result, a
  decoder of the packet finds the decoy as server name, the same versions, random, session,
  ciphers and compression methods, and the same extensions in the same order, but for the first
  server-name extension, which is replaced, or added at the end if the hello had none.\<close>

theorem decoy_packet_differs_in_name_only:
  assumes d: "DecodeTLS data = Ok r" and n: "length name \<le> 65530"
    and enc: "EncodeTLS (r\<lparr>tr_Message := snd (ReplaceSNI (tr_Message r) name)\<rparr>) = Ok (bs, t')"
    and fit: "length bs \<le> 5 + 65535"
  shows "\<exists>r2. DecodeTLS bs = Ok r2 \<and> FindSNI (tr_Message r2) = Ok (True, name)
    \<and> ch_Random (tr_Message r2) = ch_Random (tr_Message r)
    \<and> ch_CipherSuites (tr_Message r2) = ch_CipherSuites (tr_Message r)
    \<and> ch_CompressionMethods (tr_Message r2) = ch_CompressionMethods (tr_Message r)
    \<and> (\<forall>t. t \<noteq> 0 \<longrightarrow> map_option snd (FindExtension (tr_Message r2) t) = map_option snd (FindExtension (tr_Message r) t))
    \<and> tr_Version r2 = tr_Version r \<and> ch_Version (tr_Message r2) = ch_Version (tr_Message r)
    \<and> ch_SessionIDLen (tr_Message r2) = ch_SessionIDLen (tr_Message r)
    \<and> ch_SessionID (tr_Message r2) = ch_SessionID (tr_Message r)
    \<and> ch_Extensions (tr_Message r2) = with_name (name_extension name) (ch_Extensions (tr_Message r))"
proof -
  let ?h = "snd (ReplaceSNI (tr_Message r) name)"
  note dh = DecodeTLS_Ok [OF d]
  have "length (ch_Random ?h) = 32" "hh_MsgType (tr_Header r) = 1"
    using dh decode_hello_Ok by auto
  then obtain r2 where r2: "DecodeTLS bs = Ok r2" "tr_Message r2 = with_lengths ?h" "tr_Version r2 = tr_Version t'"
    using decode_encode_record [OF enc] fit by simp
  have v: "tr_Version t' = tr_Version r" using enc by (auto simp: EncodeTLS_def Let_def split: if_splits)
  obtain i where "FindExtension ?h 0 = Some (i, encodeSNI name)" using ReplaceSNI_finds by blast
  then have f: "FindSNI ?h = Ok (True, name)" by (rule FindSNI_encoded) (rule n)
  have "\<forall>e \<in> set (with_name (name_extension name) (ch_Extensions (tr_Message r))).
      e\<lparr>he_Length := of_nat (length (he_Data e))\<rparr> = e"
    using decode_hello_Ok(2) [OF dh(3)]
    by (auto simp: name_extension_def ext_ok_def dest!: with_name_set)
  then have "map (\<lambda>e. e\<lparr>he_Length := of_nat (length (he_Data e))\<rparr>) (ch_Extensions ?h)
      = with_name (name_extension name) (ch_Extensions (tr_Message r))"
    by (simp add: ReplaceSNI_extensions map_idI)
  then have "ch_Extensions (with_lengths ?h) = with_name (name_extension name) (ch_Extensions (tr_Message r))"
    by (simp add: with_lengths_def)
  moreover have "ch_SessionID (with_lengths ?h) = ch_SessionID (tr_Message r)"
    using decode_hello_session [OF dh(3)] by (simp add: with_lengths_def ReplaceSNI_extensions)
  ultimately show ?thesis using r2 v f ReplaceSNI_other by (simp add: ReplaceSNI_extensions)
qed

section \<open>Sample hellos\<close>

definition sample_hello :: "HelloExtension list \<Rightarrow> ClientHello" where
  "sample_hello es =
     \<lparr>ch_Version = 0x0303, ch_Random = replicate 32 7, ch_SessionIDLen = 1, ch_SessionID = [9],
      ch_CipherSuitesLen = 2, ch_CipherSuites = [0x1301], ch_CompressionMethodsLen = 1, ch_CompressionMethods = [0],
      ch_ExtensionsLength = 0, ch_Extensions = es\<rparr>"

definition opaque_ext :: "u16 \<Rightarrow> bytes \<Rightarrow> HelloExtension" where
  "opaque_ext t d = \<lparr>he_Type = t, he_Length = of_nat (length d), he_Data = d\<rparr>"

lemma sample_simps [simp]:
  "length (ch_Random (sample_hello es)) = 32" "tr_Message (NewTLSRecord h) = h" "hh_MsgType (tr_Header (NewTLSRecord h)) = 1"
  by (simp_all add: sample_hello_def NewTLSRecord_def)

lemma sample_encodes:
  assumes "\<forall>e \<in> set es. length (he_Data e) \<le> 100" "length es \<le> 4"
  shows "\<exists>bs t'. EncodeTLS (NewTLSRecord (sample_hello es)) = Ok (bs, t') \<and> length bs \<le> 600"
proof -
  have "length (concat (map ext_bytes es)) \<le> 104 * length es"
    using assms(1) by (induction es) (auto simp: ext_bytes_def)
  then have l: "length (concat (map ext_bytes es)) \<le> 416" using assms(2) by linarith
  have "\<forall>e \<in> set es. length (he_Data e) \<le> 65535" using assms(1) by auto
  then have "encodeExtensions es = Ok (concat (map ext_bytes es))" by (simp add: encodeExtensions_Ok)
  then show ?thesis using l
    by (simp add: EncodeTLS_def NewTLSRecord_def sample_hello_def encodeClientHello_def Let_def
        encodeTLSRecordHeader_def encodeHandshakeHeader_def)
qed

text \<open>A record on the wire whose hello has the given extensions.\<close>

lemma sample_on_wire:
  assumes "\<forall>e \<in> set es. length (he_Data e) \<le> 100" "length es \<le> 4"
  shows "\<exists>bs r. DecodeTLS bs = Ok r \<and> tr_Message r = with_lengths (sample_hello es)"
proof -
  obtain bs t' where "EncodeTLS (NewTLSRecord (sample_hello es)) = Ok (bs, t')" "length bs \<le> 600"
    using sample_encodes [OF assms] by blast
  from decode_encode_record [OF this(1)] this(2) have
    "DecodeTLS bs = Ok (t'\<lparr>tr_Header := \<lparr>hh_MsgType = 1, hh_Length = of_nat (length bs - 9)\<rparr>,
       tr_Message := with_lengths (sample_hello es)\<rparr>)" by simp
  then show ?thesis by (intro exI) (auto intro!: exI)
qed

lemma encoded_hello_decodes_witness:
  "\<exists>bs t' r. EncodeTLS (NewTLSRecord (sample_hello [])) = Ok (bs, t') \<and> DecodeTLS bs = Ok r
     \<and> tr_Message r = with_lengths (sample_hello [])"
proof -
  obtain bs t' where e: "EncodeTLS (NewTLSRecord (sample_hello [])) = Ok (bs, t')" "length bs \<le> 600"
    using sample_encodes [of "[]"] by auto
  from encoded_hello_decodes [OF e(1)] e show ?thesis by auto
qed

lemma decoy_packet_differs_in_name_only_witness:
  "\<exists>data r bs t' r2. DecodeTLS data = Ok r
     \<and> EncodeTLS (r\<lparr>tr_Message := snd (ReplaceSNI (tr_Message r) ''x.io'')\<rparr>) = Ok (bs, t')
     \<and> DecodeTLS bs = Ok r2 \<and> FindSNI (tr_Message r2) = (Ok (True, ''x.io'') :: (unit, bool \<times> string) outcome)"
proof -
  obtain data t0 where e: "EncodeTLS (NewTLSRecord (sample_hello [])) = Ok (data, t0)" "length data \<le> 600"
    using sample_encodes [of "[]"] by auto
  then obtain r where r: "DecodeTLS data = Ok r" "tr_Message r = with_lengths (sample_hello [])"
    using decode_encode_record [OF e(1)] by auto
  then have ct: "tr_ContentType r = 0x16" by (auto dest: DecodeTLS_Ok(1))
  obtain bs t' where x: "EncodeTLS (r\<lparr>tr_Message := snd (ReplaceSNI (tr_Message r) ''x.io'')\<rparr>) = Ok (bs, t')"
      "length bs \<le> 600"
    using r(2) ct
    by (simp add: EncodeTLS_def encodeClientHello_def sample_hello_def with_lengths_def ReplaceSNI_def FindExtension_def
        encodeSNI_def bytes_of_string_def Let_def encodeHandshakeHeader_def encodeTLSRecordHeader_def)
  from decoy_packet_differs_in_name_only [OF r(1) _ x(1)] x(2) r(1) x(1) show ?thesis by auto
qed

section \<open>Where the extension operations fail\<close>

text \<open>\<open>FindSNI\<close> panics exactly on a server-name extension whose list length is 1 or 2 and whose
  data is at least that long, because it slices the name from byte 5. Such a hello passes
  \<open>DecodeTLS\<close>, so one packet of a client makes the inspection of \<^verbatim>\<open>StreamForward\<close> panic.\<close>

theorem short_name_list_panics:
  "(\<forall>h. (\<forall>e \<in> set (ch_Extensions h). ext_ok e) \<longrightarrow>
      (FindSNI h = (Panic :: ('e, bool \<times> string) outcome)) =
      (\<exists>i d. FindExtension h 0 = Some (i, d) \<and> (\<exists>a b rest. d = a # b # rest
         \<and> unat (be16 a b) \<in> {1, 2} \<and> unat (be16 a b) \<le> length rest)))
   \<and> (\<exists>packet r. DecodeTLS packet = Ok r \<and> FindSNI (tr_Message r) = (Panic :: ('e, bool \<times> string) outcome))"
proof (intro conjI allI impI)
  fix h :: ClientHello
  assume ok: "\<forall>e \<in> set (ch_Extensions h). ext_ok e"
  have "length d \<le> 65535" if "FindExtension h 0 = Some (i, d)" for i d
    using that ok by (auto simp: FindExtension_def find_ext_Some ext_ok_def)
  then have fits: "length rest \<le> 65533" if "FindExtension h 0 = Some (i, a # b # rest)" for i a b rest
    using that by fastforce
  have two: "unat (2 + be16 a b) = 2 + unat (be16 a b)" if "unat (be16 a b) \<le> length rest" "length rest \<le> 65533"
    for a b and rest :: bytes
    using that unat_of_nat16 [of "2 + unat (be16 a b)"] by simp
  have nz: "be16 a b = 0 \<longleftrightarrow> unat (be16 a b) = 0" for a b by (simp add: unat_eq_0)
  show "(FindSNI h = (Panic :: ('e, bool \<times> string) outcome)) =
      (\<exists>i d. FindExtension h 0 = Some (i, d) \<and> (\<exists>a b rest. d = a # b # rest
         \<and> unat (be16 a b) \<in> {1, 2} \<and> unat (be16 a b) \<le> length rest))"
  proof (cases "FindExtension h 0")
    case (Some x)
    then obtain i d where x: "FindExtension h 0 = Some (i, d)" by (cases x) auto
    show ?thesis
    proof (cases d rule: Uint16.cases)
      case (1 a b rest)
      then show ?thesis using fits [of i a b rest] x two [of a b rest]
        by (auto simp: FindSNI_def slice_def nz not_less)
    qed (use x in \<open>auto simp: FindSNI_def\<close>)
  qed (simp add: FindSNI_def)
next
  let ?es = "[opaque_ext 0 [0, 1, 0]]"
  obtain bs r where "DecodeTLS bs = Ok r" "tr_Message r = with_lengths (sample_hello ?es)"
    using sample_on_wire [of ?es] by (auto simp: opaque_ext_def)
  moreover have "FindSNI (sample_hello ?es) = (Panic :: ('e, bool \<times> string) outcome)"
    by (simp add: FindSNI_def FindExtension_def sample_hello_def opaque_ext_def slice_def be16_def)
  ultimately have "DecodeTLS bs = Ok r \<and> FindSNI (tr_Message r) = (Panic :: ('e, bool \<times> string) outcome)"
    by simp
  then show "\<exists>packet r. DecodeTLS packet = Ok r \<and> FindSNI (tr_Message r) = (Panic :: ('e, bool \<times> string) outcome)"
    by blast
qed

lemma short_name_list_panics_witness:
  "FindSNI (sample_hello [opaque_ext 0 [0, 2, 0, 0]]) = (Panic :: (unit, bool \<times> string) outcome)"
proof -
  have "\<forall>e \<in> set (ch_Extensions (sample_hello [opaque_ext 0 [0, 2, 0, 0]])). ext_ok e"
    by (simp add: sample_hello_def opaque_ext_def ext_ok_def)
  moreover have "FindExtension (sample_hello [opaque_ext 0 [0, 2, 0, 0]]) 0 = Some (0, [0, 2, 0, 0])"
    by (simp add: FindExtension_def sample_hello_def opaque_ext_def)
  ultimately show ?thesis
    using short_name_list_panics [where ?'e = unit] by (auto simp: be16_def)
qed

text \<open>Removing an extension from the middle of a hello removes the one before it as well:
  only the first and the last extension can be removed alone.\<close>

theorem removing_middle_extension_drops_two:
  assumes "find_ext t 0 (ch_Extensions h) = Some (i, d)"
  shows "RemoveExtensionByType h t = (True, h\<lparr>ch_Extensions :=
    (if i = 0 \<or> i = length (ch_Extensions h) - 1
     then take i (ch_Extensions h) @ drop (i + 1) (ch_Extensions h)
     else take (i - 1) (ch_Extensions h) @ drop (i + 1) (ch_Extensions h))\<rparr>)"
proof -
  have "i < length (ch_Extensions h)" using assms by (simp add: find_ext_Some)
  then show ?thesis using assms
    by (auto simp: RemoveExtensionByType_def FindExtension_def RemoveExtension_def drop_ext_def drop_Suc
        butlast_conv_take nat_diff_distrib)
qed

lemma removing_middle_extension_drops_two_witness:
  "snd (RemoveExtensionByType (sample_hello [opaque_ext 0 [1], opaque_ext 51 [2], opaque_ext 13 [3]]) 51)
   = sample_hello [opaque_ext 13 [3]]"
proof -
  have "find_ext 51 0 (ch_Extensions (sample_hello [opaque_ext 0 [1], opaque_ext 51 [2], opaque_ext 13 [3]])) = Some (1, [2])"
    by (simp add: sample_hello_def opaque_ext_def)
  from removing_middle_extension_drops_two [OF this] show ?thesis by (simp add: sample_hello_def)
qed

end
