(* ===== verification/Forward_Props.thy ===== *)
theory Forward_Props
  imports Forward Tls_Props
begin

text \<open>
  Properties of the forward direction: the bytes of the client reach the target unchanged and in
  order in every mode, a probe is started at most once and for a complete ClientHello, and one
  record can stop the whole program.
\<close>

section \<open>Both ways of writing keep the stream\<close>

lemma frag_loop_delivers:
  "frag_loop f c data = (e, f', c', rest) \<Longrightarrow> full_or_error c \<Longrightarrow>
   full_or_error c' \<and> (\<exists>k \<le> length data. cn_out c' = cn_out c @ take k data \<and> (e = None \<longrightarrow> rest = drop k data))"
proof (induction f c data rule: frag_loop.induct)
  case (1 f c data)
  let ?n = "chunk_size f (length data)"
  show ?case
  proof (cases "data = [] \<or> \<not> ShouldFragment f \<or> ?n = 0")
    case True
    then show ?thesis using "1.prems" by (subst (asm) frag_loop.simps) (auto intro!: exI [of _ 0])
  next
    case False
    obtain n w c1 where W: "Write c (take ?n data) = ((n, w), c1)" by (metis prod.collapse)
    note d = Write_cases [OF W]
    have le: "?n \<le> 200" "?n \<le> length data" by (simp_all add: chunk_size_def fragmentSize_def)
    then have n: "n \<le> ?n" using d(1) by simp
    show ?thesis
    proof (cases w)
      case None
      then have r: "frag_loop (f\<lparr>fr_sentBytes := fr_sentBytes f + n\<rparr>) c1 (drop n data) = (e, f', c', rest)"
        using "1.prems"(1) False W by (subst (asm) frag_loop.simps) simp
      obtain k where "full_or_error c'" "k \<le> length (drop n data)" "cn_out c' = cn_out c1 @ take k (drop n data)"
          "e = None \<longrightarrow> rest = drop k (drop n data)"
        using "1.IH" [OF False W [symmetric] refl None r d(4) [OF "1.prems"(2)]] by auto
      moreover have "take n (take ?n data) = take n data" using n by (simp add: min_absorb1)
      moreover have "take n data @ take k (drop n data) = take (n + k) data"
          "drop k (drop n data) = drop (n + k) data" by (simp_all only: take_add drop_drop add.commute [of k])
      ultimately show ?thesis using d(2) n le
        by (intro conjI exI [of _ "n + k"]) auto
    next
      case (Some x)
      then have "c' = c1" "e \<noteq> None" using "1.prems"(1) False W by (subst (asm) frag_loop.simps, auto)+
      then show ?thesis using d(2,4) n le "1.prems"(2) by (auto intro!: exI [of _ n] simp: min_absorb1)
    qed
  qed
qed

lemma WriteFragmented_delivers:
  assumes "WriteFragmented f c data = (e, f', c')" "full_or_error c" "length data \<le> 32768"
  shows "full_or_error c' \<and> (\<exists>k \<le> length data. cn_out c' = cn_out c @ take k data \<and> (e = None \<longrightarrow> k = length data))"
proof -
  obtain e1 f1 c1 rest where l: "frag_loop f c data = (e1, f1, c1, rest)" by (metis prod.collapse)
  obtain k where k: "full_or_error c1" "k \<le> length data" "cn_out c1 = cn_out c @ take k data"
      "e1 = None \<longrightarrow> rest = drop k data"
    using frag_loop_delivers [OF l assms(2)] by auto
  show ?thesis
  proof (cases "e1 = None \<and> rest \<noteq> []")
    case False
    then show ?thesis using assms(1) l k by (auto simp: WriteFragmented_def split: option.splits)
  next
    case True
    obtain n w c2 where W: "Write c1 rest = ((n, w), c2)" by (metis prod.collapse)
    note d = Write_cases [OF W]
    have "c' = c2" "e = w" using assms(1) l True W by (auto simp: WriteFragmented_def)
    moreover have "take k data @ take n rest = take (k + n) data" using k True by (simp add: take_add)
    ultimately show ?thesis using d k True assms(3)
      by (auto intro!: exI [of _ "k + n"])
  qed
qed

lemma writeConn_fit: "full_or_error c \<Longrightarrow> full_or_error (snd (writeConn c data))"
proof (induction c data rule: writeConn.induct)
  case (1 c data)
  obtain n w c1 where W: "Write c data = ((n, w), c1)" by (metis prod.collapse)
  then show ?case using "1.IH" [OF _ W [symmetric] refl] "1.prems" Write_cases(4) [OF W]
    by (cases w; cases "data = []") (simp_all add: writeConn.simps [of c data] writeConn.simps [of c "[]"])
qed

interpretation forward: ordered_writer "send cx" "\<lambda>fc. cn_out (snd fc)" "\<lambda>fc. full_or_error (snd fc)"
    "\<lambda>d. length d \<le> 32768" for cx :: "'si fctx"
proof
  fix fc fc' :: "Fragmenter \<times> conn" and data e
  assume a: "full_or_error (snd fc)" "length data \<le> 32768" "send cx fc data = (e, fc')"
  obtain f c where fc: "fc = (f, c)" by (cases fc)
  obtain e1 c1 where w: "writeConn c data = (e1, c1)" by (cases "writeConn c data")
  show "full_or_error (snd fc') \<and> (\<exists>k \<le> length data. cn_out (snd fc') = cn_out (snd fc) @ take k data
      \<and> (e = None \<longrightarrow> k = length data))"
  proof (cases "rp_DPI (cx_policy cx) = ''fragment'' \<and> ShouldFragment f")
    case True
    then have "WriteFragmented f c data = (e, fst fc', snd fc')" using a(3) fc by (simp add: send_def)
    from WriteFragmented_delivers [OF this] a fc show ?thesis by simp
  next
    case False
    then have "e = e1" "fc' = (f, c1)" using a(3) fc w by (auto simp: send_def)
    then show ?thesis using writeConn_delivers [OF w] writeConn_fit [of c data] a(1) fc w by simp
  qed
qed

section \<open>The stream of the client\<close>

text \<open>The chunks a client sends: those of the reads up to the first error.\<close>

fun client_chunks :: "(bytes \<times> io_error option) list \<Rightarrow> bytes list" where
  "client_chunks [] = []"
| "client_chunks ((d, e) # rs) = (if d = [] then [] else [d]) @ (if e \<noteq> None then [] else client_chunks rs)"

lemma inspect_frame:
  assumes "inspect cx data st = Ok (cand, st1)"
  shows "fw_frag st1 = fw_frag st" "fw_target st1 = fw_target st" "fw_probes st1 = fw_probes st" "fw_probed st1 = fw_probed st"
  using assms
  by (auto simp: inspect_def inspect_record_def Let_def split: if_splits option.splits outcome.splits)

lemma forward_chunk_cases:
  assumes "forward_chunk cx data st = Ok (err, st1)"
  obtains cand st0 f c where "inspect cx data st = Ok (cand, st0)"
    "send cx (fw_frag st0, fw_target st0) data = (err, f, c)"
    "st1 = (let st2 = st0\<lparr>fw_frag := f, fw_target := c, fw_tx := fw_tx st0 + length data\<rparr>
            in if err \<noteq> None then st2 else note_candidate cand st2)"
proof -
  obtain cand st0 where i: "inspect cx data st = Ok (cand, st0)" using assms by (auto simp: forward_chunk_def)
  obtain e f c where s: "send cx (fw_frag st0, fw_target st0) data = (e, f, c)" by (metis prod.collapse)
  have "e = err" using assms i s by (simp add: forward_chunk_def Let_def)
  with assms i s show ?thesis by (intro that [OF i, of f c]) (simp_all add: forward_chunk_def Let_def)
qed

lemma note_candidate_frame [simp]:
  "fw_frag (note_candidate cand st) = fw_frag st" "fw_target (note_candidate cand st) = fw_target st"
  "fw_done (note_candidate cand st) = fw_done st" "fw_buffer (note_candidate cand st) = fw_buffer st"
  "fw_packets (note_candidate cand st) = fw_packets st" "fw_tx (note_candidate cand st) = fw_tx st"
  by (simp_all add: note_candidate_def split: option.split)

lemma forward_chunk_sends:
  assumes "forward_chunk cx data st = Ok (err, st1)"
  shows "send cx (fw_frag st, fw_target st) data = (err, fw_frag st1, fw_target st1)"
  by (rule forward_chunk_cases [OF assms]) (simp add: Let_def inspect_frame)

lemma forward_chunk_counts:
  assumes "forward_chunk cx data st = Ok (err, st1)"
  shows "fw_tx st1 = fw_tx st + length data"
proof (rule forward_chunk_cases [OF assms])
  fix cand st0 f c
  assume i: "inspect cx data st = Ok (cand, st0)"
    and s1: "st1 = (let st2 = st0\<lparr>fw_frag := f, fw_target := c, fw_tx := fw_tx st0 + length data\<rparr>
            in if err \<noteq> None then st2 else note_candidate cand st2)"
  have "fw_tx st0 = fw_tx st"
    using i by (auto simp: inspect_def inspect_record_def Let_def split: if_splits option.splits outcome.splits)
  then show ?thesis by (simp add: s1 Let_def)
qed

lemma StreamForward_sends:
  "StreamForward cx reads st = Ok (werr, st') \<Longrightarrow>
   \<exists>e. put_list (send cx) (fw_frag st, fw_target st) (client_chunks reads) = (e, fw_frag st', fw_target st')
     \<and> werr = (e \<noteq> None)"
proof (induction reads arbitrary: st)
  case (Cons re reads)
  obtain d e where re: "re = (d, e)" by (cases re)
  show ?case
  proof (cases "d = []")
    case True
    then show ?thesis using Cons re by (auto split: if_splits)
  next
    case False
    then obtain x st1 where f: "forward_chunk cx d st = Ok (x, st1)"
        and k: "(if x \<noteq> None then Ok (True, st1) else if e \<noteq> None then Ok (False, st1) else StreamForward cx reads st1) = Ok (werr, st')"
      using Cons.prems re by auto
    show ?thesis using forward_chunk_sends [OF f] k Cons.IH [of st1] False re
      by (auto split: if_splits)
  qed
qed simp

lemma StreamForward_delivers:
  assumes "StreamForward cx reads (start_fwd target) = Ok (failed, st)"
    and "full_or_error target" "\<forall>d \<in> set (client_chunks reads). length d \<le> 32768"
  shows "\<exists>k \<le> length (concat (client_chunks reads)).
    cn_out (fw_target st) = cn_out target @ take k (concat (client_chunks reads))
    \<and> (\<not> failed \<longrightarrow> k = length (concat (client_chunks reads)))"
proof -
  obtain e where e: "put_list (send cx) (fw_frag (start_fwd target :: 'a fwd), target) (client_chunks reads)
      = (e, fw_frag st, fw_target st)" "failed = (e \<noteq> None)"
    using StreamForward_sends [OF assms(1)] by (auto simp: start_fwd_def)
  show ?thesis using forward.put_list_delivers [OF _ assms(3) e(1)] assms(2) e(2) by auto
qed

text \<open>C1. Whatever the mode of the session (plain, fragmented or with a fake packet), whatever the
  inspection finds and wherever a write fails, the target gets the bytes of the client in order
  and without gaps: all of them when no write fails, a prefix of them otherwise. The writes obey
  the contract of \<^verbatim>\<open>io.Writer\<close>, and a read gives at most the 32 KiB of the buffer.\<close>

theorem forwarding_preserves_the_stream:
  assumes "StreamForward cx reads (start_fwd target) = Ok (failed, st)"
    and "full_or_error target" "\<forall>d \<in> set (client_chunks reads). length d \<le> 32768"
  shows "\<exists>k \<le> length (concat (client_chunks reads)).
    cn_out (fw_target st) = cn_out target @ take k (concat (client_chunks reads))
    \<and> (\<not> failed \<longrightarrow> k = length (concat (client_chunks reads)))"
  by (rule StreamForward_delivers [OF assms])

section \<open>Counting\<close>

text \<open>What a counter \<open>n\<close> says of a stream of reads and of the bytes that were delivered: it is the length
  of the first \<open>m\<close> reads, and all of these but for a part of the last one were delivered.\<close>

definition counted :: "bytes list \<Rightarrow> nat \<Rightarrow> bytes \<Rightarrow> bool" where
  "counted chunks n out \<longleftrightarrow>
     (\<exists>m \<le> length chunks. n = length (concat (take m chunks)) \<and>
        (\<exists>k \<le> n. out = take k (concat chunks) \<and> length (concat (take (m - 1) chunks)) \<le> k))"

lemma counted_none: "counted chunks 0 []"
  by (auto simp: counted_def)

lemma counted_here: "k \<le> length d \<Longrightarrow> counted (d # ds) (length d) (take k d)"
  unfolding counted_def
  by (rule exI [of _ 1], intro conjI, simp, simp, rule exI [of _ k], simp)

lemma counted_more:
  assumes "counted ds n out" shows "counted (d # ds) (length d + n) (d @ out)"
proof -
  obtain m k where "m \<le> length ds" "n = length (concat (take m ds))" "k \<le> n" "out = take k (concat ds)"
      "length (concat (take (m - 1) ds)) \<le> k"
    using assms by (auto simp: counted_def)
  moreover have "length (concat (take m (d # ds))) \<le> length d + k"
    using calculation by (cases m) auto
  ultimately show ?thesis unfolding counted_def
    by - (rule exI [of _ "Suc m"], intro conjI, simp, simp, rule exI [of _ "length d + k"], simp)
qed

lemma StreamForward_counted:
  "StreamForward cx reads st = Ok (failed, st') \<Longrightarrow> full_or_error (fw_target st) \<Longrightarrow>
   \<forall>r \<in> set reads. length (fst r) \<le> 32768 \<Longrightarrow>
   \<exists>n out. fw_tx st' = fw_tx st + n \<and> cn_out (fw_target st') = cn_out (fw_target st) @ out
     \<and> counted (map fst reads) n out
     \<and> (\<not> failed \<longrightarrow> n = length (concat (client_chunks reads)) \<and> out = concat (client_chunks reads))"
proof (induction reads arbitrary: st)
  case (Cons re reads)
  obtain d e where re: "re = (d, e)" by (cases re)
  show ?case
  proof (cases "d = []")
    case True
    show ?thesis
    proof (cases e)
      case None
      then obtain n out where "fw_tx st' = fw_tx st + n" "cn_out (fw_target st') = cn_out (fw_target st) @ out"
          "counted (map fst reads) n out"
          "\<not> failed \<longrightarrow> n = length (concat (client_chunks reads)) \<and> out = concat (client_chunks reads)"
        using Cons.IH [of st] Cons.prems re True by auto
      then show ?thesis using counted_more [of "map fst reads" n out "[]"] re True None
        by (intro exI [of _ n] exI [of _ out]) simp
    next
      case (Some x)
      then show ?thesis using Cons.prems re True by (intro exI [of _ 0] exI [of _ "[]"]) (simp add: counted_none)
    qed
  next
    case False
    then obtain x st1 where f: "forward_chunk cx d st = Ok (x, st1)"
        and k: "(if x \<noteq> None then Ok (True, st1) else if e \<noteq> None then Ok (False, st1) else StreamForward cx reads st1) = Ok (failed, st')"
      using Cons.prems(1) re by auto
    have tx: "fw_tx st1 = fw_tx st + length d" by (rule forward_chunk_counts [OF f])
    have "length d \<le> 32768" using Cons.prems(3) re by simp
    then obtain j where j: "full_or_error (fw_target st1)" "j \<le> length d"
        "cn_out (fw_target st1) = cn_out (fw_target st) @ take j d" "x = None \<longrightarrow> j = length d"
      using forward.delivers [of "(fw_frag st, fw_target st)" d cx x "(fw_frag st1, fw_target st1)"]
        forward_chunk_sends [OF f] Cons.prems(2) by auto
    show ?thesis
    proof (cases "x \<noteq> None \<or> e \<noteq> None")
      case True
      then have "st' = st1" "x \<noteq> None \<longrightarrow> failed" using k by (auto split: if_splits)
      then show ?thesis using True tx j re False counted_here [OF j(2), of "map fst reads"]
        by (intro exI [of _ "length d"] exI [of _ "take j d"]) auto
    next
      case no: False
      then obtain n out where "fw_tx st' = fw_tx st1 + n" "cn_out (fw_target st') = cn_out (fw_target st1) @ out"
          "counted (map fst reads) n out"
          "\<not> failed \<longrightarrow> n = length (concat (client_chunks reads)) \<and> out = concat (client_chunks reads)"
        using Cons.IH [of st1] k j(1) Cons.prems(3) by auto
      then show ?thesis using no tx j re False counted_more [of "map fst reads" n out d]
        by (intro exI [of _ "length d + n"] exI [of _ "d @ out"]) auto
    qed
  qed
qed (auto intro: counted_none)

text \<open>A connection whose every write succeeds is one without a script.\<close>

lemma Write_unscripted_script: "cn_script c = [] \<Longrightarrow> Write c data = ((n, e), c') \<Longrightarrow> e = None \<and> n = length data \<and> cn_script c' = []"
  by (auto simp: Write_def)

lemma frag_loop_unscripted:
  "frag_loop f c data = (e, f', c', rest) \<Longrightarrow> cn_script c = [] \<Longrightarrow> e = None \<and> cn_script c' = []"
proof (induction f c data rule: frag_loop.induct)
  case (1 f c data)
  let ?n = "chunk_size f (length data)"
  show ?case
  proof (cases "data = [] \<or> \<not> ShouldFragment f \<or> ?n = 0")
    case True
    then show ?thesis using "1.prems" by (subst (asm) frag_loop.simps) auto
  next
    case False
    obtain n w c1 where W: "Write c (take ?n data) = ((n, w), c1)" by (metis prod.collapse)
    note u = Write_unscripted_script [OF "1.prems"(2) W]
    then have "frag_loop (f\<lparr>fr_sentBytes := fr_sentBytes f + n\<rparr>) c1 (drop n data) = (e, f', c', rest)"
      using "1.prems"(1) False W by (subst (asm) frag_loop.simps) simp
    then show ?thesis using "1.IH" [OF False W [symmetric] refl] u by blast
  qed
qed

lemma send_unscripted:
  assumes "send cx (f, c) data = (e, f', c')" "cn_script c = []"
  shows "e = None \<and> cn_script c' = []"
proof (cases "rp_DPI (cx_policy cx) = ''fragment'' \<and> ShouldFragment f")
  case True
  then have w: "WriteFragmented f c data = (e, f', c')" using assms(1) by (simp add: send_def)
  obtain e1 f1 c1 rest where l: "frag_loop f c data = (e1, f1, c1, rest)" by (metis prod.collapse)
  note u = frag_loop_unscripted [OF l assms(2)]
  obtain n x c2 where "Write c1 rest = ((n, x), c2)" by (metis prod.collapse)
  then show ?thesis using w l u Write_unscripted_script by (fastforce simp: WriteFragmented_def split: if_splits)
next
  case False
  then show ?thesis using assms by (auto simp: send_def writeConn_unscripted)
qed

lemma StreamForward_unscripted:
  "StreamForward cx reads st = Ok (failed, st') \<Longrightarrow> cn_script (fw_target st) = [] \<Longrightarrow> \<not> failed"
proof (induction reads arbitrary: st)
  case (Cons re reads)
  obtain d e where re: "re = (d, e)" by (cases re)
  show ?case
  proof (cases "d = []")
    case True
    then show ?thesis using Cons re by (auto split: if_splits)
  next
    case False
    then obtain x st1 where f: "forward_chunk cx d st = Ok (x, st1)"
        and k: "(if x \<noteq> None then Ok (True, st1) else if e \<noteq> None then Ok (False, st1) else StreamForward cx reads st1) = Ok (failed, st')"
      using Cons.prems(1) re by auto
    then show ?thesis using send_unscripted [OF forward_chunk_sends [OF f] Cons.prems(2)] Cons.IH [of st1]
      by (auto split: if_splits)
  qed
qed simp

section \<open>Inspection\<close>

text \<open>Exactly one TLS record of the handshake: its header and as many bytes as the header announces.\<close>

definition one_record :: "bytes \<Rightarrow> bool" where
  "one_record bs \<longleftrightarrow> 5 \<le> length bs \<and> bs ! 0 = 0x16 \<and> length bs = 5 + unat (be16 (bs ! 3) (bs ! 4))"

lemma complete_record_one:
  assumes "complete_record buf = Some rd" "5 \<le> length buf" "buf ! 0 = 0x16"
  shows "one_record rd \<and> (\<exists>rest. buf = rd @ rest)"
proof -
  let ?n = "5 + unat (be16 (buf ! 3) (buf ! 4))"
  have "rd = take ?n buf" "?n \<le> length buf"
    using assms(1) by (auto simp: complete_record_def Let_def split: if_splits)
  then show ?thesis using assms(2,3)
    by (auto simp: one_record_def intro!: exI [of _ "drop ?n buf"])
qed

text \<open>What justifies a probe: a ClientHello, in exactly one record at the start of the stream, and a
  direct policy with a fallback. The host is that of the request, or the server name when the
  request had an address.\<close>

definition justified :: "'si fctx \<Rightarrow> bytes \<Rightarrow> string \<times> bytes \<Rightarrow> bool" where
  "justified cx seen hh \<longleftrightarrow> (\<exists>r ok sni. one_record (snd hh) \<and> DecodeTLS (snd hh) = Ok r
     \<and> FindSNI (tr_Message r) = (Ok (ok, sni) :: (tls_error, bool \<times> string) outcome)
     \<and> fst hh = (if cx_isIP cx \<and> sni \<noteq> '''' then sni else cx_host cx) \<and> fst hh \<noteq> ''''
     \<and> rp_Egress (cx_policy cx) = ''direct'' \<and> rp_Fallback (cx_policy cx) \<notin> {'''', ''none''}
     \<and> (\<exists>rest. seen = snd hh @ rest))"

definition inspecting :: "'si fctx \<Rightarrow> bytes \<Rightarrow> 'si fwd \<Rightarrow> bool" where
  "inspecting cx seen st \<longleftrightarrow>
     (\<not> fw_done st \<longrightarrow> fw_buffer st = seen \<and> fw_probes st = [] \<and> fw_packets st = [])
     \<and> length (fw_probes st) \<le> 1 \<and> length (fw_packets st) \<le> 1 \<and> fw_probed st = (fw_probes st \<noteq> [])
     \<and> (\<forall>hh \<in> set (fw_probes st). justified cx seen hh)"

lemma justified_more: "justified cx seen hh \<Longrightarrow> justified cx (seen @ data) hh"
  by (fastforce simp: justified_def)

lemma inspect_record_candidate:
  assumes "inspect_record cx rd st = Ok (Some (h, hello), st1)" "h \<noteq> ''''" "one_record rd"
  shows "justified cx (rd @ rest) (h, hello) \<and> hello = rd \<and> fw_done st1 \<and> fw_probes st1 = fw_probes st"
proof -
  obtain r where r: "DecodeTLS rd = Ok r" using assms(1) by (auto simp: inspect_record_def split: outcome.splits)
  obtain ok sni where s: "FindSNI (tr_Message r) = (Ok (ok, sni) :: (tls_error, bool \<times> string) outcome)"
    using assms(1) r by (auto simp: inspect_record_def)
  have "h = (if cx_isIP cx \<and> sni \<noteq> '''' then sni else cx_host cx)" "hello = rd" "fw_done st1" "fw_probes st1 = fw_probes st"
      "rp_Egress (cx_policy cx) = ''direct'' \<and> rp_Fallback (cx_policy cx) \<notin> {'''', ''none''}"
    using assms(1) r s by (auto simp: inspect_record_def Let_def split: if_splits)
  then show ?thesis using r s assms(2,3)
    by (auto simp: justified_def simp del: if_split)
qed

lemma inspect_candidate:
  assumes "inspect cx data st = Ok (cand, st1)" "inspecting cx seen st"
  shows "inspecting cx (seen @ data) st1"
    and "cand = Some (h, hello) \<Longrightarrow> h \<noteq> '''' \<Longrightarrow> justified cx (seen @ data) (h, hello) \<and> fw_done st1 \<and> fw_probes st1 = []"
proof -
  show "inspecting cx (seen @ data) st1"
    using assms
    by (auto simp: inspect_def inspect_record_def inspecting_def Let_def
        split: if_splits option.splits outcome.splits intro: justified_more)
  assume c: "cand = Some (h, hello)" "h \<noteq> ''''"
  then have nd: "\<not> fw_done st" "fw_buffer st = seen" "fw_probes st = []"
    using assms by (auto simp: inspect_def inspecting_def split: if_splits)
  with assms(1) c(1) obtain rd where cr: "complete_record (seen @ data) = Some rd"
      and ir: "inspect_record cx rd (st\<lparr>fw_buffer := seen @ data\<rparr>) = Ok (Some (h, hello), st1)"
      and hs: "5 \<le> length (seen @ data)" "(seen @ data) ! 0 = 0x16"
    by (auto simp: inspect_def Let_def split: if_splits option.splits)
  obtain rest where "seen @ data = rd @ rest" and one: "one_record rd"
    using complete_record_one [OF cr hs] by blast
  then show "justified cx (seen @ data) (h, hello) \<and> fw_done st1 \<and> fw_probes st1 = []"
    using inspect_record_candidate [OF ir c(2) one, of rest] nd(3) by auto
qed

lemma forward_chunk_inspecting:
  assumes "forward_chunk cx data st = Ok (err, st1)" "inspecting cx seen st"
  shows "inspecting cx (seen @ data) st1"
proof (rule forward_chunk_cases [OF assms(1)])
  fix cand st0 f c
  assume i: "inspect cx data st = Ok (cand, st0)"
    and s1: "st1 = (let st2 = st0\<lparr>fw_frag := f, fw_target := c, fw_tx := fw_tx st0 + length data\<rparr>
            in if err \<noteq> None then st2 else note_candidate cand st2)"
  show ?thesis
    using inspect_candidate [OF i assms(2)]
    by (auto simp: s1 inspecting_def Let_def note_candidate_def split: option.split)
qed

lemma StreamForward_inspecting:
  "StreamForward cx reads st = Ok (failed, st') \<Longrightarrow> inspecting cx seen st \<Longrightarrow>
   \<exists>more. inspecting cx (seen @ more) st' \<and> (\<exists>rest. concat (client_chunks reads) = more @ rest)"
proof (induction reads arbitrary: st seen)
  case (Cons re reads)
  obtain d e where re: "re = (d, e)" by (cases re)
  show ?case
  proof (cases "d = []")
    case True
    then show ?thesis using Cons re by (auto split: if_splits intro: exI [of _ "[]"])
  next
    case False
    then obtain x st1 where f: "forward_chunk cx d st = Ok (x, st1)"
        and k: "(if x \<noteq> None then Ok (True, st1) else if e \<noteq> None then Ok (False, st1) else StreamForward cx reads st1) = Ok (failed, st')"
      using Cons.prems(1) re by auto
    have i: "inspecting cx (seen @ d) st1" by (rule forward_chunk_inspecting [OF f Cons.prems(2)])
    show ?thesis
    proof (cases "x \<noteq> None \<or> e \<noteq> None")
      case True
      then show ?thesis using k i re by (intro exI [of _ d]) (auto split: if_splits)
    next
      case no: False
      then obtain more rest where "inspecting cx ((seen @ d) @ more) st'" "concat (client_chunks reads) = more @ rest"
        using Cons.IH [OF _ i] k by auto
      then show ?thesis using re False no by (intro exI [of _ "d @ more"]) auto
    qed
  qed
qed (auto intro: exI [of _ "[]"])

text \<open>C19. A session starts at most one probe and hands at most one packet to the capture thread. A
  probe replays exactly the first TLS record of the client, its header and the bytes it announces
  and nothing after them, which is a ClientHello, and it is started only for a direct policy with a fallback; application data is never replayed. Its
  host is the requested one, or the server name if the request was for an address.\<close>

theorem probe_only_for_first_hello:
  assumes "StreamForward cx reads (start_fwd target) = Ok (failed, st)"
  shows "length (fw_probes st) \<le> 1 \<and> length (fw_packets st) \<le> 1
    \<and> (\<forall>hh \<in> set (fw_probes st). justified cx (concat (client_chunks reads)) hh)"
proof -
  have "inspecting cx [] (start_fwd target)" by (simp add: inspecting_def start_fwd_def)
  then obtain more rest where "inspecting cx more st" "concat (client_chunks reads) = more @ rest"
    using StreamForward_inspecting [OF assms, of "[]"] by auto
  then show ?thesis by (auto simp: inspecting_def intro: justified_more)
qed

section \<open>Sample sessions\<close>

lemma encoded_record_complete:
  assumes "EncodeTLS t = Ok (bs, t')" "length bs \<le> 65540"
  shows "bs \<noteq> []" "bs ! 0 = 0x16" "complete_record bs = Some bs" "5 \<le> length bs"
proof -
  obtain hello where bs: "bs = tr_ContentType t # PutUint16 (tr_Version t) @ PutUint16 (tr_Length t')
      @ encodeHandshakeHeader t (of_nat (length hello)) @ hello"
    and l: "tr_Length t' = of_nat (4 + length hello)" and ct: "tr_ContentType t = 0x16"
    using assms(1) by (auto simp: EncodeTLS_def Let_def encodeHandshakeHeader_def encodeTLSRecordHeader_def split: if_splits)
  have n: "length bs = 9 + length hello" by (simp add: bs encodeHandshakeHeader_def)
  then have u: "unat (tr_Length t') = 4 + length hello" using assms(2) l unat_of_nat16 [of "4 + length hello"] by simp
  obtain a b c d where v: "PutUint16 (tr_Version t) = [a, b]" "PutUint16 (tr_Length t') = [c, d]"
    by (simp add: PutUint16_def)
  then have "be16 c d = tr_Length t'" using Uint16_PutUint16 [of "tr_Length t'" "[]"] by simp
  then show "complete_record bs = Some bs" using u n by (simp add: complete_record_def Let_def) (simp add: bs v)
  show "bs \<noteq> []" "bs ! 0 = 0x16" "5 \<le> length bs" using n by (simp_all add: bs ct)
qed

text \<open>A record of a few hundred bytes with the given extensions, as the first read of a session.\<close>

lemma sample_first_record:
  assumes "\<forall>e \<in> set es. length (he_Data e) \<le> 100" "length es \<le> 4"
  shows "\<exists>bs r. length bs \<le> 600 \<and> DecodeTLS bs = Ok r \<and> tr_Message r = with_lengths (sample_hello es) \<and> bs \<noteq> []
    \<and> (\<forall>cx target. inspect cx bs (start_fwd target :: 'si fwd)
          = inspect_record cx bs ((start_fwd target)\<lparr>fw_buffer := bs\<rparr>))"
proof -
  obtain bs t' where e: "EncodeTLS (NewTLSRecord (sample_hello es)) = Ok (bs, t')" "length bs \<le> 600"
    using sample_encodes [OF assms] by blast
  have c: "complete_record bs = Some bs" "bs ! 0 = 0x16" "bs \<noteq> []" "5 \<le> length bs"
    using encoded_record_complete [OF e(1)] e(2) by simp_all
  have i: "inspect cx bs (start_fwd target :: 'si fwd) = inspect_record cx bs ((start_fwd target)\<lparr>fw_buffer := bs\<rparr>)"
    for cx target
    using c e(2) by (simp add: inspect_def start_fwd_def tls_buffer_cap_def)
  obtain r where "DecodeTLS bs = Ok r" "tr_Message r = with_lengths (sample_hello es)"
    using decode_encode_record [OF e(1)] e(2) by auto
  with i e(2) c(3) show ?thesis by blast
qed

text \<open>C40. One TLS record of a few hundred bytes from any client panics the forwarding goroutine,
  whatever the policy of the session is, and with it the whole proxy, since nothing recovers: the
  record is a well-formed ClientHello whose server-name list has length one.\<close>

theorem one_record_stops_the_proxy:
  "\<exists>packet. length packet \<le> 600 \<and> (\<exists>r. DecodeTLS packet = Ok r) \<and> (\<forall>(cx :: 'si fctx) err target. StreamForward cx [(packet, err)] (start_fwd target) = Panic)"
proof -
  let ?es = "[opaque_ext 0 [0, 1, 0]]"
  have "\<forall>e \<in> set ?es. length (he_Data e) \<le> 100" "length ?es \<le> 4" by (simp_all add: opaque_ext_def)
  from sample_first_record [OF this, where ?'si = 'si]
  obtain bs r where b: "length bs \<le> 600" "DecodeTLS bs = Ok r" "tr_Message r = with_lengths (sample_hello ?es)" "bs \<noteq> []"
    and i: "\<forall>(cx :: 'si fctx) target. inspect cx bs (start_fwd target) = inspect_record cx bs ((start_fwd target)\<lparr>fw_buffer := bs\<rparr>)"
    by blast
  have "FindSNI (sample_hello ?es) = (Panic :: (tls_error, bool \<times> string) outcome)"
    by (simp add: FindSNI_def FindExtension_def sample_hello_def opaque_ext_def slice_def be16_def)
  then have "inspect cx bs (start_fwd target) = Panic" for cx :: "'si fctx" and target
    using i b(2,3) by (simp add: inspect_record_def)
  with b(1,2,4) show ?thesis by (intro exI [of _ bs]) (simp add: forward_chunk_def)
qed

definition sample_ctx :: "unit fctx" where
  "sample_ctx = \<lparr>cx_policy = \<lparr>rp_Name = ''default'', rp_Egress = ''direct'', rp_DPI = ''none'', rp_Upstream = '''',
       rp_Fallback = ''vpn'', rp_Params = None\<rparr>,
     cx_host = ''a.io'', cx_isIP = False, cx_port = 443, cx_capture = False, cx_session = None,
     cx_cfgTtl = 0, cx_paramTTL = 7\<rparr>"

lemma sample_send: "cn_script c = [] \<Longrightarrow> send sample_ctx (f, c) d = (None, f, c\<lparr>cn_out := cn_out c @ d\<rparr>)"
  by (simp add: send_def sample_ctx_def writeConn_unscripted)

lemma forwarding_preserves_the_stream_witness:
  "\<exists>st. StreamForward sample_ctx [([1, 2], None), ([3], Some EOF)] (start_fwd (open_conn [])) = Ok (False, st)
     \<and> cn_out (fw_target st) = [1, 2, 3]"
proof -
  obtain st where r: "StreamForward sample_ctx [([1, 2], None), ([3], Some EOF)] (start_fwd (open_conn [])) = Ok (False, st)"
    by (simp add: forward_chunk_def inspect_def start_fwd_def tls_buffer_cap_def open_conn_def sample_send
        note_candidate_def Let_def)
  have "full_or_error (open_conn [])" by (simp add: full_or_error_def open_conn_def)
  from forwarding_preserves_the_stream [OF r this] have "cn_out (fw_target st) = cn_out (open_conn []) @ [1, 2, 3]"
    by simp
  then have "cn_out (fw_target st) = [1, 2, 3]" by (simp add: open_conn_def)
  with r show ?thesis by blast
qed

lemma probe_only_for_first_hello_witness:
  "\<exists>packet st. StreamForward sample_ctx [(packet, None)] (start_fwd (open_conn [])) = Ok (False, st)
     \<and> fw_probes st = [(''a.io'', packet)] \<and> justified sample_ctx packet (''a.io'', packet)"
proof -
  obtain bs r where b: "DecodeTLS bs = Ok r" "tr_Message r = with_lengths (sample_hello [])" "bs \<noteq> []"
    and i: "\<forall>(cx :: unit fctx) target. inspect cx bs (start_fwd target) = inspect_record cx bs ((start_fwd target)\<lparr>fw_buffer := bs\<rparr>)"
    using sample_first_record [of "[]", where ?'si = unit] by auto
  have f: "FindSNI (sample_hello []) = (Ok (False, '''') :: (tls_error, bool \<times> string) outcome)"
    by (simp add: FindSNI_def FindExtension_def sample_hello_def)
  have p: "rp_DPI (cx_policy sample_ctx) = ''none''" "rp_Egress (cx_policy sample_ctx) = ''direct''"
      "rp_Fallback (cx_policy sample_ctx) = ''vpn''" "cx_host sample_ctx = ''a.io''"
    by (simp_all add: sample_ctx_def)
  obtain st where r: "StreamForward sample_ctx [(bs, None)] (start_fwd (open_conn [])) = Ok (False, st)"
      and s: "fw_probes st = [(''a.io'', bs)]"
    using b i f p
    by (simp add: forward_chunk_def inspect_record_def sample_send note_candidate_def Let_def)
      (simp add: start_fwd_def open_conn_def sample_send note_candidate_def Let_def)
  from probe_only_for_first_hello [OF r] s have "justified sample_ctx bs (''a.io'', bs)" using b(3) by simp
  with r s show ?thesis by blast
qed

end
