(* ===== verification/Accept_Props.thy ===== *)
theory Accept_Props
  imports Accept Session_Props Forward_Props
begin

text \<open>
  Properties of a whole session: what reaches the client and the target, and what is counted.
\<close>

section \<open>The client side of the connection\<close>






section \<open>The reverse direction\<close>








section \<open>End to end\<close>











end
