(* ===== verification/Monitor_Props.thy ===== *)
theory Monitor_Props
  imports Monitor
begin

text \<open>
  Every history of the monitor: which calls reach the Prometheus package, that none of them
  makes it panic, and that the counts they add up to are those of the snapshot.
\<close>

section \<open>Histories\<close>

datatype monitor_event =
    EvStarted | EvFinished nat nat duration string string | EvRoute string string string
  | EvFallback string string | EvDial string string string duration | EvLearned nat
  | EvUpstream string string | EvState string string string

fun on_event :: "monitor_event \<Rightarrow> Monitor \<Rightarrow> Monitor" where
  "on_event EvStarted m = SessionStarted m"
| "on_event (EvFinished tx rx d egress result) m = SessionFinished (int tx) (int rx) d egress result m"
| "on_event (EvRoute p e u) m = RouteDecision p e u m"
| "on_event (EvFallback r u) m = FallbackResult r u m"
| "on_event (EvDial e u r d) m = ObserveDial e u r d m"
| "on_event (EvLearned n) m = SetLearnedRoutes (int n) m"
| "on_event (EvUpstream n r) m = UpstreamResult n r m"
| "on_event (EvState n h c) m = SetUpstreamState n h c m"

definition history :: "time \<Rightarrow> monitor_event list \<Rightarrow> Monitor" where
  "history now es = foldl (\<lambda>m e. on_event e m) (NewMonitor now) es"

lemma history_simps [simp]:
  "history now [] = NewMonitor now" "history now (es @ [e]) = on_event e (history now es)"
  by (simp_all add: history_def)

lemmas operation_defs = SessionStarted_def SessionFinished_def RouteDecision_def FallbackResult_def
  ObserveDial_def SetLearnedRoutes_def UpstreamResult_def SetUpstreamState_def finish_counts_def Let_def

section \<open>Calls that do not panic\<close>

text \<open>\<^verbatim>\<open>MustRegister\<close> panics when a name is registered twice, and the two collectors of the package take
  the names that start with \<^verbatim>\<open>go_\<close> and \<^verbatim>\<open>process_\<close>; a histogram panics when its buckets do not increase,
  \<^verbatim>\<open>WithLabelValues\<close> on a wrong number of values or on one that is not valid UTF-8, a counter on a
  negative \<^verbatim>\<open>Add\<close>.\<close>

fun kind_ok :: "collector_kind \<Rightarrow> bool" where
  "kind_ok (Histogram (Some buckets)) = sorted_wrt (<) buckets"
| "kind_ok _ = True"

fun own :: "registered list \<Rightarrow> collector list" where
  "own [] = []"
| "own (Own c # rs) = c # own rs"
| "own (_ # rs) = own rs"

definition registry_ok :: "registered list \<Rightarrow> bool" where
  "registry_ok rs \<longleftrightarrow> distinct rs \<and> distinct (map co_Name (own rs))
     \<and> list_all (\<lambda>c. distinct (co_Labels c) \<and> kind_ok (co_Kind c)
          \<and> \<not> HasPrefix (co_Name c) ''go_'' \<and> \<not> HasPrefix (co_Name c) ''process_'') (own rs)"

fun op_ok :: "collector_kind \<Rightarrow> metric_op \<Rightarrow> bool" where
  "op_ok Counter Inc = True"
| "op_ok Counter (AddFloat n) = (0 \<le> n)"
| "op_ok Gauge (Observe _) = False"
| "op_ok Gauge _ = True"
| "op_ok (Histogram _) (Observe _) = True"
| "op_ok _ _ = False"

fun call_ok :: "registered list \<Rightarrow> metric_call \<Rightarrow> bool" where
  "call_ok rs (name, values, c) =
     (case find (\<lambda>x. co_Name x = name) (own rs) of
        None \<Rightarrow> False
      | Some x \<Rightarrow> length values = length (co_Labels x) \<and> list_all ValidString values \<and> op_ok (co_Kind x) c)"

text \<open>The texts an event brings along. They are constants of the program and names of the
  configuration or of the file of learned routes, which YAML takes in UTF-8 only.\<close>

fun event_texts :: "monitor_event \<Rightarrow> string list" where
  "event_texts (EvFinished _ _ _ egress result) = [egress, result]"
| "event_texts (EvRoute p e u) = [p, e, u]"
| "event_texts (EvFallback r u) = [r, u]"
| "event_texts (EvDial e u r _) = [e, u, r]"
| "event_texts (EvUpstream n r) = [n, r]"
| "event_texts (EvState n h c) = [n]"
| "event_texts _ = []"

lemma label_constants:
  "ValidString ''none''" "ValidString ''unknown''" "ValidString ''client_to_target''" "ValidString ''target_to_client''"
  by (simp_all add: ValidString_def char_code_def char_defs)

lemma own_map [simp]: "own (map Own cs @ [GoCollector, ProcessCollector]) = cs"
  by (induction cs) auto

lemma on_event_calls:
  "mn_registry (on_event e m) = mn_registry m"
  "list_all ValidString (event_texts e) \<Longrightarrow>
     \<exists>cs. mn_calls (on_event e m) = mn_calls m @ cs \<and> list_all (call_ok collectors) cs"
  by (cases e; simp add: operation_defs collectors_def own_collectors_def label_constants)+

lemma history_registry: "mn_registry (history now es) = collectors"
  by (induction es rule: rev_induct) (simp_all add: NewMonitor_def on_event_calls(1))

text \<open>C32. The collectors of the monitor can be registered together with those of the Go runtime and of
  the process, and no history of sessions, dials, probes and checks makes a call that the
  Prometheus package answers with a panic, as long as the names and results it reports are valid
  UTF-8: every call names a registered collector, with one valid value per label, and no counter
  is decreased.\<close>

theorem metric_calls_never_panic:
  assumes "\<forall>e \<in> set es. list_all ValidString (event_texts e)"
  shows "registry_ok (mn_registry (history now es)) \<and> list_all (call_ok (mn_registry (history now es))) (mn_calls (history now es))"
  using assms
proof (induction es rule: rev_induct)
  case Nil
  have "distinct (map Own own_collectors)" by (simp add: own_collectors_def)
  then show ?case
    by (simp add: NewMonitor_def registry_ok_def collectors_def) (auto simp: own_collectors_def HasPrefix_def)
next
  case (snoc e es)
  then show ?case
    using on_event_calls(2) [of e "history now es"] by (auto simp: on_event_calls(1) history_registry)
qed

section \<open>Agreement with the snapshot\<close>

fun slashed :: "string list \<Rightarrow> string" where
  "slashed [] = ''''"
| "slashed [x] = x"
| "slashed (x # xs) = x @ ''/'' @ slashed xs"

text \<open>A map of the snapshot counts the calls whose label values, joined by slashes, are its key.\<close>

definition counts_agree :: "string \<Rightarrow> counts \<Rightarrow> metric_call list \<Rightarrow> bool" where
  "counts_agree name m cs \<longleftrightarrow>
     (\<forall>key. let n = total name (\<lambda>ls. slashed ls = key) cs
            in 0 \<le> n \<and> map_of m key = (if n = 0 then None else Some (of_int n)))"

lemma counts_agree_Nil [simp]: "counts_agree name [] []"
  by (simp add: counts_agree_def)

lemma counts_agree_other [simp]: "n \<noteq> name \<Longrightarrow> counts_agree name m (cs @ [(n, ls, c)]) = counts_agree name m cs"
  by (simp add: counts_agree_def)

lemma counts_agree_bump:
  "counts_agree name m cs \<Longrightarrow> counts_agree name (bump (slashed ls) m) (cs @ [(name, ls, Inc)])"
  unfolding counts_agree_def Let_def
proof (rule allI)
  fix key
  assume "\<forall>key. 0 \<le> total name (\<lambda>ls. slashed ls = key) cs
    \<and> map_of m key = (if total name (\<lambda>ls. slashed ls = key) cs = 0 then None else Some (of_int (total name (\<lambda>ls. slashed ls = key) cs)))"
  then have "0 \<le> total name (\<lambda>ls. slashed ls = key) cs"
    "map_of m key = (if total name (\<lambda>ls. slashed ls = key) cs = 0 then None else Some (of_int (total name (\<lambda>ls. slashed ls = key) cs)))"
    by blast+
  then show "0 \<le> total name (\<lambda>ls. slashed ls = key) (cs @ [(name, ls, Inc)])
    \<and> map_of (bump (slashed ls) m) key = (if total name (\<lambda>ls. slashed ls = key) (cs @ [(name, ls, Inc)]) = 0 then None
         else Some (of_int (total name (\<lambda>ls. slashed ls = key) (cs @ [(name, ls, Inc)]))))"
    by (cases "key = slashed ls") (auto simp: bump_def map_of_update add.commute)
qed

text \<open>The last value a gauge was set to.\<close>

fun last_set :: "string \<Rightarrow> int \<Rightarrow> metric_call list \<Rightarrow> int" where
  "last_set name v [] = v"
| "last_set name v ((n, ls, SetFloat x) # cs) = last_set name (if n = name then x else v) cs"
| "last_set name v (_ # cs) = last_set name v cs"

lemma last_set_append [simp]: "last_set name v (cs @ ds) = last_set name (last_set name v cs) ds"
  by (induction name v cs rule: last_set.induct) auto

definition agrees :: "Monitor \<Rightarrow> bool" where
  "agrees m \<longleftrightarrow>
     (let s = mn_snapshot m; cs = mn_calls m
      in sn_SessionsStarted s = of_int (total ''socks_proxy_sessions_started_total'' (\<lambda>_. True) cs)
       \<and> sn_SessionsComplete s = of_int (total ''socks_proxy_sessions_finished_total'' (\<lambda>ls. hd ls = ''completed'') cs)
       \<and> sn_SessionsFailed s = of_int (total ''socks_proxy_sessions_finished_total'' (\<lambda>ls. hd ls \<noteq> ''completed'') cs)
       \<and> sn_BytesSent s = of_int (total ''socks_proxy_bytes_total'' (\<lambda>ls. ls = [''client_to_target'']) cs)
       \<and> sn_BytesReceived s = of_int (total ''socks_proxy_bytes_total'' (\<lambda>ls. ls = [''target_to_client'']) cs)
       \<and> sn_LearnedRoutes s = last_set ''socks_proxy_learned_routes'' 0 cs
       \<and> counts_agree ''socks_proxy_route_decisions_total'' (sn_RouteDecisions s) cs
       \<and> counts_agree ''socks_proxy_fallback_results_total'' (sn_FallbackResults s) cs
       \<and> counts_agree ''socks_proxy_upstream_results_total'' (sn_UpstreamResults s) cs)"


lemma agrees_New: "agrees (NewMonitor now)"
  by (simp add: agrees_def NewMonitor_def)

lemma agrees_on_event:
  assumes "agrees m" shows "agrees (on_event e m)"
proof (cases e)
  case (EvRoute p g u)
  then show ?thesis
    using assms counts_agree_bump [of "''socks_proxy_route_decisions_total''" "sn_RouteDecisions (mn_snapshot m)" "mn_calls m"
        "[p, g, if u = '''' then ''none'' else u]"]
    by (simp add: agrees_def operation_defs)
next
  case (EvFallback r u)
  then show ?thesis
    using assms counts_agree_bump [of "''socks_proxy_fallback_results_total''" "sn_FallbackResults (mn_snapshot m)" "mn_calls m" "[r, u]"]
    by (simp add: agrees_def operation_defs)
next
  case (EvUpstream n r)
  then show ?thesis
    using assms counts_agree_bump [of "''socks_proxy_upstream_results_total''" "sn_UpstreamResults (mn_snapshot m)" "mn_calls m" "[n, r]"]
    by (simp add: agrees_def operation_defs)
qed (use assms in \<open>simp add: agrees_def operation_defs counts_agree_def add.commute\<close>)+

text \<open>The values a gauge goes through, from a start value.\<close>

fun gauge_values :: "string \<Rightarrow> int \<Rightarrow> metric_call list \<Rightarrow> int list" where
  "gauge_values name v [] = [v]"
| "gauge_values name v ((n, ls, c) # cs) = v # gauge_values name (v + (if n = name then op_change c else 0)) cs"

lemma gauge_values_not_Nil [simp]: "gauge_values name v cs \<noteq> []"
  by (cases "(name, v, cs)" rule: gauge_values.cases) auto

lemma gauge_values_append:
  "set (gauge_values name v (cs @ ds)) =
     set (gauge_values name v cs) \<union> set (gauge_values name (v + total name (\<lambda>_. True) cs) ds)"
proof (induction name v cs rule: gauge_values.induct)
  case (1 name v)
  then show ?case by (cases ds) auto
qed (auto simp: algebra_simps)

lemma gauge_values_ends: "v \<in> set (gauge_values name v cs)" "v + total name (\<lambda>_. True) cs \<in> set (gauge_values name v cs)"
  by (induction name v cs rule: gauge_values.induct) (auto simp: algebra_simps)

lemma Min_gauge_append:
  "Min (set (gauge_values name v (cs @ ds))) =
     min (Min (set (gauge_values name v cs))) (Min (set (gauge_values name (v + total name (\<lambda>_. True) cs) ds)))"
  unfolding gauge_values_append by (intro Min_Un) simp_all

lemma Min_gauge_le: "Min (set (gauge_values name v cs)) \<le> v + total name (\<lambda>_. True) cs"
  by (intro Min_le gauge_values_ends) simp

definition active_agrees :: "Monitor \<Rightarrow> bool" where
  "active_agrees m \<longleftrightarrow> sn_SessionsActive (mn_snapshot m) =
     total ''socks_proxy_sessions_active'' (\<lambda>_. True) (mn_calls m)
     - Min (set (gauge_values ''socks_proxy_sessions_active'' 0 (mn_calls m)))"

lemma active_agrees_New: "active_agrees (NewMonitor now)"
  by (simp add: active_agrees_def NewMonitor_def)

lemma active_agrees_on_event:
  assumes "active_agrees m" shows "active_agrees (on_event e m)"
  using assms Min_gauge_le [of "''socks_proxy_sessions_active''" 0 "mn_calls m"]
  by (cases e) (simp_all add: active_agrees_def operation_defs Min_gauge_append)

text \<open>C31. After every history of the monitor the snapshot of the dashboard agrees with the calls that the
  Prometheus collectors got: started, completed and failed sessions, bytes, the three maps of
  counts (modulo 2^64) and the number of learned routes; the gauge of active sessions is the
  started sessions less the finished ones, and the active sessions of the snapshot are the
  gauge less the lowest value it has had, at most 0. So both say the same as long as the gauge
  was never negative, that is, no session finished before it started; if one does, the snapshot
  stays at zero and the gauge goes below.\<close>

theorem snapshot_agrees_with_prometheus:
  "let m = history now es; s = mn_snapshot m; cs = mn_calls m; active = ''socks_proxy_sessions_active''
   in sn_SessionsStarted s = of_int (total ''socks_proxy_sessions_started_total'' (\<lambda>_. True) cs)
    \<and> sn_SessionsComplete s = of_int (total ''socks_proxy_sessions_finished_total'' (\<lambda>ls. hd ls = ''completed'') cs)
    \<and> sn_SessionsFailed s = of_int (total ''socks_proxy_sessions_finished_total'' (\<lambda>ls. hd ls \<noteq> ''completed'') cs)
    \<and> sn_BytesSent s = of_int (total ''socks_proxy_bytes_total'' (\<lambda>ls. ls = [''client_to_target'']) cs)
    \<and> sn_BytesReceived s = of_int (total ''socks_proxy_bytes_total'' (\<lambda>ls. ls = [''target_to_client'']) cs)
    \<and> sn_LearnedRoutes s = last_set ''socks_proxy_learned_routes'' 0 cs
    \<and> counts_agree ''socks_proxy_route_decisions_total'' (sn_RouteDecisions s) cs
    \<and> counts_agree ''socks_proxy_fallback_results_total'' (sn_FallbackResults s) cs
    \<and> counts_agree ''socks_proxy_upstream_results_total'' (sn_UpstreamResults s) cs
    \<and> total active (\<lambda>_. True) cs
       = total ''socks_proxy_sessions_started_total'' (\<lambda>_. True) cs - total ''socks_proxy_sessions_finished_total'' (\<lambda>_. True) cs
    \<and> sn_SessionsActive s = total active (\<lambda>_. True) cs - Min (set (gauge_values active 0 cs))
    \<and> ((\<forall>v \<in> set (gauge_values active 0 cs). 0 \<le> v) \<longrightarrow> sn_SessionsActive s = total active (\<lambda>_. True) cs)"
proof -
  have "agrees (history now es)"
    by (induction es rule: rev_induct) (simp_all add: agrees_on_event agrees_New)
  moreover have "total ''socks_proxy_sessions_active'' (\<lambda>_. True) (mn_calls (history now es))
       = total ''socks_proxy_sessions_started_total'' (\<lambda>_. True) (mn_calls (history now es))
         - total ''socks_proxy_sessions_finished_total'' (\<lambda>_. True) (mn_calls (history now es))"
    by (induction es rule: rev_induct) (simp add: NewMonitor_def, case_tac x, simp_all add: operation_defs)
  moreover have "active_agrees (history now es)"
    by (induction es rule: rev_induct) (simp_all add: active_agrees_on_event active_agrees_New)
  moreover have "Min (set (gauge_values name 0 cs)) = 0" if "\<forall>v \<in> set (gauge_values name 0 cs). 0 \<le> v" for name cs
    using that gauge_values_ends(1) [of 0 name cs] by (intro Min_eqI) auto
  ultimately show ?thesis by (simp add: agrees_def active_agrees_def Let_def)
qed

text \<open>A sample history: two sessions start and one ends.\<close>

definition sample_events :: "monitor_event list" where
  "sample_events = [EvStarted, EvStarted, EvFinished 3 4 1 ''direct'' ''completed'']"

lemma snapshot_agrees_with_prometheus_witness:
  "sn_SessionsActive (mn_snapshot (history 0 sample_events)) = 1
   \<and> sn_SessionsActive (mn_snapshot (history 0 sample_events))
     = total ''socks_proxy_sessions_active'' (\<lambda>_. True) (mn_calls (history 0 sample_events))"
proof -
  have "\<forall>v \<in> set (gauge_values ''socks_proxy_sessions_active'' 0 (mn_calls (history 0 sample_events))). 0 \<le> v"
    by (simp add: sample_events_def history_def NewMonitor_def operation_defs)
  with snapshot_agrees_with_prometheus [of 0 sample_events]
  have "sn_SessionsActive (mn_snapshot (history 0 sample_events))
     = total ''socks_proxy_sessions_active'' (\<lambda>_. True) (mn_calls (history 0 sample_events))"
    unfolding Let_def by blast
  moreover have "sn_SessionsActive (mn_snapshot (history 0 sample_events)) = 1"
    by (simp add: sample_events_def history_def NewMonitor_def operation_defs)
  ultimately show ?thesis by simp
qed

lemma metric_calls_never_panic_witness:
  "list_all (call_ok (mn_registry (history 0 sample_events))) (mn_calls (history 0 sample_events))
   \<and> length (mn_calls (history 0 sample_events)) = 9"
proof -
  have "ValidString ''direct''" "ValidString ''completed''"
    by (simp_all add: ValidString_def char_code_def char_defs)
  then have "\<forall>e \<in> set sample_events. list_all ValidString (event_texts e)"
    by (simp add: sample_events_def)
  with metric_calls_never_panic [of sample_events 0] show ?thesis
    by (simp add: sample_events_def history_def NewMonitor_def operation_defs)
qed

end
