(* ===== verification/Runtime.thy ===== *)
theory Runtime
  imports Session Learned_Props
begin

text \<open>
  The running proxy as a whole (\<^verbatim>\<open>cmd/runtime.go\<close> and the wiring of \<^verbatim>\<open>cmd/micro-socks.go\<close>). Every
  published runtime stays alive as long as a session holds its snapshot, so the state keeps all
  of them in the order of publication; a snapshot is an index. The step relation \<open>sys_step\<close> has
  one rule per mutex-protected operation on shared state, with the arguments the code uses, so
  its runs are the interleavings of sessions, probes, maintenance, dashboard and reloads.
\<close>

section \<open>State\<close>

record proxyRuntime =
  pr_config :: Config
  pr_upstreams :: "Manager option"

text \<open>\<open>sy_cfg\<close> is the global \<^verbatim>\<open>Cfg\<close>, \<open>sy_health\<close> the runtime whose health checks run
  (\<^verbatim>\<open>healthCancel\<close>).\<close>

record 'y system =
  sy_cfg :: "Config option"
  sy_runtimes :: "proxyRuntime list"
  sy_health :: "nat option"
  sy_learned :: "'y Store option"
  sy_probes :: coordinator

datatype reload_error =
    LoadFailed config_error | NotInitialized | ProxyNeedsRestart | AdminNeedsRestart
  | InterfaceNeedsRestart | LearnedFileNeedsRestart | LimitFailed store_error

section \<open>Publishing and reloading\<close>

definition currentRuntime :: "'y system \<Rightarrow> proxyRuntime option" where
  "currentRuntime s =
     (if sy_runtimes s \<noteq> [] then Some (last (sy_runtimes s))
      else map_option (\<lambda>c. \<lparr>pr_config = c, pr_upstreams = None\<rparr>) (sy_cfg s))"

definition installRuntime :: "Config \<Rightarrow> 'y system \<Rightarrow> 'y system" where
  "installRuntime cfg s =
     (let upstreams = Some (New (cf_Upstreams cfg) (cf_UpstreamHealth cfg))
      in s\<lparr>sy_runtimes := sy_runtimes s @ [\<lparr>pr_config = cfg, pr_upstreams = upstreams\<rparr>],
           sy_health := (if Enabled upstreams then Some (length (sy_runtimes s)) else None)\<rparr>)"

definition stopRuntimeHealth :: "'y system \<Rightarrow> 'y system" where
  "stopRuntimeHealth s = s\<lparr>sy_health := None\<rparr>"

definition validateReload :: "Config \<Rightarrow> Config \<Rightarrow> reload_error option" where
  "validateReload cur next =
     (if px_Address (cf_Proxy cur) \<noteq> px_Address (cf_Proxy next) \<or> px_Port (cf_Proxy cur) \<noteq> px_Port (cf_Proxy next)
      then Some ProxyNeedsRestart
      else if cf_Admin cur \<noteq> cf_Admin next then Some AdminNeedsRestart
      else if fs_Interface (cf_FakeSni cur) \<noteq> fs_Interface (cf_FakeSni next) then Some InterfaceNeedsRestart
      else if dt_LearnedDomainsFile (cf_Detection cur) \<noteq> dt_LearnedDomainsFile (cf_Detection next)
      then Some LearnedFileNeedsRestart
      else None)"

text \<open>\<open>loaded\<close> is the result of \<^verbatim>\<open>LoadConfig\<close> on the configuration file. The result is \<open>None\<close> when
  the loop of \<^verbatim>\<open>PruneToLimit\<close> does not end.\<close>

definition reloadRuntime ::
  "'y yaml \<Rightarrow> save_fault \<Rightarrow> (config_error + Config) \<Rightarrow> 'y system \<Rightarrow> (reload_error option \<times> 'y system) option" where
  "reloadRuntime Y fault loaded s =
     (case loaded of
        Inl e \<Rightarrow> Some (Some (LoadFailed e), s)
      | Inr next \<Rightarrow>
          (case currentRuntime s of
             None \<Rightarrow> Some (Some NotInitialized, s)
           | Some cur \<Rightarrow>
               (case validateReload (pr_config cur) next of
                  Some e \<Rightarrow> Some (Some e, s)
                | None \<Rightarrow>
                    (case sy_learned s of
                       None \<Rightarrow> Some (None, installRuntime next s)
                     | Some st \<Rightarrow>
                         (case PruneToLimit Y fault st (LearnedLimit (cf_Detection next)) of
                            None \<Rightarrow> None
                          | Some (Inl e, st') \<Rightarrow> Some (Some (LimitFailed e), s\<lparr>sy_learned := Some st'\<rparr>)
                          | Some (Inr _, st') \<Rightarrow> Some (None, installRuntime next (s\<lparr>sy_learned := Some st'\<rparr>)))))))"

text \<open>The start of \<^verbatim>\<open>main\<close>, up to the point where connections are accepted; \<open>None\<close> when the loop
  of \<^verbatim>\<open>PruneToLimit\<close> does not end, an error is fatal.\<close>

datatype boot_error = ConfigFatal config_error | LearnedFatal store_error

definition boot ::
  "'y yaml \<Rightarrow> (config_error + Config) \<Rightarrow> 'y read_result \<Rightarrow> save_fault \<Rightarrow> save_fault \<Rightarrow> time \<Rightarrow>
   (boot_error + 'y system) option" where
  "boot Y loaded content f1 f2 now =
     (case loaded of
        Inl e \<Rightarrow> Some (Inl (ConfigFatal e))
      | Inr cfg \<Rightarrow>
          (case startup_store Y (dt_LearnedDomainsFile (cf_Detection cfg)) content f1 f2
                  (LearnedTTL (cf_Detection cfg)) (LearnedLimit (cf_Detection cfg)) now of
             None \<Rightarrow> None
           | Some (Inl e) \<Rightarrow> Some (Inl (LearnedFatal e))
           | Some (Inr st) \<Rightarrow>
               Some (Inr (installRuntime cfg
                 \<lparr>sy_cfg = Some cfg, sy_runtimes = [], sy_health = None, sy_learned = Some st,
                  sy_probes = newProbeCoordinator\<rparr>))))"

section \<open>Snapshots\<close>

text \<open>What a session with the snapshot \<open>i\<close> works on, and the state after it has worked.\<close>

definition world_of :: "nat \<Rightarrow> 'y system \<Rightarrow> 'y world" where
  "world_of i s = \<lparr>wd_manager = pr_upstreams (sy_runtimes s ! i), wd_learned = sy_learned s\<rparr>"

definition put_manager :: "nat \<Rightarrow> Manager option \<Rightarrow> 'y system \<Rightarrow> 'y system" where
  "put_manager i m s =
     s\<lparr>sy_runtimes := (sy_runtimes s)[i := (sy_runtimes s ! i)\<lparr>pr_upstreams := m\<rparr>]\<rparr>"

definition put_world :: "nat \<Rightarrow> 'y world \<Rightarrow> 'y system \<Rightarrow> 'y system" where
  "put_world i w s = (put_manager i (wd_manager w) s)\<lparr>sy_learned := wd_learned w\<rparr>"

text \<open>A session and a probe on the whole state.\<close>

definition session :: "'y yaml \<Rightarrow> save_fault \<Rightarrow> env \<Rightarrow> nat \<Rightarrow> conn \<Rightarrow> 'y system \<Rightarrow> ('y session_result \<times> conn) \<times> 'y system" where
  "session Y fault ev i c s =
     (let r = ProcessRequest Y fault ev (pr_config (sy_runtimes s ! i)) c (world_of i s)
      in (r, put_world i (sr_world (fst r)) s))"

section \<open>Steps\<close>

text \<open>
  One rule per operation: admission and report of a dial, a health check or a probe, on the
  manager of any runtime; learning under the limit of any runtime (a session learns under the
  limit of its snapshot, the dashboard under that of the last runtime); the use of a learned
  route; deletion from the dashboard; expiry under the current configuration and flushing by the
  maintenance loop; start and end of a probe; and a reload. The pruning of a reload and the
  publication of its runtime are two critical sections, so they are also two rules, between which
  the other operations may run; \<open>reload\<close> is the case that none does.
\<close>

inductive sys_step :: "'y yaml \<Rightarrow> 'y system \<Rightarrow> 'y system \<Rightarrow> bool" for Y where
  allow: "i < length (sy_runtimes s) \<Longrightarrow> Allow_opt now name (pr_upstreams (sy_runtimes s ! i)) = (b, m) \<Longrightarrow>
    sys_step Y s (put_manager i m s)"
| report: "i < length (sy_runtimes s) \<Longrightarrow> Record_opt now name err (pr_upstreams (sy_runtimes s ! i)) = (v, m) \<Longrightarrow>
    sys_step Y s (put_manager i m s)"
| learn: "i < length (sy_runtimes s) \<Longrightarrow> sy_learned s = Some st \<Longrightarrow>
    AddWithLimit Y fault now st host up reason (LearnedLimit (cf_Detection (pr_config (sy_runtimes s ! i)))) = (r, st') \<Longrightarrow>
    sys_step Y s (s\<lparr>sy_learned := Some st'\<rparr>)"
| used: "sy_learned s = Some st \<Longrightarrow> MarkUsed st host now = (b, st') \<Longrightarrow> sys_step Y s (s\<lparr>sy_learned := Some st'\<rparr>)"
| forget: "sy_learned s = Some st \<Longrightarrow> Delete Y fault st host = (r', st') \<Longrightarrow> sys_step Y s (s\<lparr>sy_learned := Some st'\<rparr>)"
| expire: "sy_learned s = Some st \<Longrightarrow> currentRuntime s = Some cur \<Longrightarrow>
    PruneExpired Y fault st (LearnedTTL (cf_Detection (pr_config cur))) now = (n, st') \<Longrightarrow>
    sys_step Y s (s\<lparr>sy_learned := Some st'\<rparr>)"
| flush: "sy_learned s = Some st \<Longrightarrow> Flush Y fault st = (e, st') \<Longrightarrow> sys_step Y s (s\<lparr>sy_learned := Some st'\<rparr>)"
| probe_start: "Start host now (sy_probes s) = (r'', p) \<Longrightarrow> sys_step Y s (s\<lparr>sy_probes := p\<rparr>)"
| probe_end: "active_in (sy_probes s) (normalizeProbeHost host) \<Longrightarrow>
    sys_step Y s (s\<lparr>sy_probes := Done host t (sy_probes s)\<rparr>)"
| reload: "reloadRuntime Y fault (LoadConfig decoded dir files) s = Some (err', s') \<Longrightarrow> sys_step Y s s'"
| reload_prune: "LoadConfig decoded dir files = Inr next_cfg \<Longrightarrow> currentRuntime s = Some cur \<Longrightarrow>
    validateReload (pr_config cur) next_cfg = None \<Longrightarrow> sy_learned s = Some st \<Longrightarrow>
    PruneToLimit Y fault st (LearnedLimit (cf_Detection next_cfg)) = Some (n, st') \<Longrightarrow>
    sys_step Y s (s\<lparr>sy_learned := Some st'\<rparr>)"
| reload_install: "LoadConfig decoded dir files = Inr next_cfg \<Longrightarrow> currentRuntime s = Some cur \<Longrightarrow>
    validateReload (pr_config cur) next_cfg = None \<Longrightarrow> sys_step Y s (installRuntime next_cfg s)"
| halt: "sys_step Y s (stopRuntimeHealth s)"

inductive sys_reachable :: "'y yaml \<Rightarrow> 'y system \<Rightarrow> bool" for Y where
  booted: "boot Y (LoadConfig decoded dir files) content f1 f2 now = Some (Inr s) \<Longrightarrow> sys_reachable Y s"
| step: "sys_reachable Y s \<Longrightarrow> sys_step Y s s' \<Longrightarrow> sys_reachable Y s'"

end
