(* ===== verification/Runtime_Props.thy ===== *)
theory Runtime_Props
  imports Runtime Session_Props
begin

text \<open>
  Properties of the whole running state: the invariant of every interleaving of sessions,
  probes, maintenance and reloads; a session as a run of elementary steps; what a reload does
  and what it leaves alone.
\<close>

section \<open>The invariant\<close>

definition runtime_ok :: "proxyRuntime \<Rightarrow> bool" where
  "runtime_ok rt \<longleftrightarrow> Validate (pr_config rt) = None \<and>
     (\<exists>m. pr_upstreams rt = Some m \<and> manager_ok m \<and> mg_upstreams m = cf_Upstreams (pr_config rt)
        \<and> mg_config m = cf_UpstreamHealth (pr_config rt))"

text \<open>The settings a reload may not change.\<close>

definition same_resources :: "Config \<Rightarrow> Config \<Rightarrow> bool" where
  "same_resources c c' \<longleftrightarrow>
     px_Address (cf_Proxy c) = px_Address (cf_Proxy c') \<and> px_Port (cf_Proxy c) = px_Port (cf_Proxy c')
     \<and> cf_Admin c = cf_Admin c' \<and> fs_Interface (cf_FakeSni c) = fs_Interface (cf_FakeSni c')
     \<and> dt_LearnedDomainsFile (cf_Detection c) = dt_LearnedDomainsFile (cf_Detection c')"

definition limit_of :: "proxyRuntime \<Rightarrow> int" where
  "limit_of rt = LearnedLimit (cf_Detection (pr_config rt))"

definition sys_ok :: "'y system \<Rightarrow> bool" where
  "sys_ok s \<longleftrightarrow> sy_runtimes s \<noteq> [] \<and> (\<forall>rt \<in> set (sy_runtimes s). runtime_ok rt)
     \<and> (\<forall>rt \<in> set (sy_runtimes s). same_resources (pr_config (hd (sy_runtimes s))) (pr_config rt))
     \<and> (\<exists>st. sy_learned s = Some st \<and> store_ok st
          \<and> (\<exists>rt \<in> set (sy_runtimes s). int (length (st_domains st)) \<le> limit_of rt))
     \<and> probes_ok (sy_probes s)
     \<and> sy_health s \<in> {None, Some (length (sy_runtimes s) - 1)}"

lemma Validate_limit_pos: "Validate c = None \<Longrightarrow> 0 < LearnedLimit (cf_Detection c)"
  using Validate_None(6) [of c] by (simp add: LearnedLimit_def)

lemma limit_pos: "runtime_ok rt \<Longrightarrow> 0 < limit_of rt"
  by (simp add: runtime_ok_def limit_of_def Validate_limit_pos)

lemma LoadConfig_valid: "LoadConfig decoded dir files = Inr c \<Longrightarrow> Validate c = None"
  by (auto elim: LoadConfig_Inr)

lemma validateReload_None: "validateReload c c' = None \<longleftrightarrow> same_resources c c'"
  by (auto simp: validateReload_def same_resources_def)

lemma same_resources_refl [simp]: "same_resources c c"
  by (simp add: same_resources_def)

lemma same_resources_trans: "same_resources a b \<Longrightarrow> same_resources b c \<Longrightarrow> same_resources a c"
  by (simp add: same_resources_def)

lemma runtime_ok_New: "Validate c = None \<Longrightarrow> runtime_ok \<lparr>pr_config = c, pr_upstreams = Some (New (cf_Upstreams c) (cf_UpstreamHealth c))\<rparr>"
  by (simp add: runtime_ok_def manager_ok_New) (simp add: New_def)

section \<open>Preservation\<close>

lemma put_manager_simps [simp]:
  "sy_learned (put_manager i m s) = sy_learned s" "sy_probes (put_manager i m s) = sy_probes s"
  "sy_health (put_manager i m s) = sy_health s" "sy_cfg (put_manager i m s) = sy_cfg s"
  "length (sy_runtimes (put_manager i m s)) = length (sy_runtimes s)"
  by (simp_all add: put_manager_def)

lemma put_manager_config:
  "j < length (sy_runtimes s) \<Longrightarrow> pr_config (sy_runtimes (put_manager i m s) ! j) = pr_config (sy_runtimes s ! j)"
  by (cases "i = j") (simp_all add: put_manager_def)

text \<open>An operation on one manager keeps the invariant, since the configurations stay.\<close>

lemma put_manager_ok:
  assumes ok: "sys_ok s" and i: "i < length (sy_runtimes s)"
    and m: "\<And>m. pr_upstreams (sy_runtimes s ! i) = Some m \<Longrightarrow> \<exists>m'. x = Some m' \<and> (manager_ok m \<longrightarrow> manager_ok m')
      \<and> mg_upstreams m' = mg_upstreams m \<and> mg_config m' = mg_config m"
  shows "sys_ok (put_manager i x s)"
proof -
  let ?s' = "put_manager i x s"
  note len = put_manager_simps(5) [of i x s]
  have rt: "runtime_ok (sy_runtimes s ! j)" "same_resources (pr_config (hd (sy_runtimes s))) (pr_config (sy_runtimes s ! j))"
    if "j < length (sy_runtimes s)" for j
    using ok that by (simp_all add: sys_ok_def)
  have ne: "sy_runtimes s \<noteq> []" and ne': "sy_runtimes ?s' \<noteq> []" using i len by (metis length_0_conv not_less0)+
  have rt': "runtime_ok (sy_runtimes ?s' ! j)" if j: "j < length (sy_runtimes s)" for j
  proof (cases "j = i")
    case True
    then show ?thesis using rt(1) [OF i] m i by (auto simp: put_manager_def runtime_ok_def)
  next
    case False
    then show ?thesis using rt(1) [OF j] by (simp add: put_manager_def)
  qed
  have "pr_config (hd (sy_runtimes ?s')) = pr_config (hd (sy_runtimes s))"
    using ne ne' put_manager_config [of 0 s i x] by (simp add: hd_conv_nth)
  moreover have "limit_of (sy_runtimes ?s' ! j) = limit_of (sy_runtimes s ! j)" if "j < length (sy_runtimes s)" for j
    using that by (simp add: limit_of_def put_manager_config)
  moreover obtain st j where "sy_learned s = Some st" "store_ok st" "j < length (sy_runtimes s)"
      "int (length (st_domains st)) \<le> limit_of (sy_runtimes s ! j)"
    using ok by (auto simp: sys_ok_def in_set_conv_nth)
  ultimately show ?thesis using ok rt rt' ne' len
    by (auto simp: sys_ok_def all_set_conv_all_nth put_manager_config intro!: bexI [of _ "sy_runtimes ?s' ! j"])
qed

lemma learned_ok:
  assumes "sys_ok s" "sy_learned s = Some st" "store_ok st \<Longrightarrow> store_ok st'"
    and "\<And>limit. store_ok st \<Longrightarrow> 0 < limit \<Longrightarrow> int (length (st_domains st)) \<le> limit \<Longrightarrow>
      \<exists>rt \<in> set (sy_runtimes s). int (length (st_domains st')) \<le> max limit (limit_of rt)"
  shows "sys_ok (s\<lparr>sy_learned := Some st'\<rparr>)"
proof -
  obtain rt where rt: "rt \<in> set (sy_runtimes s)" "int (length (st_domains st)) \<le> limit_of rt" "store_ok st" "runtime_ok rt"
    using assms(1,2) by (auto simp: sys_ok_def)
  then obtain rt2 where rt2: "rt2 \<in> set (sy_runtimes s)" "int (length (st_domains st')) \<le> max (limit_of rt) (limit_of rt2)"
    using assms(4) [OF rt(3) limit_pos] by blast
  have "\<exists>rt \<in> set (sy_runtimes s). int (length (st_domains st')) \<le> limit_of rt"
  proof (cases "int (length (st_domains st')) \<le> limit_of rt")
    case False
    then show ?thesis using rt2 by (intro bexI [of _ rt2]) (auto simp: max_def split: if_splits)
  qed (use rt(1) in blast)
  then show ?thesis using assms(1,3) rt(3) by (simp add: sys_ok_def)
qed

text \<open>A step that does not grow the table needs no runtime.\<close>

lemma learned_ok_shrink:
  assumes "sys_ok s" "sy_learned s = Some st" "store_ok st \<Longrightarrow> store_ok st' \<and> length (st_domains st') \<le> length (st_domains st)"
  shows "sys_ok (s\<lparr>sy_learned := Some st'\<rparr>)"
proof -
  obtain rt where "rt \<in> set (sy_runtimes s)" using assms(1) by (auto simp: sys_ok_def neq_Nil_conv)
  then show ?thesis using assms(3) by (intro learned_ok [OF assms(1,2)]) fastforce+
qed

lemma installRuntime_ok:
  assumes "sys_ok s" "Validate c = None" "same_resources (pr_config (last (sy_runtimes s))) c"
  shows "sys_ok (installRuntime c s)"
proof -
  have ne: "sy_runtimes s \<noteq> []" using assms(1) by (simp add: sys_ok_def)
  then have "same_resources (pr_config (hd (sy_runtimes s))) (pr_config (last (sy_runtimes s)))"
    using assms(1) by (simp add: sys_ok_def)
  from same_resources_trans [OF this assms(3)] show ?thesis
    using assms(1) ne runtime_ok_New [OF assms(2)] by (auto simp: sys_ok_def installRuntime_def Let_def)
qed

text \<open>Above the limit an insertion evicts one entry only: the table does not shrink back.\<close>

lemma AddWithLimit_grows:
  assumes "store_ok st" "0 < limit" "AddWithLimit Y fault now st host up reason limit = (r, st')"
  shows "int (length (st_domains st')) \<le> max limit (int (length (st_domains st)))"
proof (cases "int (length (st_domains st)) \<le> limit")
  case True
  then show ?thesis using AddWithLimit_length [OF assms(1,2) True assms(3)] by simp
next
  case False
  then have big: "0 < int (length (st_domains st))" using assms(2) by linarith
  from assms(3) show ?thesis
  proof (cases rule: AddWithLimit_cases)
    case (added content)
    have "evicts st (normalizeHost host) limit = evicts st (normalizeHost host) (int (length (st_domains st)))"
      using False big assms(2) by (simp add: evicts_def)
    from length_with_new [OF assms(1) big order_refl this] added show ?thesis by (simp add: max.coboundedI2)
  next
    case (undone err)
    with length_put_back [OF assms(1) refl] show ?thesis by simp
  qed simp_all
qed

lemma reload_cases [consumes 2]:
  assumes "reloadRuntime Y fault loaded s = Some (e, s')" "sys_ok s"
  obtains (refused) err where "e = Some err" "s' = s"
  | (unsaved) limit err st st' where "e = Some (LimitFailed err)" "sy_learned s = Some st" "s' = s\<lparr>sy_learned := Some st'\<rparr>"
      "PruneToLimit Y fault st limit = Some (Inl err, st')"
  | (reloaded) next_cfg st st' n where "e = None" "loaded = Inr next_cfg" "sy_learned s = Some st"
      "same_resources (pr_config (last (sy_runtimes s))) next_cfg"
      "PruneToLimit Y fault st (LearnedLimit (cf_Detection next_cfg)) = Some (Inr n, st')"
      "s' = installRuntime next_cfg (s\<lparr>sy_learned := Some st'\<rparr>)"
proof -
  obtain st where st: "sy_learned s = Some st" using assms(2) by (auto simp: sys_ok_def)
  have cur: "currentRuntime s = Some (last (sy_runtimes s))" using assms(2) by (simp add: sys_ok_def currentRuntime_def)
  show thesis
  proof (cases loaded)
    case (Inl x)
    then show thesis using assms(1) by (intro refused [of "LoadFailed x"]) (simp_all add: reloadRuntime_def)
  next
    case (Inr c)
    show thesis
    proof (cases "validateReload (pr_config (last (sy_runtimes s))) c")
      case (Some x)
      then show thesis using assms(1) Inr cur by (intro refused [of x]) (simp_all add: reloadRuntime_def)
    next
      case None
      note defs = reloadRuntime_def Inr cur None st
      obtain r st' where p: "PruneToLimit Y fault st (LearnedLimit (cf_Detection c)) = Some (r, st')"
        using assms(1) by (cases "PruneToLimit Y fault st (LearnedLimit (cf_Detection c))") (auto simp: defs)
      show thesis
      proof (cases r)
        case (Inl x)
        then show thesis using assms(1) p st by (intro unsaved [of x st st' "LearnedLimit (cf_Detection c)"]) (simp_all add: defs)
      next
        case ok: (Inr n)
        then show thesis using assms(1) p st None Inr
          by (intro reloaded [of c st n st']) (simp_all add: defs validateReload_None [symmetric])
      qed
    qed
  qed
qed

lemma reload_ok:
  assumes "reloadRuntime Y fault (LoadConfig decoded dir files) s = Some (e, s')" "sys_ok s"
  shows "sys_ok s'"
  using assms
proof (cases rule: reload_cases)
  case (unsaved limit err st st')
  then show ?thesis using PruneToLimit_ok [OF _ unsaved(4)]
    by (auto intro: learned_ok_shrink [OF assms(2)])
next
  case (reloaded next_cfg st st' n)
  have "sys_ok (s\<lparr>sy_learned := Some st'\<rparr>)"
    using PruneToLimit_ok [OF _ reloaded(5)] by (auto intro: learned_ok_shrink [OF assms(2) reloaded(3)])
  then show ?thesis unfolding reloaded(6)
    by (rule installRuntime_ok) (use LoadConfig_valid reloaded in auto)
qed (use assms in simp)

lemma sys_step_ok:
  assumes "sys_step Y s s'" "sys_ok s"
  shows "sys_ok s'"
  using assms(1)
proof cases
  case (allow i now name b m)
  show ?thesis unfolding allow(1)
    by (rule put_manager_ok [OF assms(2) allow(2)]) (use allow(3) in \<open>auto simp: Allow_opt_def Allow_ok dest!: arg_cong [of _ _ snd]\<close>)
next
  case (report i now name err v m)
  show ?thesis unfolding report(1)
    by (rule put_manager_ok [OF assms(2) report(2)]) (use report(3) in \<open>auto simp: Record_opt_def Record_ok dest!: arg_cong [of _ _ snd]\<close>)
next
  case (learn i st fault host up reason now r st')
  have "sy_runtimes s ! i \<in> set (sy_runtimes s)" using learn(2) by simp
  moreover from this have "0 < limit_of (sy_runtimes s ! i)" using assms(2) by (auto simp: sys_ok_def intro: limit_pos)
  ultimately have "int (length (st_domains st')) \<le> max limit (limit_of (sy_runtimes s ! i))"
    if "store_ok st" "int (length (st_domains st)) \<le> limit" for limit
    using AddWithLimit_grows [OF that(1) _ learn(4)] that(2) by (auto simp: limit_of_def)
  moreover have "sy_runtimes s ! i \<in> set (sy_runtimes s)" using learn(2) by simp
  ultimately show ?thesis unfolding learn(1)
    using AddWithLimit_ok [OF _ learn(4)] by (intro learned_ok [OF assms(2) learn(3)]) blast+
next
  case (used st host now b st')
  then show ?thesis using MarkUsed_ok [OF _ used(3)] MarkUsed_length [OF _ used(3)]
    by (auto intro!: learned_ok_shrink [OF assms(2)])
next
  case (forget st fault host r' st')
  then show ?thesis using Delete_ok [OF _ forget(3)] Delete_length [OF _ forget(3)]
    by (auto intro!: learned_ok_shrink [OF assms(2)])
next
  case (expire st cur fault now n st')
  then show ?thesis using PruneExpired_ok [OF _ expire(4)] by (auto intro!: learned_ok_shrink [OF assms(2)])
next
  case (flush st fault e st')
  then show ?thesis using Flush_domains [OF flush(3)] by (auto simp: store_ok_iff intro!: learned_ok_shrink [OF assms(2)])
next
  case (probe_start host now r'' p)
  then show ?thesis using assms(2) Start_ok [of "sy_probes s" host now] by (simp add: sys_ok_def)
next
  case (probe_end host t)
  then show ?thesis using assms(2) Done_ok by (simp add: sys_ok_def)
next
  case (reload fault decoded dir files err')
  then show ?thesis using reload_ok assms(2) by blast
next
  case (reload_prune decoded dir files next_cfg cur st fault n st')
  then show ?thesis using PruneToLimit_ok [OF _ reload_prune(6)] by (auto intro!: learned_ok_shrink [OF assms(2)])
next
  case (reload_install decoded dir files next_cfg cur)
  have "sy_runtimes s \<noteq> []" using assms(2) by (simp add: sys_ok_def)
  then have "pr_config cur = pr_config (last (sy_runtimes s))" using reload_install(3) by (simp add: currentRuntime_def)
  then have "same_resources (pr_config (last (sy_runtimes s))) next_cfg"
    using reload_install(4) by (simp add: validateReload_None)
  then show ?thesis unfolding reload_install(1)
    using installRuntime_ok [OF assms(2) LoadConfig_valid [OF reload_install(2)]] by blast
next
  case halt
  then show ?thesis using assms(2) by (simp add: sys_ok_def stopRuntimeHealth_def)
qed

lemma boot_ok:
  assumes "boot Y (LoadConfig decoded dir files) content f1 f2 now = Some (Inr s)"
  shows "sys_ok s"
proof -
  obtain c st where c: "LoadConfig decoded dir files = Inr c"
    and st: "startup_store Y (dt_LearnedDomainsFile (cf_Detection c)) content f1 f2
        (LearnedTTL (cf_Detection c)) (LearnedLimit (cf_Detection c)) now = Some (Inr st)"
    and s: "s = installRuntime c \<lparr>sy_cfg = Some c, sy_runtimes = [], sy_health = None, sy_learned = Some st,
      sy_probes = newProbeCoordinator\<rparr>"
    using assms by (auto simp: boot_def split: sum.splits option.splits)
  have v: "Validate c = None" by (rule LoadConfig_valid [OF c])
  from startup_store_bounded [OF Validate_limit_pos [OF v] st] runtime_ok_New [OF v] show ?thesis
    by (simp add: s sys_ok_def installRuntime_def Let_def store_bounded_def limit_of_def probes_ok_def newProbeCoordinator_def)
qed

lemma sys_reachable_ok: "sys_reachable Y s \<Longrightarrow> sys_ok s"
  by (induction rule: sys_reachable.induct) (auto intro: boot_ok sys_step_ok)


section \<open>Sessions as runs\<close>

lemma put_manager_same [simp]: "i < length (sy_runtimes s) \<Longrightarrow> put_manager i (pr_upstreams (sy_runtimes s ! i)) s = s"
  by (simp add: put_manager_def)

lemma put_manager_twice [simp]:
  "i < length (sy_runtimes s) \<Longrightarrow> put_manager i m' (put_manager i m s) = put_manager i m' s"
  by (simp add: put_manager_def)

lemma put_manager_at [simp]:
  "i < length (sy_runtimes s) \<Longrightarrow> pr_upstreams (sy_runtimes (put_manager i m s) ! i) = m"
  by (simp add: put_manager_def)

lemma put_world_same [simp]: "i < length (sy_runtimes s) \<Longrightarrow> put_world i (world_of i s) s = s"
  by (simp add: put_world_def world_of_def)

lemma learned_same: "sy_learned s = x \<Longrightarrow> s\<lparr>sy_learned := x\<rparr> = s"
  by auto

lemma world_of_simps [simp]:
  "wd_manager (world_of i s) = pr_upstreams (sy_runtimes s ! i)" "wd_learned (world_of i s) = sy_learned s"
  by (simp_all add: world_of_def)

text \<open>An admission followed by a report, the two steps of every dial.\<close>

lemma allow_report_run:
  assumes i: "i < length (sy_runtimes s)"
    and "Allow_opt t name (pr_upstreams (sy_runtimes s ! i)) = (b, m1)" "Record_opt t' name err m1 = (v, m2)"
  shows "(sys_step Y)\<^sup>*\<^sup>* s (put_manager i m2 s)"
proof -
  have "sys_step Y s (put_manager i m1 s)" by (rule sys_step.allow [OF i assms(2)])
  moreover have "sys_step Y (put_manager i m1 s) (put_manager i m2 (put_manager i m1 s))"
    by (rule sys_step.report [where now = t' and name = name and err = err and v = v]) (use i assms(3) in simp_all)
  ultimately show ?thesis using i by simp
qed

lemma dialUpstream_run:
  assumes i: "i < length (sy_runtimes s)"
    and d: "dialUpstream ev cfg name host port (pr_upstreams (sy_runtimes s ! i)) = (r, m)"
  shows "(sys_step Y)\<^sup>*\<^sup>* s (put_manager i m s)"
proof (cases "map_of (cf_Upstreams cfg) name")
  case None
  then show ?thesis using d i by (auto simp: dialUpstream_def)
next
  case (Some u)
  obtain b m1 where a: "Allow_opt (ev_allow ev) name (pr_upstreams (sy_runtimes s ! i)) = (b, m1)" by fastforce
  show ?thesis
  proof (cases b)
    case False
    then show ?thesis using d Some a sys_step.allow [OF i a] by (auto simp: dialUpstream_def)
  next
    case True
    then have "\<exists>err. m = snd (Record_opt (ev_record ev) name err m1)"
      using d Some a by (auto simp: dialUpstream_def split: sum.splits)
    then obtain err v where "Record_opt (ev_record ev) name err m1 = (v, m)" by (metis prod.collapse)
    from allow_report_run [OF i a this] show ?thesis .
  qed
qed

lemma learn_run:
  assumes "i < length (sy_runtimes s)"
  shows "(sys_step Y)\<^sup>*\<^sup>* s (s\<lparr>sy_learned := map_option (\<lambda>st. snd (AddWithLimit Y fault now st host up reason
    (LearnedLimit (cf_Detection (pr_config (sy_runtimes s ! i)))))) (sy_learned s)\<rparr>)"
proof (cases "sy_learned s")
  case (Some st)
  from sys_step.learn [OF assms Some prod.collapse [symmetric]] show ?thesis by (simp add: Some r_into_rtranclp)
qed (simp add: learned_same)

lemma used_run:
  "(sys_step Y)\<^sup>*\<^sup>* s (s\<lparr>sy_learned := map_option (\<lambda>st. snd (MarkUsed st host now)) (sy_learned s)\<rparr>)"
proof (cases "sy_learned s")
  case (Some st)
  from sys_step.used [OF Some prod.collapse [symmetric]] show ?thesis by (simp add: Some r_into_rtranclp)
qed (simp add: learned_same)

lemma dialed_run:
  assumes "i < length (sy_runtimes s)"
    and "dialUpstream ev (pr_config (sy_runtimes s ! i)) name host port (pr_upstreams (sy_runtimes s ! i)) = (x, m)"
  shows "(sys_step Y)\<^sup>*\<^sup>* s (put_world i ((world_of i s)\<lparr>wd_manager := m\<rparr>) s)"
  using dialUpstream_run [OF assms] by (simp add: put_world_def learned_same)

lemma fallback_run:
  assumes i: "i < length (sy_runtimes s)"
    and c: "connectAfterDirectFailure Y fault ev (pr_config (sy_runtimes s ! i)) policy host port (world_of i s) = (r, policy', w)"
  shows "(sys_step Y)\<^sup>*\<^sup>* s (put_world i w s)"
proof -
  let ?cfg = "pr_config (sy_runtimes s ! i)"
  obtain x m where x: "dialUpstream ev ?cfg (rp_Fallback policy) host port (pr_upstreams (sy_runtimes s ! i)) = (x, m)" by fastforce
  show ?thesis
  proof (cases x)
    case (Inl e)
    then have "w = (world_of i s)\<lparr>wd_manager := m\<rparr>" using c x by (simp add: connectAfterDirectFailure_def Let_def)
    with dialed_run [OF i x] show ?thesis by simp
  next
    case (Inr t)
    let ?s1 = "put_manager i m s"
    have m: "wd_manager w = m" using c x Inr by (auto simp: connectAfterDirectFailure_def Let_def)
    have run: "(sys_step Y)\<^sup>*\<^sup>* s ?s1" by (rule dialUpstream_run [OF i x])
    show ?thesis
    proof (cases "fst (CanLearn (cf_Detection ?cfg) host)")
      case False
      then have "wd_learned w = sy_learned s"
        using c x Inr by (auto simp: connectAfterDirectFailure_def Let_def split: option.splits)
      then show ?thesis using run m by (simp add: put_world_def learned_same)
    next
      case True
      then have "wd_learned w = map_option (\<lambda>st. snd (AddWithLimit Y fault (ev_later ev) st host (rp_Fallback policy)
          ''direct-connect-failure-upstream-success'' (LearnedLimit (cf_Detection ?cfg)))) (sy_learned s)"
        using c x Inr by (auto simp: connectAfterDirectFailure_def Let_def split: option.splits)
      then show ?thesis
        using rtranclp_trans [OF run learn_run [of i ?s1 Y fault "ev_later ev" host "rp_Fallback policy"
            "''direct-connect-failure-upstream-success''"]] i m put_manager_config [OF i, of i m]
        by (simp add: put_world_def)
    qed
  qed
qed

lemma dial_target_run:
  assumes i: "i < length (sy_runtimes s)"
    and d: "dial_target Y fault ev (pr_config (sy_runtimes s ! i)) policy rq (world_of i s) = (r, policy', w)"
  shows "(sys_step Y)\<^sup>*\<^sup>* s (put_world i w s)"
proof -
  let ?cfg = "pr_config (sy_runtimes s ! i)" and ?addr = "JoinHostPort (rq_host rq) (Itoa (unat (rq_port rq)))"
  consider (socks) "rp_Egress policy = ''socks5''"
    | (same) "rp_Egress policy \<noteq> ''socks5''" "ev_direct ev ?addr \<noteq> None \<or> \<not> fallback_allowed policy"
    | (fall) "rp_Egress policy \<noteq> ''socks5''" "ev_direct ev ?addr = None" "fallback_allowed policy" by blast
  then show ?thesis
  proof cases
    case socks
    obtain y k where "dialUpstream ev ?cfg (rp_Upstream policy) (rq_host rq) (rq_port rq) (pr_upstreams (sy_runtimes s ! i)) = (y, k)"
      by fastforce
    from dialed_run [OF i this] this show ?thesis using d socks by (simp add: dial_target_def)
  next
    case same
    then have "w = world_of i s" using d by (auto simp: dial_target_def split: option.splits)
    then show ?thesis using i by simp
  next
    case fall
    with d show ?thesis by (intro fallback_run [OF i]) (simp add: dial_target_def)
  qed
qed

text \<open>C14. A session is no more than a run of the elementary steps: whatever the client sends and the
  network answers, its effect on the shared state is that of a sequence of admissions, reports,
  insertions and marks, each of which can be interleaved with those of other sessions. It
  leaves the managers of other runtimes, every configuration and the probes alone.\<close>

theorem session_is_a_run:
  assumes i: "i < length (sy_runtimes s)" and "session Y fault ev i c s = (r, s')"
  shows "(sys_step Y)\<^sup>*\<^sup>* s s' \<and> length (sy_runtimes s') = length (sy_runtimes s)
    \<and> (\<forall>j < length (sy_runtimes s). j \<noteq> i \<longrightarrow> sy_runtimes s' ! j = sy_runtimes s ! j)
    \<and> pr_config (sy_runtimes s' ! i) = pr_config (sy_runtimes s ! i)
    \<and> sy_probes s' = sy_probes s \<and> sy_health s' = sy_health s"
proof -
  obtain res c' where p: "ProcessRequest Y fault ev (pr_config (sy_runtimes s ! i)) c (world_of i s) = (res, c')" by fastforce
  then have s': "s' = put_world i (sr_world res) s" using assms(2) by (simp add: session_def Let_def)
  have "(sys_step Y)\<^sup>*\<^sup>* s s'"
    using p
  proof (cases rule: ProcessRequest_cases)
    case refused
    then show ?thesis using s' i by simp
  next
    case (dialed rq d policy w1)
    let ?s1 = "put_world i w1 s"
    have run: "(sys_step Y)\<^sup>*\<^sup>* s ?s1" by (rule dial_target_run [OF i dialed(3)])
    show ?thesis
    proof (cases "sr_world res = w1")
      case False
      then have "s' = ?s1\<lparr>sy_learned := map_option (\<lambda>st. snd (MarkUsed st (rq_host rq) (ev_later ev))) (sy_learned ?s1)\<rparr>"
        using dialed(4) s' by (simp add: put_world_def)
      then show ?thesis using rtranclp_trans [OF run used_run] by simp
    qed (use run s' in simp)
  qed
  then show ?thesis using i by (simp add: s' put_world_def) (simp add: put_manager_def)
qed


text \<open>A probe of a session, on the whole state.\<close>

definition session_probe ::
  "'y yaml \<Rightarrow> save_fault \<Rightarrow> probe_env \<Rightarrow> nat \<Rightarrow> ResolvedPolicy \<Rightarrow> request \<Rightarrow> string \<Rightarrow> bytes \<Rightarrow> 'y system \<Rightarrow>
   ('e, 'y system \<times> bool) outcome" where
  "session_probe Y fault pe i policy rq host hello s =
     obind (monitorBlockCandidate Y fault pe (pr_config (sy_runtimes s ! i)) policy rq host hello (sy_probes s) (world_of i s))
       (\<lambda>(p, w, closed). Ok ((put_world i w s)\<lparr>sy_probes := p\<rparr>, closed))"

lemma probe_dial_run:
  assumes i: "i < length (sy_runtimes s)"
    and d: "probe_dial pe cfg name host port (pr_upstreams (sy_runtimes s ! i)) = (r, m)"
  shows "(sys_step Y)\<^sup>*\<^sup>* s (put_manager i m s)"
proof (cases "map_of (cf_Upstreams cfg) name")
  case None
  then show ?thesis using d i by (auto simp: probe_dial_def)
next
  case (Some u)
  obtain b m1 where a: "Allow_opt (pe_allow pe) name (pr_upstreams (sy_runtimes s ! i)) = (b, m1)" by fastforce
  show ?thesis
  proof (cases b)
    case False
    then show ?thesis using d Some a sys_step.allow [OF i a] by (auto simp: probe_dial_def)
  next
    case True
    then have "\<exists>err. m = snd (Record_opt (pe_record pe) name err m1)"
      using d Some a by (auto simp: probe_dial_def split: sum.splits)
    then obtain err v where "Record_opt (pe_record pe) name err m1 = (v, m)" by (metis prod.collapse)
    from allow_report_run [OF i a this] show ?thesis .
  qed
qed

lemma put_manager_probes [simp]: "put_manager i m (s\<lparr>sy_probes := p\<rparr>) = (put_manager i m s)\<lparr>sy_probes := p\<rparr>"
  by (simp add: put_manager_def)

lemma put_manager_learned [simp]: "put_manager i m (s\<lparr>sy_learned := l\<rparr>) = (put_manager i m s)\<lparr>sy_learned := l\<rparr>"
  by (simp add: put_manager_def)

lemma monitor_cases:
  assumes "monitorBlockCandidate Y fault pe cfg policy rq host hello p w = Ok (p', w', closed)"
    and st: "Start host (pe_start pe) p = ((b, why), p1)"
  shows "(p' = p \<and> w' = w) \<or> (p' = p1 \<and> w' = w) \<or> (b \<and> (\<exists>t. p' = Done host t p1)
    \<and> (wd_manager w' = wd_manager w \<or> (\<exists>r. probe_dial pe cfg (rp_Fallback policy) (rq_host rq) (rq_port rq) (wd_manager w) = (r, wd_manager w')))
    \<and> (wd_learned w' = wd_learned w \<or> wd_learned w' = map_option (\<lambda>st. snd (AddWithLimit Y fault (pe_end pe) st host
        (rp_Fallback policy) ''direct-timeout-upstream-success'' (LearnedLimit (cf_Detection cfg)))) (wd_learned w)))"
proof (cases "pe_answered pe \<or> \<not> fst (CanLearn (cf_Detection cfg) host) \<or> \<not> b")
  case True
  then show ?thesis using assms by (auto simp: monitorBlockCandidate_def st split: if_splits bool.splits)
next
  case False
  obtain r m where d: "probe_dial pe cfg (rp_Fallback policy) (rq_host rq) (rq_port rq) (wd_manager w) = (r, m)" by fastforce
  show ?thesis
  proof (cases "map_of (cf_Upstreams cfg) (rp_Fallback policy)")
    case None
    then show ?thesis using assms False by (auto simp: monitorBlockCandidate_def st Let_def)
  next
    case (Some u)
    then show ?thesis using assms(1) False d
      by (auto simp: monitorBlockCandidate_def st Let_def split: sum.splits if_splits option.splits prod.splits)
  qed
qed

lemma probe_is_a_run:
  assumes ok: "sys_ok s" and i: "i < length (sy_runtimes s)"
    and run: "session_probe Y fault pe i policy rq host hello s = (Ok (s', closed) :: ('e, 'y system \<times> bool) outcome)"
  shows "(sys_step Y)\<^sup>*\<^sup>* s s'"
proof -
  let ?cfg = "pr_config (sy_runtimes s ! i)" and ?up = "rp_Fallback policy"
  obtain b why p1 where st: "Start host (pe_start pe) (sy_probes s) = ((b, why), p1)" by (metis prod.collapse)
  let ?s1 = "s\<lparr>sy_probes := p1\<rparr>"
  have step1: "sys_step Y s ?s1" by (rule sys_step.probe_start [OF st])
  obtain p w where mon: "monitorBlockCandidate Y fault pe ?cfg policy rq host hello (sy_probes s) (world_of i s) = (Ok (p, w, closed) :: ('e, _) outcome)"
    and s': "s' = (put_world i w s)\<lparr>sy_probes := p\<rparr>"
    using run unfolding session_probe_def obind_Ok_iff by auto
  consider (idle) "s' = s" | (refused) "s' = ?s1"
    | (over) t where "b" "s' = (put_world i w s)\<lparr>sy_probes := Done host t p1\<rparr>"
        "wd_manager w = pr_upstreams (sy_runtimes s ! i) \<or> (\<exists>r. probe_dial pe ?cfg ?up (rq_host rq) (rq_port rq) (pr_upstreams (sy_runtimes s ! i)) = (r, wd_manager w))"
        "wd_learned w = sy_learned s \<or> wd_learned w = map_option (\<lambda>st. snd (AddWithLimit Y fault (pe_end pe) st host ?up ''direct-timeout-upstream-success''
            (LearnedLimit (cf_Detection ?cfg)))) (sy_learned s)"
    using monitor_cases [OF mon st] i s' by (elim disjE conjE exE) simp_all
  then show ?thesis
  proof cases
    case over
    have "active_in p1 (normalizeProbeHost host)"
      using Start_active [of "sy_probes s" host "pe_start pe" "normalizeProbeHost host"] st over(1) ok
      by (simp add: sys_ok_def probes_ok_def)
    let ?s2 = "put_manager i (wd_manager w) ?s1" and ?s3 = "(put_manager i (wd_manager w) ?s1)\<lparr>sy_learned := wd_learned w\<rparr>"
    have "(sys_step Y)\<^sup>*\<^sup>* ?s1 ?s2"
      using over(3) i put_manager_same [of i ?s1] probe_dial_run [of i ?s1 pe ?cfg ?up "rq_host rq" "rq_port rq" _ "wd_manager w" Y]
      by (auto simp del: put_manager_probes)
    moreover have "(sys_step Y)\<^sup>*\<^sup>* ?s2 ?s3"
      using over(4) i learn_run [of i ?s2 Y fault "pe_end pe" host ?up "''direct-timeout-upstream-success''"] put_manager_config [OF i, of i "wd_manager w"]
      by (auto simp: learned_same)
    moreover have "sys_step Y ?s3 (?s3\<lparr>sy_probes := Done host t (sy_probes ?s3)\<rparr>)"
      by (rule sys_step.probe_end) (use \<open>active_in p1 _\<close> in simp)
    moreover have "s' = ?s3\<lparr>sy_probes := Done host t (sy_probes ?s3)\<rparr>" using over(2) by (simp add: put_world_def)
    ultimately show ?thesis using step1 by (meson converse_rtranclp_into_rtranclp rtranclp.rtrancl_into_rtrancl rtranclp_trans)
  qed (use step1 in auto)
qed


section \<open>Reloading\<close>

text \<open>C4. Whatever sessions, probes, the dashboard, maintenance and reloads do to the shared state
  of a proxy that has started, in any interleaving and with any save failing: every published
  runtime has an accepted configuration and a consistent breaker manager of its own upstreams,
  all of them agree on the settings that need a restart, the learned table is well formed and
  within the limit of one of the runtimes, the probe table is within its bound, and health
  checks run for no runtime but the last.\<close>

theorem every_interleaving_keeps_the_invariant:
  assumes "sys_reachable Y s"
  shows "sys_ok s"
  by (rule sys_reachable_ok [OF assms])

lemma PruneToLimit_total:
  assumes "store_ok st" "0 < limit"
  obtains r st' where "PruneToLimit Y fault st limit = Some (r, st')"
    "\<And>err. r = Inl err \<Longrightarrow> same_store st st'"
    "\<And>n. r = Inr n \<Longrightarrow> int (length (st_domains st')) \<le> limit \<and> map_of (st_domains st') \<subseteq>\<^sub>m map_of (st_domains st)"
proof -
  obtain kept removed where p: "PruneToLimit Y fault st limit = Some (finish_prune Y fault st kept removed)"
    and split: "splits_table (st_domains st) kept removed" "int (length kept) = min limit (int (length (st_domains st)))"
    using PruneToLimit_cases [OF assms] by metis
  obtain r st' where f: "finish_prune Y fault st kept removed = (r, st')" by fastforce
  have "map_of (st_domains st) k = Some e" if "map_of kept k = Some e" for k e
    using splits_table_mem [OF split(1), of k e] that by simp
  then have "map_of kept \<subseteq>\<^sub>m map_of (st_domains st)" by (auto simp: map_le_def)
  moreover have "st_domains st' = kept" if "r = Inr n" for n
    using finish_prune_done(1) [of Y fault st kept removed n st'] f that by simp
  moreover have "same_store st st'" if "r = Inl err" for err
    using finish_prune_failed [OF split(1), of Y fault err st'] f that by simp
  ultimately show thesis using p f split(2) by (intro that [of r st']) simp_all
qed

text \<open>C7. A reload always ends, and either changes nothing but possibly the order of the learned
  table, or it publishes exactly the accepted configuration: with a fresh manager whose circuits
  are all closed, for new sessions only (the runtimes older sessions hold are untouched), with
  no new routes and at most as many as the new limit, and with the settings that need a restart
  as they were.\<close>

theorem reload_is_all_or_nothing:
  assumes "sys_reachable Y s"
  shows "\<exists>e s'. reloadRuntime Y fault (LoadConfig decoded dir files) s = Some (e, s') \<and>
    (\<exists>st st'. sy_learned s = Some st \<and> sy_learned s' = Some st' \<and>
      (case e of
         Some err \<Rightarrow> same_store st st' \<and> s' = s\<lparr>sy_learned := Some st'\<rparr>
       | None \<Rightarrow> (\<exists>c m. LoadConfig decoded dir files = Inr c
           \<and> sy_runtimes s' = sy_runtimes s @ [\<lparr>pr_config = c, pr_upstreams = Some m\<rparr>]
           \<and> (\<forall>name. circuit_of m name = map_option (\<lambda>_. ''closed'') (map_of (cf_Upstreams c) name))
           \<and> (\<forall>rt \<in> set (sy_runtimes s). same_resources (pr_config rt) c)
           \<and> int (length (st_domains st')) \<le> LearnedLimit (cf_Detection c)
           \<and> map_of (st_domains st') \<subseteq>\<^sub>m map_of (st_domains st)
           \<and> sy_probes s' = sy_probes s)))"
proof -
  have ok: "sys_ok s" by (rule sys_reachable_ok [OF assms])
  then obtain st where st: "sy_learned s = Some st" "store_ok st" by (auto simp: sys_ok_def)
  let ?r = "reloadRuntime Y fault (LoadConfig decoded dir files) s"
  have "\<exists>e s'. ?r = Some (e, s')"
  proof (cases "LoadConfig decoded dir files")
    case (Inr c)
    obtain r st' where "PruneToLimit Y fault st (LearnedLimit (cf_Detection c)) = Some (r, st')"
      by (rule PruneToLimit_total [OF st(2) Validate_limit_pos [OF LoadConfig_valid [OF Inr]], of Y fault])
    then show ?thesis using st by (cases r) (simp_all add: reloadRuntime_def Inr split: option.split)
  qed (simp add: reloadRuntime_def)
  then obtain e s' where r: "?r = Some (e, s')" by blast
  then show ?thesis using ok
  proof (cases rule: reload_cases)
    case (refused err)
    have "same_store st st \<and> s = s\<lparr>sy_learned := Some st\<rparr>" using st by (simp add: learned_same)
    then show ?thesis using r st refused by (intro exI [of _ e] exI [of _ s'] conjI exI [of _ st]) simp_all
  next
    case (unsaved limit err st0 st')
    then show ?thesis using r st PruneToLimit_failed [OF st(2), of Y fault limit err st']
      by (intro exI [of _ e] exI [of _ s'] conjI exI [of _ st] exI [of _ st']) simp_all
  next
    case (reloaded c st0 st' n)
    have v: "Validate c = None" by (rule LoadConfig_valid [OF reloaded(2)])
    obtain x y where "PruneToLimit Y fault st (LearnedLimit (cf_Detection c)) = Some (x, y)"
        "\<And>n. x = Inr n \<Longrightarrow> int (length (st_domains y)) \<le> LearnedLimit (cf_Detection c) \<and> map_of (st_domains y) \<subseteq>\<^sub>m map_of (st_domains st)"
      using PruneToLimit_total [OF st(2) Validate_limit_pos [OF v], of Y fault] by metis
    then have lim: "int (length (st_domains st')) \<le> LearnedLimit (cf_Detection c)" "map_of (st_domains st') \<subseteq>\<^sub>m map_of (st_domains st)"
      using reloaded(3,5) st by auto
    have "same_resources (pr_config rt) c" if "rt \<in> set (sy_runtimes s)" for rt
    proof -
      have "same_resources (pr_config (hd (sy_runtimes s))) (pr_config x)" if "x \<in> set (sy_runtimes s)" for x
        using ok that by (simp add: sys_ok_def)
      from this [OF that] this [of "last (sy_runtimes s)"] show ?thesis
        using reloaded(4) ok by (simp add: sys_ok_def same_resources_def)
    qed
    moreover have "circuit_of (New (cf_Upstreams c) (cf_UpstreamHealth c)) name = map_option (\<lambda>_. ''closed'') (map_of (cf_Upstreams c) name)" for name
      by (simp add: circuit_of_def map_of_New fresh_state_def option.map_comp comp_def)
    ultimately show ?thesis using r st reloaded lim
      by (intro exI [of _ e] exI [of _ s'] conjI exI [of _ st] exI [of _ st'])
        (auto simp: installRuntime_def Let_def)
  qed
qed


section \<open>A sample run\<close>

definition limited_document :: "int \<Rightarrow> Config" where
  "limited_document n = (let c = sample_document ''vpn'' '''' in
     c\<lparr>cf_Detection := (cf_Detection c)\<lparr>dt_LearnedMaxEntries := n\<rparr>\<rparr>)"

definition limited_config :: "int \<Rightarrow> Config" where
  "limited_config n = (let c = sample_config ''vpn'' '''' [] in
     c\<lparr>cf_Detection := (cf_Detection c)\<lparr>dt_LearnedMaxEntries := n\<rparr>\<rparr>)"

lemma limited_loads: "0 \<le> n \<Longrightarrow> LoadConfig (Some (limited_document n)) ''/etc'' sample_files = Inr (limited_config n)"
  by (simp add: limited_document_def limited_config_def sample_document_def sample_config_def load_eval)

lemma limited_simps [simp]:
  "LearnedLimit (cf_Detection (limited_config n)) = (if n = 0 then 10000 else n)"
  "dt_LearnedDomainsFile (cf_Detection (limited_config n)) = ''/l''"
  "LearnedTTL (cf_Detection (limited_config n)) = LearnedTTL (cf_Detection (limited_config m))"
  "same_resources (limited_config n) (limited_config m)"
  by (simp_all add: limited_config_def sample_config_def sample_document_def LearnedLimit_def LearnedTTL_def same_resources_def Let_def)

definition sample_store :: "LearnedDomain list \<Rightarrow> learnedFile Store" where
  "sample_store es = \<lparr>st_path = ''/l'', st_domains = map (\<lambda>e. (ld_Host e, e)) es, st_dirty = False,
     st_file = (if es = [] then None else Some \<lparr>lf_Version = 1, lf_Domains = es\<rparr>)\<rparr>"

definition sample_system :: "int \<Rightarrow> learnedFile system" where
  "sample_system n = installRuntime (limited_config n) \<lparr>sy_cfg = Some (limited_config n), sy_runtimes = [], sy_health = None,
     sy_learned = Some (sample_store []), sy_probes = newProbeCoordinator\<rparr>"

lemma sample_startup: "0 < limit \<Longrightarrow> startup_store id_yaml ''/l'' ReadNotExist NoFault NoFault ttl limit now = Some (Inr (sample_store []))"
  by (simp add: startup_store_def Load_def PruneExpired_def PruneToLimit_def prune_loop.simps finish_prune_def sample_store_def)

lemma sample_system_reachable: "0 < n \<Longrightarrow> sys_reachable id_yaml (sample_system n)"
  by (rule sys_reachable.booted [of _ "Some (limited_document n)" "''/etc''" sample_files ReadNotExist NoFault NoFault 0])
    (simp add: boot_def limited_loads sample_startup sample_system_def)

lemmas add_eval = AddWithLimit_def sample_store_def saveLocked_def id_yaml_def host_eval Let_def evictionCandidateLocked_def Entries_def

text \<open>Three steps: a session of the first runtime learns a host, the configuration is reloaded with
  a limit of one, and another session of the first runtime learns a second host.\<close>

definition entry_of :: "string \<Rightarrow> LearnedDomain" where
  "entry_of h = \<lparr>ld_Host = h, ld_Upstream = ''vpn'', ld_LearnedAt = 5, ld_LastUsedAt = 0, ld_HitCount = 0, ld_Reason = ''t''\<rparr>"

lemma sample_adds:
  "AddWithLimit id_yaml NoFault 5 (sample_store []) ''a'' ''vpn'' ''t'' 2 = (Inr (True, None), sample_store [entry_of ''a''])"
  "AddWithLimit id_yaml NoFault 5 (sample_store [entry_of ''a'']) ''b'' ''vpn'' ''t'' 2 = (Inr (True, None), sample_store [entry_of ''a'', entry_of ''b''])"
  by (simp_all add: add_eval entry_of_def)

lemma installRuntime_learned: "installRuntime c (s\<lparr>sy_learned := l\<rparr>) = (installRuntime c s)\<lparr>sy_learned := l\<rparr>"
  by (cases s) (simp add: installRuntime_def Let_def)

lemma sample_runs:
  "sys_reachable id_yaml ((sample_system 2)\<lparr>sy_learned := Some (sample_store [entry_of ''a''])\<rparr>)"
  "sys_reachable id_yaml (installRuntime (limited_config 1) ((sample_system 2)\<lparr>sy_learned := Some (sample_store [entry_of ''a'', entry_of ''b''])\<rparr>))"
proof -
  let ?s1 = "(sample_system 2)\<lparr>sy_learned := Some (sample_store [entry_of ''a''])\<rparr>"
  have rt: "sy_runtimes (sample_system 2) = [\<lparr>pr_config = limited_config 2, pr_upstreams =
      Some (New (cf_Upstreams (limited_config 2)) (cf_UpstreamHealth (limited_config 2)))\<rparr>]"
      "sy_learned (sample_system 2) = Some (sample_store [])"
    by (simp_all add: sample_system_def installRuntime_def Let_def)
  have "sys_step id_yaml (sample_system 2) ?s1"
    by (rule sys_step.learn [where i = 0 and fault = NoFault and now = 5 and host = "''a''" and up = "''vpn''" and reason = "''t''"])
      (use rt sample_adds(1) in simp_all)
  from sys_reachable.step [OF sample_system_reachable this] show r1: "sys_reachable id_yaml ?s1" by simp
  let ?s2 = "installRuntime (limited_config 1) ?s1"
  have v: "validateReload (limited_config 2) (limited_config 1) = None" by (simp add: validateReload_None)
  have p: "PruneToLimit id_yaml NoFault (sample_store [entry_of ''a'']) 1 = Some (Inr 0, sample_store [entry_of ''a''])"
    by (simp add: PruneToLimit_def prune_loop.simps finish_prune_def sample_store_def)
  have "reloadRuntime id_yaml NoFault (LoadConfig (Some (limited_document 1)) ''/etc'' sample_files) ?s1 = Some (None, ?s2)"
    by (simp add: reloadRuntime_def limited_loads currentRuntime_def rt v p)
  from sys_reachable.step [OF r1 sys_step.reload [OF this]] have r2: "sys_reachable id_yaml ?s2" .
  have "sys_step id_yaml ?s2 (?s2\<lparr>sy_learned := Some (sample_store [entry_of ''a'', entry_of ''b''])\<rparr>)"
    by (rule sys_step.learn [where i = 0 and fault = NoFault and now = 5 and host = "''b''" and up = "''vpn''" and reason = "''t''"])
      (use rt sample_adds(2) in \<open>simp_all add: installRuntime_def Let_def\<close>)
  from sys_reachable.step [OF r2 this]
  show "sys_reachable id_yaml (installRuntime (limited_config 1) ((sample_system 2)\<lparr>sy_learned := Some (sample_store [entry_of ''a'', entry_of ''b''])\<rparr>))"
    by (simp add: installRuntime_learned)
qed

lemma every_interleaving_keeps_the_invariant_witness:
  "sys_reachable id_yaml (sample_system 2) \<and> sys_ok (sample_system 2)"
  using every_interleaving_keeps_the_invariant [OF sample_system_reachable] sample_system_reachable by simp

lemma reload_is_all_or_nothing_witness:
  "\<exists>e s'. reloadRuntime id_yaml NoFault (LoadConfig (Some (limited_document 1)) ''/etc'' sample_files) (sample_system 2) = Some (e, s')
     \<and> (\<exists>st'. sy_learned s' = Some st')"
  using reload_is_all_or_nothing [OF sample_system_reachable [of 2], of NoFault "Some (limited_document 1)" "''/etc''" sample_files]
  by (simp only: zero_less_numeral simp_thms) blast

lemma session_is_a_run_witness:
  "\<exists>r s'. session id_yaml NoFault sample_env 0 (open_conn [5, 1, 0, 3, 0, 0, 80]) (sample_system 2) = (r, s')
     \<and> (sys_step id_yaml)\<^sup>*\<^sup>* (sample_system 2) s'"
proof -
  obtain r s' where r: "session id_yaml NoFault sample_env 0 (open_conn [5, 1, 0, 3, 0, 0, 80]) (sample_system 2) = (r, s')"
    by fastforce
  have "0 < length (sy_runtimes (sample_system 2))" by (simp add: sample_system_def installRuntime_def Let_def)
  from session_is_a_run [OF this r] r show ?thesis by blast
qed

text \<open>The limit of the learned table is not the current one: a session accepted before a reload
  learns under the limit of its own snapshot, so after a reload with a smaller limit the table
  grows beyond it. Since an insertion evicts one entry at most, no later insertion brings it
  back.\<close>

theorem older_session_exceeds_new_limit:
  "\<exists>s st. sys_reachable id_yaml s \<and> sy_learned s = Some st
     \<and> map_option (\<lambda>rt. LearnedLimit (cf_Detection (pr_config rt))) (currentRuntime s) = Some 1
     \<and> length (Entries st) = 2
     \<and> length (Entries (snd (AddWithLimit id_yaml NoFault 6 st ''c'' ''vpn'' ''t'' 1))) = 2"
proof -
  let ?st = "sample_store [entry_of ''a'', entry_of ''b'']"
  let ?s = "installRuntime (limited_config 1) ((sample_system 2)\<lparr>sy_learned := Some ?st\<rparr>)"
  have "sy_learned ?s = Some ?st" "map_option (\<lambda>rt. LearnedLimit (cf_Detection (pr_config rt))) (currentRuntime ?s) = Some 1"
    by (simp_all add: installRuntime_def currentRuntime_def Let_def)
  moreover have "length (Entries (snd (AddWithLimit id_yaml NoFault 6 ?st ''c'' ''vpn'' ''t'' 1))) = 2"
    by (simp add: add_eval entry_of_def lessRecentlyUsed_def IsZero_def)
  moreover have "length (Entries ?st) = 2" by (simp add: sample_store_def Entries_def)
  ultimately show ?thesis using sample_runs(2) by blast
qed

end
