(* ===== verification/Lifecycle.thy ===== *)
theory Lifecycle
  imports Runtime_Props Monitor
begin

text \<open>
  The life of the process (\<^verbatim>\<open>cmd/micro-socks.go\<close>, \<^verbatim>\<open>cmd/signals_unix.go\<close>): the accept loop, the
  maintenance of the learned table, reloads on a signal, and the shutdown, around the state of
  \<open>Runtime\<close>. A goroutine is a rule of the step relation; between its steps every other one
  may run. Time-outs may expire at any moment.
\<close>

section \<open>State\<close>

text \<open>A signal, and what \<^verbatim>\<open>shutdownSignals\<close> and \<^verbatim>\<open>reloadSignals\<close> list on the two platforms.\<close>

datatype os_signal = Interrupt | SIGTERM | SIGHUP | OtherSignal

definition shutdownSignals :: "os_signal list" where "shutdownSignals = [Interrupt, SIGTERM]"
definition reloadSignals :: "os_signal list" where "reloadSignals = [SIGHUP]"
definition shutdownSignals_windows :: "os_signal list" where "shutdownSignals_windows = [Interrupt]"
definition reloadSignals_windows :: "os_signal list" where "reloadSignals_windows = []"

text \<open>\<open>pc_phase\<close>: where \<^verbatim>\<open>main\<close> and the goroutine that waits for the signal are. \<open>Accepting\<close>: the accept
  loop runs; \<open>Signalled\<close>: \<^verbatim>\<open>shuttingDown\<close> is closed and \<open>ListenerClosed\<close>: so is the listener; \<open>Leaving\<close>: the loop
  is left; then in \<^verbatim>\<open>gracefulShutdown\<close>, \<open>Stopping\<close>: the admin server is shut down, \<open>Draining\<close>: it waits for the
  sessions, \<open>Flushing\<close>: the wait is over (with its result); \<open>Returning\<close>: the final flush is over (with its
  error) but \<^verbatim>\<open>main\<close> has not returned; \<open>Exited\<close>: the process has ended. Until then every goroutine runs on. A
  session is its number and the index of its runtime.\<close>

datatype phase =
    Accepting | Signalled | ListenerClosed | Leaving | Stopping | Draining | Flushing bool
  | Returning "store_error option" bool | Exited "store_error option" bool

record 'y process =
  pc_system :: "'y system"
  pc_monitor :: Monitor
  pc_phase :: phase
  pc_CntNo :: u32
  pc_sessions :: "(u32 \<times> nat) list"

section \<open>Handlers\<close>

definition running :: "'y process \<Rightarrow> bool" where
  "running p = (case pc_phase p of Exited _ _ \<Rightarrow> False | _ \<Rightarrow> True)"

definition start_session :: "'y process \<Rightarrow> 'y process" where
  "start_session p =
     p\<lparr>pc_sessions := (pc_CntNo p, length (sy_runtimes (pc_system p)) - 1) # pc_sessions p,
       pc_CntNo := pc_CntNo p + 1\<rparr>"

text \<open>One round of the accept loop: a connection, or an error of \<^verbatim>\<open>Accept\<close>, which leaves the loop once
  \<^verbatim>\<open>shuttingDown\<close> is closed. On a closed listener every \<^verbatim>\<open>Accept\<close> fails.\<close>

definition accept_round :: "bool \<Rightarrow> 'y process \<Rightarrow> 'y process" where
  "accept_round connection p =
     (case pc_phase p of
        Accepting \<Rightarrow> if connection then start_session p else p
      | Signalled \<Rightarrow> if connection then start_session p else p\<lparr>pc_phase := Leaving\<rparr>
      | ListenerClosed \<Rightarrow> p\<lparr>pc_phase := Leaving\<rparr>
      | _ \<Rightarrow> p)"

definition session_done :: "u32 \<times> nat \<Rightarrow> 'y process \<Rightarrow> 'y process" where
  "session_done x p = p\<lparr>pc_sessions := remove1 x (pc_sessions p)\<rparr>"

definition shutdown_signal :: "os_signal \<Rightarrow> 'y process \<Rightarrow> 'y process" where
  "shutdown_signal sig p =
     (if sig \<in> set shutdownSignals \<and> pc_phase p = Accepting then p\<lparr>pc_phase := Signalled\<rparr> else p)"

definition close_listener :: "'y process \<Rightarrow> 'y process" where
  "close_listener p = (if pc_phase p = Signalled then p\<lparr>pc_phase := ListenerClosed\<rparr> else p)"

text \<open>What \<^verbatim>\<open>installRuntime\<close> and \<^verbatim>\<open>reloadRuntime\<close> report to the monitor.\<close>

definition install_metrics :: "Config \<Rightarrow> Monitor \<Rightarrow> Monitor" where
  "install_metrics cfg mon =
     foldl (\<lambda>m state. SetUpstreamState (us_Name state) (us_Health state) (us_Circuit state) m) mon
       (States (Some (New (cf_Upstreams cfg) (cf_UpstreamHealth cfg))))"

definition reload_metrics ::
  "'y yaml \<Rightarrow> save_fault \<Rightarrow> (config_error + Config) \<Rightarrow> 'y system \<Rightarrow> Monitor \<Rightarrow> Monitor" where
  "reload_metrics Y fault loaded s mon =
     (case (loaded, currentRuntime s) of
        (Inr next, Some cur) \<Rightarrow>
          if validateReload (pr_config cur) next \<noteq> None then mon
          else (case sy_learned s of
             None \<Rightarrow> install_metrics next mon
           | Some st \<Rightarrow>
               (case PruneToLimit Y fault st (LearnedLimit (cf_Detection next)) of
                  Some (Inr removed, st') \<Rightarrow>
                    install_metrics next
                      (if 0 < removed then SetLearnedRoutes (int (length (Entries st'))) mon else mon)
                | _ \<Rightarrow> mon))
      | _ \<Rightarrow> mon)"

text \<open>\<^verbatim>\<open>watchReloadSignals\<close>: \<open>loaded\<close> is what \<^verbatim>\<open>LoadConfig\<close> gives; \<open>None\<close> is a reload that never ends.\<close>

definition reload_signal ::
  "'y yaml \<Rightarrow> save_fault \<Rightarrow> (config_error + Config) \<Rightarrow> os_signal \<Rightarrow> 'y process \<Rightarrow> 'y process option" where
  "reload_signal Y fault loaded sig p =
     (if sig \<notin> set reloadSignals \<or> \<not> running p then Some p
      else map_option (\<lambda>(_, s). p\<lparr>pc_system := s,
               pc_monitor := reload_metrics Y fault loaded (pc_system p) (pc_monitor p)\<rparr>)
             (reloadRuntime Y fault loaded (pc_system p)))"

text \<open>The two tickers of \<^verbatim>\<open>maintainLearnedRoutes\<close>, until the context is cancelled.\<close>

definition flush_tick :: "'y yaml \<Rightarrow> save_fault \<Rightarrow> 'y process \<Rightarrow> 'y process" where
  "flush_tick Y fault p =
     (case sy_learned (pc_system p) of
        Some st \<Rightarrow> p\<lparr>pc_system := (pc_system p)\<lparr>sy_learned := Some (snd (Flush Y fault st))\<rparr>\<rparr>
      | None \<Rightarrow> p)"

definition prune_tick :: "'y yaml \<Rightarrow> save_fault \<Rightarrow> time \<Rightarrow> 'y process \<Rightarrow> 'y process" where
  "prune_tick Y fault now p =
     (case (sy_learned (pc_system p), currentRuntime (pc_system p)) of
        (Some st, Some cur) \<Rightarrow>
          (case PruneExpired Y fault st (LearnedTTL (cf_Detection (pr_config cur))) now of
             (Inl _, st') \<Rightarrow> p\<lparr>pc_system := (pc_system p)\<lparr>sy_learned := Some st'\<rparr>\<rparr>
           | (Inr _, st') \<Rightarrow>
               p\<lparr>pc_system := (pc_system p)\<lparr>sy_learned := Some st'\<rparr>,
                 pc_monitor := SetLearnedRoutes (int (length (Entries st'))) (pc_monitor p)\<rparr>)
      | _ \<Rightarrow> p)"

text \<open>One \<^verbatim>\<open>check()\<close> of \<^verbatim>\<open>monitorUpstreamHealth\<close> on the manager of a runtime: \<open>probe\<close> is what the
  checks of the upstreams give.\<close>

definition report_state :: "Monitor \<Rightarrow> State \<Rightarrow> Monitor" where
  "report_state m state =
     UpstreamResult (us_Name state)
       (if us_Health state \<noteq> ''healthy'' then ''health_check_failure'' else ''health_check_success'')
       (SetUpstreamState (us_Name state) (us_Health state) (us_Circuit state) m)"

definition health_check ::
  "(string \<Rightarrow> Upstream \<Rightarrow> time \<times> string option) \<Rightarrow> Manager \<Rightarrow> Monitor \<Rightarrow> Manager \<times> Monitor" where
  "health_check probe manager m =
     (case CheckAll probe manager of (states, manager') \<Rightarrow> (manager', foldl report_state m states))"

text \<open>\<^verbatim>\<open>monitorUpstreamHealth\<close>: one check at once, then one per tick until the context is cancelled.\<close>

definition monitorUpstreamHealth ::
  "(string \<Rightarrow> Upstream \<Rightarrow> time \<times> string option) \<Rightarrow> (string \<Rightarrow> Upstream \<Rightarrow> time \<times> string option) list \<Rightarrow>
   Manager \<times> Monitor \<Rightarrow> Manager \<times> Monitor" where
  "monitorUpstreamHealth first ticks s =
     foldl (\<lambda>(manager, m) probe. health_check probe manager m) s (first # ticks)"

section \<open>The shutdown\<close>

text \<open>\<^verbatim>\<open>gracefulShutdown\<close>: cancelling the context and the health checks, the shutdown of the admin
  server (which may use up the time), the wait, the final flush, and the return from \<^verbatim>\<open>main\<close>. The tickers
  and \<^verbatim>\<open>watchReloadSignals\<close> may still choose to do a round after the context is cancelled.\<close>

definition begin_shutdown :: "'y process \<Rightarrow> 'y process" where
  "begin_shutdown p =
     (if pc_phase p = Leaving
      then p\<lparr>pc_phase := Stopping, pc_system := stopRuntimeHealth (pc_system p)\<rparr> else p)"

definition shutdown_admin :: "'y process \<Rightarrow> 'y process" where
  "shutdown_admin p = (if pc_phase p = Stopping then p\<lparr>pc_phase := Draining\<rparr> else p)"

text \<open>\<^verbatim>\<open>waitForWaitGroup\<close>: \<open>noticed\<close> says that its goroutine has seen the sessions end, if they have, and
  that the \<^verbatim>\<open>select\<close> takes this answer; \<open>overdue\<close>, that the time is over. When both are ready the
  \<^verbatim>\<open>select\<close> chooses either; \<open>None\<close> is to wait on.\<close>

definition waitForWaitGroup :: "bool \<Rightarrow> bool \<Rightarrow> 'y process \<Rightarrow> bool option" where
  "waitForWaitGroup noticed overdue p =
     (if pc_sessions p = [] \<and> noticed then Some True else if overdue then Some False else None)"

definition wait_sessions :: "bool \<Rightarrow> bool \<Rightarrow> 'y process \<Rightarrow> 'y process" where
  "wait_sessions noticed overdue p =
     (if pc_phase p \<noteq> Draining then p
      else case waitForWaitGroup noticed overdue p of
        None \<Rightarrow> p
      | Some completed \<Rightarrow> p\<lparr>pc_phase := Flushing completed\<rparr>)"

definition final_flush :: "'y yaml \<Rightarrow> save_fault \<Rightarrow> 'y process \<Rightarrow> 'y process" where
  "final_flush Y fault p =
     (case pc_phase p of
        Flushing completed \<Rightarrow>
          (case sy_learned (pc_system p) of
             None \<Rightarrow> p\<lparr>pc_phase := Returning None completed\<rparr>
           | Some st \<Rightarrow>
               (case Flush Y fault st of
                  (e, st') \<Rightarrow>
                    p\<lparr>pc_phase := Returning e completed, pc_system := (pc_system p)\<lparr>sy_learned := Some st'\<rparr>\<rparr>))
      | _ \<Rightarrow> p)"

definition return_main :: "'y process \<Rightarrow> 'y process" where
  "return_main p = (case pc_phase p of Returning e completed \<Rightarrow> p\<lparr>pc_phase := Exited e completed\<rparr> | _ \<Rightarrow> p)"

text \<open>The next step of \<^verbatim>\<open>main\<close> once the listener is closed.\<close>

definition main_step :: "'y yaml \<Rightarrow> save_fault \<Rightarrow> bool \<Rightarrow> bool \<Rightarrow> 'y process \<Rightarrow> 'y process" where
  "main_step Y fault noticed overdue p =
     (case pc_phase p of
        ListenerClosed \<Rightarrow> accept_round False p
      | Leaving \<Rightarrow> begin_shutdown p
      | Stopping \<Rightarrow> shutdown_admin p
      | Draining \<Rightarrow> wait_sessions noticed overdue p
      | Flushing _ \<Rightarrow> final_flush Y fault p
      | Returning _ _ \<Rightarrow> return_main p
      | _ \<Rightarrow> p)"

section \<open>Steps\<close>

text \<open>The use of a learned route is the one operation that leaves the table dirty, and only a session
  makes it; with no session left, what the others do (probes, health checks, the dashboard) does
  not mark a clean table.\<close>

definition marks_dirty :: "'y system \<Rightarrow> 'y system \<Rightarrow> bool" where
  "marks_dirty s s' \<longleftrightarrow>
     (\<exists>st st'. sy_learned s = Some st \<and> sy_learned s' = Some st' \<and> \<not> st_dirty st \<and> st_dirty st')"

text \<open>A step of a session, a probe, a health check or the dashboard is one of \<open>sys_step\<close>. The
  process starts with the state that \<^verbatim>\<open>main\<close> prepares.\<close>

inductive process_step :: "'y yaml \<Rightarrow> 'y process \<Rightarrow> 'y process \<Rightarrow> bool" for Y where
  accept: "process_step Y p (accept_round connection p)"
| work: "running p \<Longrightarrow> sys_step Y (pc_system p) s \<Longrightarrow> (pc_sessions p = [] \<longrightarrow> \<not> marks_dirty (pc_system p) s) \<Longrightarrow>
    process_step Y p (p\<lparr>pc_system := s\<rparr>)"
| count: "running p \<Longrightarrow> process_step Y p (p\<lparr>pc_monitor := m\<rparr>)"
| complete: "running p \<Longrightarrow> process_step Y p (session_done x p)"
| flush: "running p \<Longrightarrow> process_step Y p (flush_tick Y fault p)"
| prune: "running p \<Longrightarrow> process_step Y p (prune_tick Y fault now p)"
| hangup: "reload_signal Y fault (LoadConfig decoded dir files) sig p = Some p' \<Longrightarrow> process_step Y p p'"
| stop: "process_step Y p (shutdown_signal sig p)"
| close: "process_step Y p (close_listener p)"
| main: "process_step Y p (main_step Y fault noticed overdue p)"

definition start_process :: "time \<Rightarrow> 'y system \<Rightarrow> 'y process" where
  "start_process now s =
     \<lparr>pc_system = s,
      pc_monitor = (let m = (case sy_learned s of
              None \<Rightarrow> NewMonitor now
            | Some st \<Rightarrow> SetLearnedRoutes (int (length (Entries st))) (NewMonitor now))
         in case currentRuntime s of None \<Rightarrow> m | Some cur \<Rightarrow> install_metrics (pr_config cur) m),
      pc_phase = Accepting, pc_CntNo = 1, pc_sessions = []\<rparr>"

inductive process_reachable :: "'y yaml \<Rightarrow> 'y process \<Rightarrow> bool" for Y where
  started: "boot Y (LoadConfig decoded dir files) content f1 f2 now = Some (Inr s) \<Longrightarrow> process_reachable Y (start_process now s)"
| step: "process_reachable Y p \<Longrightarrow> process_step Y p p' \<Longrightarrow> process_reachable Y p'"

inductive_cases process_stepE: "process_step Y p p'"

end
