(* ===== verification/Lifecycle_Props.thy ===== *)
theory Lifecycle_Props
  imports Lifecycle
begin

text \<open>
  What a restart finds: in every reachable state of the process the file of the learned table holds
  the routes of the table, up to the marks of their use, and all of the table whenever it is not
  marked dirty, so that a crash loses marks at most and a shutdown that saw its sessions end
  and flushed loses nothing; and how the shutdown ends.
\<close>

section \<open>The table and its file\<close>

text \<open>An entry without the marks of its use.\<close>

definition unmarked :: "LearnedDomain \<Rightarrow> LearnedDomain" where
  "unmarked e = e\<lparr>ld_HitCount := 0, ld_LastUsedAt := 0\<rparr>"

text \<open>The file holds the table \<open>m\<close>: it was written from it, or \<^verbatim>\<open>Load\<close> gave it.\<close>

definition file_table :: "'y yaml \<Rightarrow> 'y option \<Rightarrow> (string \<rightharpoonup> LearnedDomain) \<Rightarrow> bool" where
  "file_table Y file m \<longleftrightarrow>
     (case file of
        None \<Rightarrow> m = map_of []
      | Some data \<Rightarrow>
          (\<exists>t :: 'y Store. store_ok t \<and> map_of (st_domains t) = m \<and>
             y_marshal Y \<lparr>lf_Version = 1, lf_Domains = Entries t\<rparr> = Some data) \<or>
          (\<exists>f. y_unmarshal Y data = Some f \<and> map_of (foldl load_entry [] (lf_Domains f)) = m))"

text \<open>What the file keeps of the table: everything when the table is clean, and otherwise everything but
  the marks.\<close>

definition kept :: "'y yaml \<Rightarrow> 'y Store \<Rightarrow> bool" where
  "kept Y st \<longleftrightarrow>
     (\<exists>m. file_table Y (st_file st) m \<and> (\<not> st_dirty st \<longrightarrow> m = map_of (st_domains st)) \<and>
        (\<forall>k. map_option unmarked (m k) = map_option unmarked (map_of (st_domains st) k)))"

text \<open>What every operation but \<^verbatim>\<open>MarkUsed\<close> does to the store, whatever the file system does to it.\<close>

definition settles :: "'y yaml \<Rightarrow> 'y Store \<Rightarrow> 'y Store \<Rightarrow> bool" where
  "settles Y s s' \<longleftrightarrow> st_path s' = st_path s \<and> (st_dirty s' \<longrightarrow> st_dirty s) \<and>
     (st_path s \<noteq> '''' \<and> kept Y s \<longrightarrow> kept Y s')"

lemma settles_same: "same_store s s' \<Longrightarrow> settles Y s s'"
  by (simp add: settles_def same_store_def kept_def)

lemma settles_refl [simp]: "settles Y s s"
  by (simp add: settles_def)

lemma saveLocked_path: "saveLocked Y fault s = (e, s') \<Longrightarrow> st_path s' = st_path s"
  by (cases Y fault s rule: saveLocked_cases) auto

lemma settles_saved:
  assumes "saveLocked Y fault (s\<lparr>st_domains := d\<rparr>) = (None, s2)" "store_ok (s2\<lparr>st_dirty := False\<rparr>)"
  shows "settles Y s (s2\<lparr>st_dirty := False\<rparr>)"
proof -
  have "kept Y (s2\<lparr>st_dirty := False\<rparr>)" if "st_path s \<noteq> ''''"
  proof -
    let ?t = "s2\<lparr>st_dirty := False\<rparr>"
    obtain data where data: "y_marshal Y \<lparr>lf_Version = 1, lf_Domains = Entries (s\<lparr>st_domains := d\<rparr>)\<rparr> = Some data"
      "s2 = s\<lparr>st_domains := d, st_file := Some data\<rparr>"
      using saveLocked_success [OF assms(1)] \<open>st_path s \<noteq> ''''\<close> by auto
    then have "y_marshal Y \<lparr>lf_Version = 1, lf_Domains = Entries ?t\<rparr> = Some data" "st_file ?t = Some data"
      by (simp_all add: Entries_def)
    then have "file_table Y (st_file ?t) (map_of (st_domains ?t))"
      using assms(2) by (auto simp: file_table_def)
    then show ?thesis by (auto simp: kept_def)
  qed
  then show ?thesis using saveLocked_path [OF assms(1)] by (simp add: settles_def)
qed

lemma AddWithLimit_settles:
  assumes ok: "store_ok s" and r: "AddWithLimit Y fault now s host upstream reason limit = (r, s')"
  shows "settles Y s s'"
  using r
proof (cases rule: AddWithLimit_cases)
  case (added content)
  let ?d = "with_new s (normalizeHost host) (new_entry (normalizeHost host) upstream reason now) (evicts s (normalizeHost host) limit)"
  have "s' = (s\<lparr>st_domains := ?d, st_file := content\<rparr>)\<lparr>st_dirty := False\<rparr>" using added(6) by (cases s) simp
  then show ?thesis using settles_saved [OF added(4)] AddWithLimit_ok [OF ok r] by simp
next
  case (undone err)
  with r have "AddWithLimit Y fault now s host upstream reason limit = (Inl err, s')" by simp
  from settles_same [OF AddWithLimit_failed [OF ok this]] show ?thesis .
qed simp_all

lemma Delete_settles:
  assumes ok: "store_ok s" and r: "Delete Y fault s host = (r, s')" shows "settles Y s s'"
proof (cases r)
  case (Inl err)
  with r show ?thesis using settles_same [OF Delete_failed] by blast
next
  case (Inr b)
  show ?thesis
  proof (cases b)
    case False
    then have "s' = s" using r Inr by (auto simp: Delete_def Let_def split: option.splits prod.splits)
    then show ?thesis by simp
  next
    case True
    then obtain s2 where s2: "saveLocked Y fault (s\<lparr>st_domains := AList.delete (normalizeHost host) (st_domains s)\<rparr>) = (None, s2)"
      "s' = s2\<lparr>st_dirty := False\<rparr>"
      using r Inr by (auto simp: Delete_def Let_def split: option.splits prod.splits)
    show ?thesis using settles_saved [OF s2(1)] Delete_ok [OF ok r] s2(2) by simp
  qed
qed

lemma finish_prune_settles:
  assumes "splits_table (st_domains s) kept_entries removed" and r: "finish_prune Y fault s kept_entries removed = (r, s')"
  shows "settles Y s s'"
proof (cases r)
  case (Inl err)
  with r show ?thesis using settles_same finish_prune_failed [OF assms(1)] by blast
next
  case (Inr n)
  show ?thesis
  proof (cases "removed = []")
    case True
    then have "s' = s\<lparr>st_domains := kept_entries\<rparr>" using r by (simp add: finish_prune_def)
    with True assms(1) have "same_store s s'" by (simp add: same_store_def splits_table_def)
    then show ?thesis by (rule settles_same)
  next
    case False
    then obtain s2 where s2: "saveLocked Y fault (s\<lparr>st_domains := kept_entries\<rparr>) = (None, s2)" "s' = s2\<lparr>st_dirty := False\<rparr>"
      using r Inr by (auto simp: finish_prune_def split: option.splits prod.splits)
    show ?thesis using settles_saved [OF s2(1)] finish_prune_ok [OF assms(1) r] s2(2) by simp
  qed
qed

lemma PruneExpired_settles: "store_ok s \<Longrightarrow> PruneExpired Y fault s ttl now = (r, s') \<Longrightarrow> settles Y s s'"
  using finish_prune_settles [OF splits_expired] by (auto simp: PruneExpired_def split: if_splits)

lemma PruneToLimit_settles:
  assumes "store_ok s" and r: "PruneToLimit Y fault s limit = Some (r, s')" shows "settles Y s s'"
proof (cases "0 < limit")
  case True
  obtain kept_entries removed where "finish_prune Y fault s kept_entries removed = (r, s')"
    "splits_table (st_domains s) kept_entries removed"
    by (rule PruneToLimit_cases [OF assms(1) True, of Y fault]) (use r in auto)
  then show ?thesis using finish_prune_settles by blast
qed (use assms in \<open>simp add: PruneToLimit_def\<close>)

lemma Flush_settles:
  assumes "store_ok s" and r: "Flush Y fault s = (e, s')"
  shows "settles Y s s' \<and> (e = None \<longrightarrow> \<not> st_dirty s')"
proof (cases "st_dirty s")
  case True
  show ?thesis
  proof (cases e)
    case None
    then obtain s2 where s2: "saveLocked Y fault s = (None, s2)" "s' = s2\<lparr>st_dirty := False\<rparr>"
      using r True by (auto simp: Flush_def split: option.splits prod.splits)
    have "store_ok s'" using Flush_domains [OF r] assms(1) by (simp add: store_ok_iff)
    moreover have "s\<lparr>st_domains := st_domains s\<rparr> = s" by simp
    ultimately show ?thesis using settles_saved [of Y fault "st_domains s" s s2] s2 by simp
  next
    case (Some err)
    with r show ?thesis using settles_same [OF Flush_failed] by blast
  qed
qed (use r in \<open>simp add: Flush_def\<close>)

text \<open>\<^verbatim>\<open>MarkUsed\<close> changes marks and says so.\<close>

lemma MarkUsed_kept:
  assumes "MarkUsed s host now = (b, s')" shows "st_path s' = st_path s \<and> (kept Y s \<longrightarrow> kept Y s')"
proof (cases "map_of (st_domains s) (normalizeHost host)")
  case None
  then show ?thesis using assms by (simp add: MarkUsed_def Let_def)
next
  case (Some e)
  then have s': "s' = s\<lparr>st_domains := AList.update (normalizeHost host)
      (e\<lparr>ld_HitCount := ld_HitCount e + 1, ld_LastUsedAt := now\<rparr>) (st_domains s), st_dirty := True\<rparr>"
    using assms by (simp add: MarkUsed_def Let_def)
  have "map_option unmarked (map_of (st_domains s') k) = map_option unmarked (map_of (st_domains s) k)" for k
    using Some by (simp add: s' unmarked_def)
  then show ?thesis by (auto simp: kept_def s')
qed

lemma kept_Load: "Load Y path content = Inr s \<Longrightarrow> kept Y s"
  by (auto simp: Load_def kept_def file_table_def Let_def split: if_splits read_result.splits option.splits)

text \<open>What \<^verbatim>\<open>Load\<close> finds, for host names in normal form.\<close>

definition file_content :: "'y Store \<Rightarrow> 'y read_result" where
  "file_content s = (case st_file s of None \<Rightarrow> ReadNotExist | Some data \<Rightarrow> ReadOk data)"

lemma file_table_loads:
  fixes Y :: "'y yaml" and stored :: "'y option"
  assumes "file_table Y stored m" "path \<noteq> ''''" "yaml_roundtrip Y" "\<forall>k e. m k = Some e \<longrightarrow> normalizeHost (ld_Host e) = ld_Host e"
  shows "\<exists>s2. Load Y path (case stored of None \<Rightarrow> ReadNotExist | Some data \<Rightarrow> ReadOk data) = Inr s2 \<and> map_of (st_domains s2) = m"
proof (cases stored)
  case None
  then show ?thesis using assms(1,2) by (simp add: Load_def file_table_def)
next
  case (Some data)
  have "\<exists>f. y_unmarshal Y data = Some f \<and> map_of (foldl load_entry [] (lf_Domains f)) = m"
  proof (cases "\<exists>f. y_unmarshal Y data = Some f \<and> map_of (foldl load_entry [] (lf_Domains f)) = m")
    case False
    then obtain t :: "'y Store" where t: "store_ok t" "map_of (st_domains t) = m"
        "y_marshal Y \<lparr>lf_Version = 1, lf_Domains = Entries t\<rparr> = Some data"
      using assms(1) Some by (auto simp: file_table_def)
    have "\<forall>e \<in> set (Entries t). ld_Host e \<noteq> '''' \<and> ld_Upstream e \<noteq> ''''"
      using t(1) by (auto simp: store_ok_def Entries_set)
    moreover have "\<forall>e \<in> set (Entries t). normalizeHost (ld_Host e) = ld_Host e"
      using assms(4) t(1,2) by (auto simp: Entries_set store_ok_iff wf_map_def dest!: table_ok_wf intro: map_of_is_SomeI)
    ultimately have "map_of (foldl load_entry [] (Entries t)) = m"
      by (simp add: foldl_load_entry Entries_distinct [OF t(1)] map_of_hosts [OF t(1)] t(2))
    then show ?thesis using t(3) assms(3) by (auto simp: yaml_roundtrip_def)
  qed
  then show ?thesis using Some assms(2) by (auto simp: Load_def Let_def)
qed

lemma unmarked_Host [simp]: "ld_Host (unmarked e) = ld_Host e"
  by (simp add: unmarked_def)

lemma unmarked_host: "map_option unmarked (Some e) = map_option unmarked y \<Longrightarrow> \<exists>e'. y = Some e' \<and> ld_Host e' = ld_Host e"
  by (cases y) (auto dest: arg_cong [where f = ld_Host])

lemma kept_loads:
  assumes "kept Y s" "store_ok s" "st_path s \<noteq> ''''" "yaml_roundtrip Y"
    "\<forall>e \<in> set (Entries s). normalizeHost (ld_Host e) = ld_Host e"
  shows "\<exists>s2. Load Y (st_path s) (file_content s) = Inr s2 \<and>
    (\<forall>host. map_option unmarked (Lookup s2 host) = map_option unmarked (Lookup s host)) \<and>
    (\<not> st_dirty s \<longrightarrow> (\<forall>host. Lookup s2 host = Lookup s host) \<and> Entries s2 = Entries s)"
proof -
  obtain m where m: "file_table Y (st_file s) m" "\<not> st_dirty s \<longrightarrow> m = map_of (st_domains s)"
      "\<forall>k. map_option unmarked (m k) = map_option unmarked (map_of (st_domains s) k)"
    using assms(1) by (auto simp: kept_def)
  have "normalizeHost (ld_Host e) = ld_Host e" if mk: "m k = Some e" for k e
  proof -
    obtain e' where e': "map_of (st_domains s) k = Some e'" "ld_Host e' = ld_Host e"
      using unmarked_host [of e "map_of (st_domains s) k"] m(3) [rule_format, of k] mk by auto
    then have "e' \<in> set (Entries s)" by (force simp: Entries_set dest: map_of_SomeD)
    with assms(5) e'(2) show ?thesis by metis
  qed
  with file_table_loads [OF m(1) assms(3,4)] obtain s2
    where l: "Load Y (st_path s) (file_content s) = Inr s2" "map_of (st_domains s2) = m"
    unfolding file_content_def by blast
  then show ?thesis using m(2,3) Entries_cong [OF Load_ok [OF l(1)] assms(2)] by (auto simp: Lookup_def)
qed

section \<open>The running process\<close>

text \<open>A store that keeps its table if it has a file at all, and a state whose store does.\<close>

definition synced :: "'y yaml \<Rightarrow> 'y Store \<Rightarrow> bool" where
  "synced Y st \<longleftrightarrow> st_path st \<noteq> '''' \<longrightarrow> kept Y st"

definition learned_synced :: "'y yaml \<Rightarrow> 'y system \<Rightarrow> bool" where
  "learned_synced Y s \<longleftrightarrow> (\<forall>st. sy_learned s = Some st \<longrightarrow> synced Y st)"

lemma learned_synced_simps [simp]:
  "learned_synced Y (s\<lparr>sy_learned := Some st\<rparr>) = synced Y st"
  "learned_synced Y (put_manager i m s) = learned_synced Y s"
  "learned_synced Y (s\<lparr>sy_probes := p\<rparr>) = learned_synced Y s"
  "learned_synced Y (stopRuntimeHealth s) = learned_synced Y s"
  "learned_synced Y (installRuntime c s) = learned_synced Y s"
  by (simp_all add: learned_synced_def put_manager_def stopRuntimeHealth_def installRuntime_def Let_def)

lemma settles_synced: "settles Y s s' \<Longrightarrow> synced Y s \<Longrightarrow> synced Y s'"
  by (auto simp: settles_def synced_def)

lemma sys_ok_store: "sys_ok s \<Longrightarrow> sy_learned s = Some st \<Longrightarrow> store_ok st"
  by (auto simp: sys_ok_def)

text \<open>Every step of the shared state, but for the use of a route, settles the learned table.\<close>

definition quiet :: "'y yaml \<Rightarrow> 'y system \<Rightarrow> 'y system \<Rightarrow> bool" where
  "quiet Y s s' \<longleftrightarrow> sy_learned s' = sy_learned s \<or>
     (\<exists>st st'. sy_learned s = Some st \<and> sy_learned s' = Some st' \<and> settles Y st st')"

lemma quiet_steps:
  assumes "sys_ok s" "sy_learned s = Some st"
  shows "AddWithLimit Y fault now st host up reason limit = (r1, st1) \<Longrightarrow> quiet Y s (s\<lparr>sy_learned := Some st1\<rparr>)"
    "Delete Y fault st host = (r2, st2) \<Longrightarrow> quiet Y s (s\<lparr>sy_learned := Some st2\<rparr>)"
    "PruneExpired Y fault st ttl now = (r3, st3) \<Longrightarrow> quiet Y s (s\<lparr>sy_learned := Some st3\<rparr>)"
    "PruneToLimit Y fault st limit = Some (r4, st4) \<Longrightarrow> quiet Y s (s\<lparr>sy_learned := Some st4\<rparr>)"
    "Flush Y fault st = (r5, st5) \<Longrightarrow> quiet Y s (s\<lparr>sy_learned := Some st5\<rparr>)"
  using assms sys_ok_store [OF assms]
  by (auto simp: quiet_def intro: AddWithLimit_settles Delete_settles PruneExpired_settles PruneToLimit_settles
      dest: Flush_settles)

lemma quiet_same [simp]:
  "quiet Y s s" "quiet Y s (put_manager i m s)" "quiet Y s (s\<lparr>sy_probes := p\<rparr>)" "quiet Y s (stopRuntimeHealth s)"
  "quiet Y s (installRuntime c s') = quiet Y s s'"
  by (simp_all add: quiet_def put_manager_def stopRuntimeHealth_def installRuntime_def Let_def)

lemma reload_quiet:
  assumes "reloadRuntime Y fault loaded s = Some (e, s')" "sys_ok s" shows "quiet Y s s'"
  using assms
proof (cases rule: reload_cases)
  case (unsaved limit err st st')
  then show ?thesis using quiet_steps(4) [OF assms(2)] by simp
next
  case (reloaded next_cfg st st' n)
  then show ?thesis using quiet_steps(4) [OF assms(2)] by simp
qed simp

lemma sys_step_quiet:
  assumes "sys_step Y s s'" "sys_ok s"
  shows "quiet Y s s' \<or> (\<exists>st host now b st'. sy_learned s = Some st \<and> MarkUsed st host now = (b, st') \<and> sy_learned s' = Some st')"
  using assms(1)
proof cases
  case learn then show ?thesis using quiet_steps(1) [OF assms(2)] by simp
next
  case used then show ?thesis by auto
next
  case forget then show ?thesis using quiet_steps(2) [OF assms(2)] by simp
next
  case expire then show ?thesis using quiet_steps(3) [OF assms(2)] by simp
next
  case flush then show ?thesis using quiet_steps(5) [OF assms(2)] by simp
next
  case reload then show ?thesis using reload_quiet assms(2) by blast
next
  case reload_prune then show ?thesis using quiet_steps(4) [OF assms(2)] by simp
qed simp_all

lemma quiet_synced: "quiet Y s s' \<Longrightarrow> learned_synced Y s \<Longrightarrow> learned_synced Y s'"
  using settles_synced by (auto simp: quiet_def learned_synced_def)

lemma quiet_marks: "quiet Y s s' \<Longrightarrow> \<not> marks_dirty s s'"
  by (auto simp: quiet_def marks_dirty_def settles_def)

lemma sys_step_synced:
  assumes "sys_step Y s s'" "sys_ok s" "learned_synced Y s" shows "learned_synced Y s'"
  using sys_step_quiet [OF assms(1,2)] quiet_synced assms(3) MarkUsed_kept
  by (fastforce simp: learned_synced_def synced_def)

lemma boot_synced: "boot Y loaded content f1 f2 now = Some (Inr s) \<Longrightarrow> learned_synced Y s"
proof -
  assume b: "boot Y loaded content f1 f2 now = Some (Inr s)"
  obtain path ttl limit st where u: "startup_store Y path content f1 f2 ttl limit now = Some (Inr st)"
    and s: "sy_learned s = Some st"
    using b by (auto simp: boot_def installRuntime_def Let_def split: sum.splits option.splits)
  obtain s0 s1 n1 n2 where l: "Load Y path content = Inr s0" "PruneExpired Y f1 s0 ttl now = (n1, s1)"
    "PruneToLimit Y f2 s1 limit = Some (n2, st)"
    using u by (auto simp: startup_store_def split: sum.splits prod.splits) (metis sum.exhaust)
  have ok: "store_ok s0" "store_ok s1" using Load_ok [OF l(1)] PruneExpired_ok [OF _ l(2)] by auto
  have "synced Y s0" using kept_Load [OF l(1)] by (simp add: synced_def)
  then have "synced Y st"
    using settles_synced PruneExpired_settles [OF ok(1) l(2)] PruneToLimit_settles [OF ok(2) l(3)] by metis
  with s show ?thesis by (simp add: learned_synced_def)
qed

text \<open>The process has reported that its sessions completed; and its last flush reported no error
  either.\<close>

definition completed :: "'y process \<Rightarrow> bool" where
  "completed p = (case pc_phase p of Flushing c \<Rightarrow> c | Returning _ c \<Rightarrow> c | Exited _ c \<Rightarrow> c | _ \<Rightarrow> False)"

definition flushed :: "'y process \<Rightarrow> bool" where
  "flushed p \<longleftrightarrow> pc_phase p \<in> {Returning None True, Exited None True}"

lemma flushed_completed: "flushed p \<Longrightarrow> completed p"
  by (auto simp: flushed_def completed_def)

text \<open>The invariant of the process: a completed process has no session, and once it has flushed as well, its
  table stays clean.\<close>

definition process_ok :: "'y yaml \<Rightarrow> 'y process \<Rightarrow> bool" where
  "process_ok Y p \<longleftrightarrow> sys_ok (pc_system p) \<and> learned_synced Y (pc_system p) \<and>
     (completed p \<longrightarrow> pc_sessions p = []) \<and>
     (flushed p \<longrightarrow> (\<forall>st. sy_learned (pc_system p) = Some st \<longrightarrow> \<not> st_dirty st))"

lemma phase_cong:
  "pc_phase p = pc_phase q \<Longrightarrow> completed p = completed q"
  "pc_phase p = pc_phase q \<Longrightarrow> flushed p = flushed q"
  by (simp_all add: completed_def flushed_def)

lemma process_ok_simps [simp]: "process_ok Y (p\<lparr>pc_monitor := m\<rparr>) = process_ok Y p"
  "process_ok Y (p\<lparr>pc_CntNo := n\<rparr>) = process_ok Y p"
  by (simp_all add: process_ok_def completed_def flushed_def)

lemma tick_ok:
  assumes "process_ok Y p" "sys_step Y (pc_system p) s" "pc_sessions p = [] \<longrightarrow> \<not> marks_dirty (pc_system p) s"
  shows "process_ok Y (p\<lparr>pc_system := s\<rparr>)"
proof -
  have ok: "sys_ok (pc_system p)" "learned_synced Y (pc_system p)" using assms(1) by (simp_all add: process_ok_def)
  have "\<not> st_dirty st'" if f: "flushed p" and st': "sy_learned s = Some st'" for st'
  proof -
    obtain st where "sy_learned (pc_system p) = Some st" using ok(1) by (auto simp: sys_ok_def)
    then show ?thesis using assms(1,3) flushed_completed [OF f] f st' by (auto simp: process_ok_def marks_dirty_def)
  qed
  then show ?thesis
    using assms(1) sys_step_ok [OF assms(2) ok(1)] sys_step_synced [OF assms(2) ok] phase_cong [of "p\<lparr>pc_system := s\<rparr>" p]
    by (simp add: process_ok_def)
qed

lemma quiet_tick_ok:
  "process_ok Y p \<Longrightarrow> sys_step Y (pc_system p) s \<Longrightarrow> quiet Y (pc_system p) s \<Longrightarrow> process_ok Y (p\<lparr>pc_system := s\<rparr>)"
  using tick_ok quiet_marks by blast

lemma flush_tick_ok: "process_ok Y p \<Longrightarrow> process_ok Y (flush_tick Y fault p)"
proof (cases "sy_learned (pc_system p)")
  case (Some st)
  obtain e st' where f: "Flush Y fault st = (e, st')" by fastforce
  assume ok: "process_ok Y p"
  then have "quiet Y (pc_system p) ((pc_system p)\<lparr>sy_learned := Some st'\<rparr>)"
    using quiet_steps(5) [OF _ Some f] by (simp add: process_ok_def)
  with quiet_tick_ok [OF ok sys_step.flush [OF Some f]] show ?thesis by (simp add: flush_tick_def Some f)
qed (simp add: flush_tick_def)

lemma prune_tick_ok:
  assumes ok: "process_ok Y p" shows "process_ok Y (prune_tick Y fault now p)"
proof (cases "sy_learned (pc_system p)")
  case (Some st)
  show ?thesis
  proof (cases "currentRuntime (pc_system p)")
    case cur: (Some cur)
    obtain r st' where r: "PruneExpired Y fault st (LearnedTTL (cf_Detection (pr_config cur))) now = (r, st')" by fastforce
    have "p\<lparr>pc_system := s, pc_monitor := m\<rparr> = (p\<lparr>pc_system := s\<rparr>)\<lparr>pc_monitor := m\<rparr>" for s m by simp
    moreover have "quiet Y (pc_system p) ((pc_system p)\<lparr>sy_learned := Some st'\<rparr>)"
      using quiet_steps(3) [OF _ Some r] ok by (simp add: process_ok_def)
    ultimately show ?thesis using quiet_tick_ok [OF ok sys_step.expire [OF Some cur r]] Some cur r
      by (cases r) (simp_all add: prune_tick_def)
  qed (use assms in \<open>simp add: prune_tick_def Some\<close>)
qed (use assms in \<open>simp add: prune_tick_def\<close>)

lemma reload_signal_ok:
  assumes "reload_signal Y fault (LoadConfig decoded dir files) sig p = Some p'" and ok: "process_ok Y p"
  shows "process_ok Y p'"
proof (cases "sig \<notin> set reloadSignals \<or> \<not> running p")
  case False
  then obtain e s where r: "reloadRuntime Y fault (LoadConfig decoded dir files) (pc_system p) = Some (e, s)"
    "p' = p\<lparr>pc_system := s, pc_monitor := reload_metrics Y fault (LoadConfig decoded dir files) (pc_system p) (pc_monitor p)\<rparr>"
    using assms(1) by (auto simp: reload_signal_def)
  have "p' = (p\<lparr>pc_system := s\<rparr>)\<lparr>pc_monitor := reload_metrics Y fault (LoadConfig decoded dir files) (pc_system p) (pc_monitor p)\<rparr>"
    using r(2) by simp
  moreover have "process_ok Y (p\<lparr>pc_system := s\<rparr>)"
    using quiet_tick_ok [OF ok sys_step.reload [OF r(1)] reload_quiet [OF r(1)]] ok by (simp add: process_ok_def)
  ultimately show ?thesis by (simp only: process_ok_simps)
qed (use assms in \<open>simp add: reload_signal_def\<close>)

lemma final_flush_ok:
  assumes ok: "process_ok Y p" shows "process_ok Y (final_flush Y fault p)"
proof (cases "\<exists>c. pc_phase p = Flushing c")
  case True
  then obtain c where c: "pc_phase p = Flushing c" by blast
  obtain st where st: "sy_learned (pc_system p) = Some st" "store_ok st" using ok by (auto simp: process_ok_def sys_ok_def)
  obtain e st' where f: "Flush Y fault st = (e, st')" by fastforce
  let ?s = "(pc_system p)\<lparr>sy_learned := Some st'\<rparr>"
  have "sys_ok ?s" "learned_synced Y ?s"
    using ok sys_step_ok [OF sys_step.flush [OF st(1) f]] sys_step_synced [OF sys_step.flush [OF st(1) f]]
    by (auto simp: process_ok_def)
  moreover have "e = None \<longrightarrow> \<not> st_dirty st'" using Flush_settles [OF st(2) f] by simp
  ultimately show ?thesis using ok c st(1) f
    by (auto simp: final_flush_def process_ok_def completed_def flushed_def)
qed (use ok in \<open>auto simp: final_flush_def split: phase.splits\<close>)

lemma same_system_ok:
  assumes "process_ok Y p" "pc_system p' = pc_system p" "completed p' \<longrightarrow> pc_sessions p' = []" "flushed p' \<longrightarrow> flushed p"
  shows "process_ok Y p'"
  using assms by (simp add: process_ok_def)

lemma main_step_ok:
  assumes ok: "process_ok Y p" shows "process_ok Y (main_step Y fault noticed overdue p)"
proof (cases "pc_phase p")
  case Leaving
  then show ?thesis using ok sys_step_ok [OF sys_step.halt, of "pc_system p"]
    by (simp add: main_step_def begin_shutdown_def process_ok_def completed_def flushed_def)
next
  case (Flushing c)
  then show ?thesis using final_flush_ok [OF ok] by (simp add: main_step_def)
next
  case Draining
  then show ?thesis using ok
    by (auto simp: main_step_def wait_sessions_def waitForWaitGroup_def process_ok_def completed_def flushed_def)
qed (use ok in \<open>auto simp: main_step_def accept_round_def shutdown_admin_def return_main_def process_ok_def completed_def flushed_def\<close>)

lemma process_step_ok:
  assumes "process_step Y p p'" and ok: "process_ok Y p" shows "process_ok Y p'"
  using assms(1)
proof cases
  case (accept connection)
  then show ?thesis using ok
    by (auto simp: accept_round_def start_session_def process_ok_def completed_def flushed_def split: phase.splits)
next
  case (complete x)
  then show ?thesis using ok by (auto simp: session_done_def process_ok_def completed_def flushed_def)
next
  case (stop sig)
  then show ?thesis using ok by (auto simp: shutdown_signal_def process_ok_def completed_def flushed_def)
next
  case close
  then show ?thesis using ok by (auto simp: close_listener_def process_ok_def completed_def flushed_def)
qed (use ok tick_ok flush_tick_ok prune_tick_ok reload_signal_ok main_step_ok in simp_all)

lemma process_reachable_ok: "process_reachable Y p \<Longrightarrow> process_ok Y p"
proof (induction rule: process_reachable.induct)
  case (started decoded dir files content f1 f2 now s)
  then show ?case using boot_ok [OF started] boot_synced [OF started]
    by (simp add: process_ok_def start_process_def completed_def flushed_def)
qed (rule process_step_ok)

text \<open>C5. Nothing is lost over a restart. At any moment, so also after a crash, loading the file gives a table
  with the routes of the one in memory, but for the marks of use (hit counts and times) that are
  not flushed yet. And it gives the very table, marks included, when the process has exited after it saw its
  sessions complete and its last flush reported no error, or when the table is not marked dirty. It holds for
  every interleaving of sessions, probes, dashboard, maintenance, reloads and failed
  saves before, for host names in normal form and a YAML library that reads what it wrote. (A session that is
  left behind when the time-out ends the wait can still mark a route between the last flush and the
  exit; this mark is lost.)\<close>

theorem nothing_is_lost_over_a_restart:
  assumes "process_reachable Y p" "sy_learned (pc_system p) = Some st" "st_path st \<noteq> ''''" "yaml_roundtrip Y"
    and "\<forall>e \<in> set (Entries st). normalizeHost (ld_Host e) = ld_Host e"
  shows "\<exists>s2. Load Y (st_path st) (file_content st) = Inr s2 \<and>
    (\<forall>host. map_option unmarked (Lookup s2 host) = map_option unmarked (Lookup st host)) \<and>
    (pc_phase p = Exited None True \<or> \<not> st_dirty st \<longrightarrow>
      (\<forall>host. Lookup s2 host = Lookup st host) \<and> Entries s2 = Entries st)"
proof -
  have ok: "process_ok Y p" by (rule process_reachable_ok [OF assms(1)])
  then have "kept Y st" "store_ok st" "pc_phase p = Exited None True \<longrightarrow> \<not> st_dirty st"
    using assms(2,3) by (auto simp: process_ok_def learned_synced_def synced_def sys_ok_def flushed_def)
  then show ?thesis using kept_loads assms(3-5) by blast
qed

section \<open>The shutdown ends\<close>

definition shutting_down :: "'y process \<Rightarrow> bool" where
  "shutting_down p \<longleftrightarrow> pc_phase p \<noteq> Accepting \<and> (completed p \<longrightarrow> pc_sessions p = [])"

lemma shutting_down_step:
  assumes "process_step Y p p'" "shutting_down p"
  shows "shutting_down p' \<and> (pc_phase p \<noteq> Signalled \<longrightarrow>
    pc_phase p' \<noteq> Signalled \<and> set (pc_sessions p') \<subseteq> set (pc_sessions p))"
  using assms(1)
proof cases
  case (accept connection)
  then show ?thesis using assms(2)
    by (auto simp: shutting_down_def accept_round_def start_session_def completed_def split: phase.splits)
next
  case (complete x)
  then show ?thesis using assms(2)
    by (auto simp: shutting_down_def session_done_def completed_def dest: set_remove1_subset [THEN subsetD])
next
  case (main fault noticed overdue)
  then show ?thesis using assms(2)
    by (cases "pc_phase p")
      (auto simp: shutting_down_def completed_def main_step_def accept_round_def begin_shutdown_def shutdown_admin_def
        wait_sessions_def waitForWaitGroup_def final_flush_def return_main_def split: option.splits prod.splits)
next
  case (hangup fault decoded dir files sig)
  then show ?thesis using assms(2)
    by (auto simp: shutting_down_def completed_def reload_signal_def split: if_splits)
next
  case (prune fault now)
  then show ?thesis using assms(2)
    by (auto simp: shutting_down_def completed_def prune_tick_def split: option.splits prod.splits sum.splits)
qed (use assms(2) in \<open>auto simp: shutting_down_def completed_def flush_tick_def shutdown_signal_def close_listener_def
       split: option.splits\<close>)

lemma shutting_down_steps:
  "(process_step Y)\<^sup>*\<^sup>* p p' \<Longrightarrow> shutting_down p \<Longrightarrow>
   shutting_down p' \<and> (pc_phase p \<noteq> Signalled \<longrightarrow> pc_phase p' \<noteq> Signalled \<and> set (pc_sessions p') \<subseteq> set (pc_sessions p))"
  by (induction rule: rtranclp_induct) (simp, meson shutting_down_step subset_trans)

text \<open>The wait is still to come.\<close>

definition waiting :: "'y process \<Rightarrow> bool" where
  "waiting p \<longleftrightarrow> pc_phase p \<in> {ListenerClosed, Leaving, Stopping, Draining}"

definition flush_error :: "'y yaml \<Rightarrow> save_fault \<Rightarrow> 'y process \<Rightarrow> store_error option" where
  "flush_error Y fault p = (case sy_learned (pc_system p) of None \<Rightarrow> None | Some st \<Rightarrow> fst (Flush Y fault st))"

lemma final_steps:
  "pc_phase p = Exited e c \<Longrightarrow> main_step Y fault noticed overdue p = p"
  "pc_phase p = Returning e c \<Longrightarrow> main_step Y fault noticed overdue p = p\<lparr>pc_phase := Exited e c\<rparr>"
  "pc_phase p = Flushing c \<Longrightarrow> \<exists>s. main_step Y fault noticed overdue p =
     p\<lparr>pc_phase := Returning (flush_error Y fault p) c, pc_system := s\<rparr>"
  "pc_phase p = Draining \<Longrightarrow> main_step Y fault noticed True p =
     p\<lparr>pc_phase := Flushing (pc_sessions p = [] \<and> noticed)\<rparr>"
  "pc_phase p = Stopping \<Longrightarrow> main_step Y fault noticed overdue p = p\<lparr>pc_phase := Draining\<rparr>"
  "pc_phase p = Leaving \<Longrightarrow> main_step Y fault noticed overdue p =
     p\<lparr>pc_phase := Stopping, pc_system := stopRuntimeHealth (pc_system p)\<rparr>"
  "pc_phase p = ListenerClosed \<Longrightarrow> main_step Y fault noticed overdue p = p\<lparr>pc_phase := Leaving\<rparr>"
  by (auto simp: main_step_def return_main_def final_flush_def flush_error_def wait_sessions_def waitForWaitGroup_def
      shutdown_admin_def begin_shutdown_def accept_round_def split: option.splits prod.splits intro: exI [of _ "pc_system p"])

text \<open>The rest of \<^verbatim>\<open>main\<close>, from every phase after the accept loop can no longer start a session.\<close>

definition ends_with :: "'y process \<Rightarrow> 'y process \<Rightarrow> store_error option \<Rightarrow> bool \<Rightarrow> bool" where
  "ends_with p q e c \<longleftrightarrow> pc_phase q = Exited e c \<and> pc_sessions q = pc_sessions p"

lemma main_step_then:
  assumes "main_step Y fault noticed overdue p = p'" "pc_sessions p' = pc_sessions p"
    and "ends_with p' ((main_step Y fault noticed overdue ^^ n) p') e c"
  shows "ends_with p ((main_step Y fault noticed overdue ^^ Suc n) p) e c"
  using assms by (simp add: ends_with_def funpow_swap1)

lemma flush_error_simps [simp]:
  "flush_error Y fault (p\<lparr>pc_phase := x\<rparr>) = flush_error Y fault p"
  "flush_error Y fault (p\<lparr>pc_phase := x, pc_system := stopRuntimeHealth (pc_system p)\<rparr>) = flush_error Y fault p"
  by (simp_all add: flush_error_def stopRuntimeHealth_def)

lemma exited_ends: "pc_phase p = Exited e c \<Longrightarrow> ends_with p ((main_step Y fault noticed True ^^ n) p) e c"
  by (induction n) (simp_all add: ends_with_def final_steps(1))

lemma returning_ends: "pc_phase p = Returning e c \<Longrightarrow> ends_with p ((main_step Y fault noticed True ^^ Suc n) p) e c"
  using exited_ends [of "p\<lparr>pc_phase := Exited e c\<rparr>" e c]
  by (intro main_step_then [OF final_steps(2)]) simp_all

lemma flushing_ends:
  assumes "pc_phase p = Flushing c"
  shows "ends_with p ((main_step Y fault noticed True ^^ Suc (Suc n)) p) (flush_error Y fault p) c"
proof -
  obtain s where "main_step Y fault noticed True p = p\<lparr>pc_phase := Returning (flush_error Y fault p) c, pc_system := s\<rparr>"
    using final_steps(3) [OF assms] by blast
  then show ?thesis by (rule main_step_then) (simp_all add: returning_ends del: funpow.simps)
qed

lemma draining_ends:
  assumes "pc_phase p = Draining"
  shows "ends_with p ((main_step Y fault noticed True ^^ Suc (Suc (Suc n))) p) (flush_error Y fault p) (pc_sessions p = [] \<and> noticed)"
  using flushing_ends [of "p\<lparr>pc_phase := Flushing (pc_sessions p = [] \<and> noticed)\<rparr>"]
  by (intro main_step_then [OF final_steps(4) [OF assms]]) (simp_all del: funpow.simps)

lemma stopping_ends:
  assumes "pc_phase p = Stopping"
  shows "ends_with p ((main_step Y fault noticed True ^^ Suc (Suc (Suc (Suc n)))) p) (flush_error Y fault p) (pc_sessions p = [] \<and> noticed)"
  using draining_ends [of "p\<lparr>pc_phase := Draining\<rparr>"]
  by (intro main_step_then [OF final_steps(5) [OF assms]]) (simp_all del: funpow.simps)

lemma leaving_ends:
  assumes "pc_phase p = Leaving"
  shows "ends_with p ((main_step Y fault noticed True ^^ Suc (Suc (Suc (Suc (Suc n))))) p) (flush_error Y fault p) (pc_sessions p = [] \<and> noticed)"
  using stopping_ends [of "p\<lparr>pc_phase := Stopping, pc_system := stopRuntimeHealth (pc_system p)\<rparr>"]
  by (intro main_step_then [OF final_steps(6) [OF assms]]) (simp_all del: funpow.simps)

lemma closed_ends:
  assumes "pc_phase p = ListenerClosed"
  shows "ends_with p ((main_step Y fault noticed True ^^ Suc (Suc (Suc (Suc (Suc (Suc n)))))) p) (flush_error Y fault p) (pc_sessions p = [] \<and> noticed)"
  using leaving_ends [of "p\<lparr>pc_phase := Leaving\<rparr>"]
  by (intro main_step_then [OF final_steps(7) [OF assms]]) (simp_all del: funpow.simps)

lemma waiting_ends:
  "waiting p \<Longrightarrow> ends_with p ((main_step Y fault noticed True ^^ 6) p) (flush_error Y fault p) (pc_sessions p = [] \<and> noticed)"
  using closed_ends leaving_ends stopping_ends draining_ends
  by (auto simp: waiting_def numeral_eq_Suc simp del: funpow.simps)

lemma not_waiting_ends:
  assumes "\<not> waiting p" "shutting_down p" "pc_phase p \<noteq> Signalled"
  shows "\<exists>e. ends_with p ((main_step Y fault noticed True ^^ 6) p) e (completed p)"
proof -
  have six: "(6::nat) = Suc 5" "(6::nat) = Suc (Suc 4)" by simp_all
  show ?thesis
    using assms exited_ends [of p _ _ 6 Y fault noticed] returning_ends [of p _ _ 5 Y fault noticed]
      flushing_ends [of p _ 4 Y fault noticed] unfolding six [symmetric]
    by (cases "pc_phase p") (auto simp: waiting_def shutting_down_def completed_def)
qed

text \<open>C22. A shutdown signal ends the process whatever its sessions do. Once the listener is closed, no connection
  is accepted. A report that the sessions completed is true: none is left. And at every later moment, with the
  time-out over, six more steps of \<^verbatim>\<open>main\<close> alone end it: when the wait was still to come, with the result of
  a final flush of the table as it then is, and the report that the sessions completed exactly when none was left
  and the wait noticed it (it may miss it: the \<^verbatim>\<open>select\<close> can take the time-out when both are ready). That
  the shutdown of the admin server returns by its deadline is the contract of \<^verbatim>\<open>http.Server.Shutdown\<close>.\<close>

theorem shutdown_ends_within_the_timeout:
  assumes "pc_phase p = Accepting" "sig \<in> set shutdownSignals"
    and "(process_step Y)\<^sup>*\<^sup>* (shutdown_signal sig p) p1" "(process_step Y)\<^sup>*\<^sup>* (close_listener p1) p'"
  shows "set (pc_sessions p') \<subseteq> set (pc_sessions p1) \<and> (completed p' \<longrightarrow> pc_sessions p' = []) \<and>
    (\<exists>e c. pc_phase ((main_step Y fault noticed True ^^ 6) p') = Exited e c \<and>
       pc_sessions ((main_step Y fault noticed True ^^ 6) p') = pc_sessions p' \<and> (c \<longrightarrow> pc_sessions p' = []) \<and>
       (waiting p' \<longrightarrow> e = flush_error Y fault p' \<and> c = (pc_sessions p' = [] \<and> noticed)))"
proof -
  have "shutting_down (shutdown_signal sig p)"
    using assms(1,2) by (simp add: shutdown_signal_def shutting_down_def completed_def)
  from shutting_down_steps [OF assms(3) this] have "shutting_down p1" ..
  then have p1: "shutting_down (close_listener p1)" "pc_phase (close_listener p1) \<noteq> Signalled"
      "pc_sessions (close_listener p1) = pc_sessions p1"
    by (auto simp: close_listener_def shutting_down_def completed_def)
  from shutting_down_steps [OF assms(4) p1(1)] p1(2,3)
  have p': "shutting_down p'" "pc_phase p' \<noteq> Signalled" "set (pc_sessions p') \<subseteq> set (pc_sessions p1)" by auto
  have "\<exists>e c. ends_with p' ((main_step Y fault noticed True ^^ 6) p') e c \<and> (c \<longrightarrow> pc_sessions p' = []) \<and>
    (waiting p' \<longrightarrow> e = flush_error Y fault p' \<and> c = (pc_sessions p' = [] \<and> noticed))"
  proof (cases "waiting p'")
    case True
    then show ?thesis using waiting_ends by blast
  next
    case False
    then obtain e where "ends_with p' ((main_step Y fault noticed True ^^ 6) p') e (completed p')"
      using not_waiting_ends p'(1,2) by blast
    with p'(1) False show ?thesis by (auto simp: shutting_down_def)
  qed
  then show ?thesis using p' by (auto simp: ends_with_def shutting_down_def)
qed

section \<open>A sample life\<close>

text \<open>A session is accepted, its host is learned and used; it ends, then the process is terminated.\<close>

definition used_entry :: LearnedDomain where
  "used_entry = (entry_of ''a'')\<lparr>ld_HitCount := 1, ld_LastUsedAt := 9\<rparr>"

definition used_store :: "learnedFile Store" where
  "used_store = (sample_store [entry_of ''a''])\<lparr>st_domains := [(''a'', used_entry)], st_dirty := True\<rparr>"

definition used_process :: "learnedFile process" where
  "used_process = (start_session (start_process 0 (sample_system 2)))
     \<lparr>pc_system := (sample_system 2)\<lparr>sy_learned := Some used_store\<rparr>\<rparr>"

lemma used_process_simps:
  "pc_phase used_process = Accepting" "pc_sessions used_process = [(1, 0)]"
  "pc_system used_process = (sample_system 2)\<lparr>sy_learned := Some used_store\<rparr>"
  by (simp_all add: used_process_def start_session_def start_process_def sample_system_def installRuntime_def Let_def)

lemma used_process_reachable: "process_reachable id_yaml used_process"
proof -
  let ?s1 = "(sample_system 2)\<lparr>sy_learned := Some (sample_store [entry_of ''a''])\<rparr>"
  let ?p0 = "start_session (start_process 0 (sample_system 2))"
  have "process_reachable id_yaml (start_process 0 (sample_system 2))"
    by (rule process_reachable.started [of _ "Some (limited_document 2)" "''/etc''" sample_files ReadNotExist NoFault NoFault 0])
      (simp add: boot_def limited_loads sample_startup sample_system_def)
  from process_reachable.step [OF this process_step.accept [of _ _ True]]
  have p0: "process_reachable id_yaml ?p0" by (simp add: accept_round_def start_process_def)
  have rt: "0 < length (sy_runtimes (sample_system 2))" "sy_learned (sample_system 2) = Some (sample_store [])"
    "LearnedLimit (cf_Detection (pr_config (sy_runtimes (sample_system 2) ! 0))) = 2"
    by (simp_all add: sample_system_def installRuntime_def Let_def)
  have "sys_step id_yaml (sample_system 2) ?s1"
    by (rule sys_step.learn [where i = 0 and fault = NoFault and now = 5 and host = "''a''" and up = "''vpn''" and reason = "''t''"])
      (use rt sample_adds(1) in simp_all)
  moreover have r: "running ?p0" "pc_system ?p0 = sample_system 2" "pc_sessions ?p0 \<noteq> []"
    by (simp_all add: running_def start_process_def start_session_def)
  ultimately have "process_step id_yaml ?p0 (?p0\<lparr>pc_system := ?s1\<rparr>)" by (intro process_step.work) simp_all
  with p0 have p1: "process_reachable id_yaml (?p0\<lparr>pc_system := ?s1\<rparr>)" by (rule process_reachable.step)
  have "MarkUsed (sample_store [entry_of ''a'']) ''a'' 9 = (True, used_store)"
    by (simp add: MarkUsed_def sample_store_def used_store_def used_entry_def entry_of_def host_eval Let_def)
  then have "sys_step id_yaml ?s1 (?s1\<lparr>sy_learned := Some used_store\<rparr>)" by (intro sys_step.used) simp_all
  then have "process_step id_yaml (?p0\<lparr>pc_system := ?s1\<rparr>) ((?p0\<lparr>pc_system := ?s1\<rparr>)\<lparr>pc_system := ?s1\<lparr>sy_learned := Some used_store\<rparr>\<rparr>)"
    using r(1,3) by (intro process_step.work) (simp_all add: running_def)
  from process_reachable.step [OF p1 this] show ?thesis by (simp add: used_process_def)
qed

lemma main_steps_reachable:
  "process_reachable Y p \<Longrightarrow> process_reachable Y ((main_step Y fault noticed overdue ^^ n) p)"
  by (induction n) (auto intro: process_reachable.step process_step.main)

definition ended_process :: "learnedFile process" where
  "ended_process = (main_step id_yaml NoFault True False ^^ 6)
     (close_listener (shutdown_signal SIGTERM (session_done (1, 0) used_process)))"

lemma ended_process_facts:
  "process_reachable id_yaml ended_process" "pc_phase ended_process = Exited None True"
  "sy_learned (pc_system ended_process) =
     Some (used_store\<lparr>st_dirty := False, st_file := Some \<lparr>lf_Version = 1, lf_Domains = [used_entry]\<rparr>\<rparr>)"
proof -
  have "running used_process" by (simp add: running_def used_process_simps)
  then show "process_reachable id_yaml ended_process"
    unfolding ended_process_def
    by (intro main_steps_reachable process_reachable.step [OF process_reachable.step [OF process_reachable.step
        [OF used_process_reachable process_step.complete] process_step.stop] process_step.close])
  show "pc_phase ended_process = Exited None True"
    "sy_learned (pc_system ended_process) =
       Some (used_store\<lparr>st_dirty := False, st_file := Some \<lparr>lf_Version = 1, lf_Domains = [used_entry]\<rparr>\<rparr>)"
    by (simp_all add: ended_process_def used_process_simps session_done_def shutdown_signal_def shutdownSignals_def
        close_listener_def main_step_def accept_round_def begin_shutdown_def shutdown_admin_def wait_sessions_def
        waitForWaitGroup_def final_flush_def return_main_def numeral_eq_Suc stopRuntimeHealth_def Flush_def
        saveLocked_def used_store_def sample_store_def id_yaml_def Entries_def)
qed

theorem nothing_is_lost_over_a_restart_witness:
  "\<exists>s2. Load id_yaml ''/l'' (ReadOk \<lparr>lf_Version = 1, lf_Domains = [used_entry]\<rparr>) = Inr s2 \<and>
     Lookup s2 ''a'' = Some used_entry"
proof -
  let ?st = "used_store\<lparr>st_dirty := False, st_file := Some \<lparr>lf_Version = 1, lf_Domains = [used_entry]\<rparr>\<rparr>"
  have s: "st_path ?st = ''/l''" "file_content ?st = ReadOk \<lparr>lf_Version = 1, lf_Domains = [used_entry]\<rparr>"
    "Entries ?st = [used_entry]" "Lookup ?st ''a'' = Some used_entry"
    by (simp_all add: used_store_def sample_store_def file_content_def Entries_def Lookup_def host_eval)
  have n: "\<forall>e \<in> set (Entries ?st). normalizeHost (ld_Host e) = ld_Host e"
    unfolding s(3) by (simp add: used_entry_def entry_of_def host_eval)
  have p: "st_path ?st \<noteq> ''''" unfolding s(1) by simp
  obtain s2 where "Load id_yaml (st_path ?st) (file_content ?st) = Inr s2" "\<forall>host. Lookup s2 host = Lookup ?st host"
    using nothing_is_lost_over_a_restart [OF ended_process_facts(1,3) p id_yaml_roundtrip n] ended_process_facts(2) by auto
  then show ?thesis unfolding s(1,2) using s(4) by (intro exI [of _ s2]) simp
qed

theorem shutdown_ends_within_the_timeout_witness:
  "\<exists>e. pc_phase ((main_step id_yaml NoFault True True ^^ 6) (close_listener (shutdown_signal Interrupt used_process)))
     = Exited e False"
proof -
  let ?p1 = "close_listener (shutdown_signal Interrupt used_process)"
  have i: "Interrupt \<in> set shutdownSignals" by (simp add: shutdownSignals_def)
  have "waiting ?p1" "pc_sessions ?p1 = [(1, 0)]"
    by (simp_all add: waiting_def close_listener_def shutdown_signal_def i used_process_simps)
  with shutdown_ends_within_the_timeout [OF used_process_simps(1) i rtranclp.rtrancl_refl rtranclp.rtrancl_refl,
      of id_yaml NoFault True]
  show ?thesis by auto
qed

section \<open>Health checks are runs\<close>

lemma check_names_run:
  "i < length (sy_runtimes s) \<Longrightarrow> pr_upstreams (sy_runtimes s ! i) = Some m \<Longrightarrow>
   (sys_step Y)\<^sup>*\<^sup>* s (put_manager i (Some (snd (check_names probe ns m))) s)"
proof (induction ns arbitrary: s m)
  case Nil
  then have "put_manager i (Some m) s = s" by (metis put_manager_same)
  then show ?case by simp
next
  case (Cons n ns)
  show ?case
  proof (cases "map_of (mg_upstreams m) n")
    case None
    then show ?thesis using Cons by simp
  next
    case (Some u)
    obtain t e where pr: "probe n u = (t, e)" by fastforce
    obtain st m1 where r: "Record t n e m = (st, m1)" by fastforce
    let ?s1 = "put_manager i (Some m1) s"
    have "sys_step Y s ?s1"
      by (rule sys_step.report [OF Cons.prems(1), of t n e st]) (simp add: Record_opt_def Cons.prems(2) r)
    moreover have "(sys_step Y)\<^sup>*\<^sup>* ?s1 (put_manager i (Some (snd (check_names probe ns m1))) ?s1)"
      by (rule Cons.IH) (use Cons.prems(1) in \<open>simp_all add: put_manager_def\<close>)
    moreover have "put_manager i (Some (snd (check_names probe ns m1))) ?s1 = put_manager i (Some (snd (check_names probe (n # ns) m))) s"
      using Cons.prems(1) by (simp add: Some pr r Let_def split: prod.split)
    ultimately show ?thesis by (metis converse_rtranclp_into_rtranclp)
  qed
qed

text \<open>However often it ticks, the monitoring of a runtime changes the shared state by reports of results to
  the manager of this runtime only.\<close>

lemma health_monitoring_is_a_run:
  "i < length (sy_runtimes s) \<Longrightarrow> pr_upstreams (sy_runtimes s ! i) = Some m \<Longrightarrow>
   (sys_step Y)\<^sup>*\<^sup>* s (put_manager i (Some (fst (monitorUpstreamHealth first ticks (m, mon)))) s)"
proof -
  have run: "(sys_step Y)\<^sup>*\<^sup>* s (put_manager i (Some (fst (foldl (\<lambda>(manager, mo) probe. health_check probe manager mo) (m, mon) probes))) s)"
    if "i < length (sy_runtimes s)" "pr_upstreams (sy_runtimes s ! i) = Some m" for probes s m mon
    using that
  proof (induction probes arbitrary: s m mon)
    case Nil
    then have "put_manager i (Some m) s = s" by (metis put_manager_same)
    then show ?case by simp
  next
    case (Cons probe probes)
    let ?m1 = "snd (CheckAll probe m)"
    obtain mon1 where h: "health_check probe m mon = (?m1, mon1)" by (cases "CheckAll probe m") (simp add: health_check_def)
    let ?s1 = "put_manager i (Some ?m1) s"
    have same: "put_manager i (Some m) s = s" using Cons.prems by (metis put_manager_same)
    have "(sys_step Y)\<^sup>*\<^sup>* s ?s1"
      using check_names_run [OF Cons.prems, of Y probe] same by (simp add: CheckAll_def)
    moreover have "(sys_step Y)\<^sup>*\<^sup>* ?s1 (put_manager i (Some (fst (foldl (\<lambda>(manager, mo) probe. health_check probe manager mo) (?m1, mon1) probes))) ?s1)"
      by (rule Cons.IH) (use Cons.prems(1) in \<open>simp_all add: put_manager_def\<close>)
    ultimately show ?case using Cons.prems(1) h by simp
  qed
  show "i < length (sy_runtimes s) \<Longrightarrow> pr_upstreams (sy_runtimes s ! i) = Some m \<Longrightarrow>
     (sys_step Y)\<^sup>*\<^sup>* s (put_manager i (Some (fst (monitorUpstreamHealth first ticks (m, mon)))) s)"
    unfolding monitorUpstreamHealth_def by (rule run)
qed

end
