(* ===== verification/Admin.thy ===== *)
theory Admin
  imports Monitor Learned Upstream_Manager
begin

text \<open>
  The dashboard and its JSON interface (\<^verbatim>\<open>internal/admin/server.go\<close>): every handler as a function
  from a request to a response and the state it leaves. What the providers return when they are
  called is part of the state; a request carries the host of its query and what the JSON decoder
  makes of its body (\<open>None\<close> for an invalid, too large or unknown body).
\<close>

section \<open>Requests, responses and state\<close>

record http_request =
  hr_Method :: string
  hr_Path :: string
  hr_host :: string
  hr_body :: "(string \<times> string \<times> string) option"

record learnedView =
  lv_entry :: LearnedDomain
  lv_ExpiresAt :: time

datatype body =
    ErrorText string | Page | Health | Reloaded
  | StatusBody Snapshot "learnedView list" "State list"
  | UpstreamsBody "State list" | LearnedBody "learnedView list"
  | DeletedBody string | AddedBody bool string "LearnedDomain option"

record response =
  rs_status :: nat
  rs_allow :: string
  rs_body :: body

text \<open>The providers of \<^verbatim>\<open>main\<close> are never \<^verbatim>\<open>nil\<close>; without a provider the value is \<open>None\<close>.\<close>

record 'y API =
  ap_metrics :: Monitor
  ap_routes :: "'y Store"
  ap_upstreams :: "Manager option"
  ap_ttl :: "duration option"
  ap_limit :: "int option"

text \<open>The reload callback, if there is one: an error text, and the state it leaves.\<close>

type_synonym 'y reloader = "('y API \<Rightarrow> string option \<times> 'y API) option"

definition Error :: "nat \<Rightarrow> string \<Rightarrow> response" where
  "Error status text = \<lparr>rs_status = status, rs_allow = '''', rs_body = ErrorText text\<rparr>"

definition not_allowed :: "string \<Rightarrow> response" where
  "not_allowed allow = \<lparr>rs_status = 405, rs_allow = allow, rs_body = ErrorText ''method not allowed''\<rparr>"

definition writeJSON :: "nat \<Rightarrow> body \<Rightarrow> response" where
  "writeJSON status value = \<lparr>rs_status = status, rs_allow = '''', rs_body = value\<rparr>"

section \<open>Handlers\<close>

definition upstreamViews :: "'y API \<Rightarrow> State list" where
  "upstreamViews a = States (ap_upstreams a)"

definition view :: "'y API \<Rightarrow> LearnedDomain \<Rightarrow> learnedView" where
  "view a entry =
     (let ttl = (case ap_ttl a of None \<Rightarrow> 0 | Some t \<Rightarrow> t)
      in \<lparr>lv_entry = entry, lv_ExpiresAt = (if 0 < ttl then ld_LearnedAt entry + ttl else 0)\<rparr>)"

definition views :: "'y API \<Rightarrow> learnedView list" where
  "views a = map (view a) (Entries (ap_routes a))"

definition set_learned_routes :: "'y API \<Rightarrow> 'y API" where
  "set_learned_routes a = a\<lparr>ap_metrics := SetLearnedRoutes (int (length (Entries (ap_routes a)))) (ap_metrics a)\<rparr>"

definition reloadConfig :: "'y reloader \<Rightarrow> http_request \<Rightarrow> 'y API \<Rightarrow> response \<times> 'y API" where
  "reloadConfig reload r a =
     (if hr_Method r \<noteq> ''POST'' then (not_allowed ''POST'', a)
      else case reload of
        None \<Rightarrow> (Error 501 ''configuration reload is unavailable'', a)
      | Some callback \<Rightarrow>
          (case callback a of
             (Some e, a') \<Rightarrow> (Error 400 e, a')
           | (None, a') \<Rightarrow> (writeJSON 200 Reloaded, a')))"

definition dashboard :: "http_request \<Rightarrow> 'y API \<Rightarrow> response \<times> 'y API" where
  "dashboard r a =
     (if hr_Path r \<noteq> ''/'' then (Error 404 ''404 page not found'', a)
      else if hr_Method r \<noteq> ''GET'' then (not_allowed ''GET'', a)
      else (\<lparr>rs_status = 200, rs_allow = '''', rs_body = Page\<rparr>, a))"

definition health :: "http_request \<Rightarrow> 'y API \<Rightarrow> response \<times> 'y API" where
  "health r a = (if hr_Method r \<noteq> ''GET'' then (not_allowed ''GET'', a) else (writeJSON 200 Health, a))"

definition status :: "time \<Rightarrow> http_request \<Rightarrow> 'y API \<Rightarrow> response \<times> 'y API" where
  "status now r a =
     (if hr_Method r \<noteq> ''GET'' then (not_allowed ''GET'', a)
      else let a' = set_learned_routes a
           in (writeJSON 200 (StatusBody (SnapshotOf now (ap_metrics a')) (views a) (upstreamViews a)), a'))"

definition upstreamStates :: "http_request \<Rightarrow> 'y API \<Rightarrow> response \<times> 'y API" where
  "upstreamStates r a =
     (if hr_Method r \<noteq> ''GET'' then (not_allowed ''GET'', a) else (writeJSON 200 (UpstreamsBody (upstreamViews a)), a))"

text \<open>The text of an error of the store, without the error of the system it wraps.\<close>

fun store_error_text :: "store_error \<Rightarrow> string" where
  "store_error_text EmptyHost = ''learned domain host is empty''"
| "store_error_text EmptyUpstream = ''learned domain upstream is empty''"
| "store_error_text EncodeError = ''encode learned domains''"
| "store_error_text CreateTempError = ''create learned domains temporary file''"
| "store_error_text WriteError = ''write learned domains''"
| "store_error_text SyncError = ''sync learned domains''"
| "store_error_text CloseError = ''close learned domains''"
| "store_error_text RenameError = ''replace learned domains''"
| "store_error_text ReadError = ''read learned domains''"
| "store_error_text ParseError = ''parse learned domains''"

definition addLearned :: "'y yaml \<Rightarrow> save_fault \<Rightarrow> time \<Rightarrow> http_request \<Rightarrow> 'y API \<Rightarrow> response \<times> 'y API" where
  "addLearned Y fault now r a =
     (case hr_body r of
        None \<Rightarrow> (Error 400 ''invalid JSON body: '', a)
      | Some (host, upstream, reason) \<Rightarrow>
          (case ap_upstreams a of
             None \<Rightarrow> (Error 503 ''upstream manager is unavailable'', a)
           | Some m \<Rightarrow>
               if State_of upstream (Some m) = None then (Error 400 ''unknown upstream'', a)
               else
                 (let reason' = (if reason = '''' then ''manual-api'' else reason);
                      limit = (case ap_limit a of None \<Rightarrow> 0 | Some l \<Rightarrow> l)
                  in case AddWithLimit Y fault now (ap_routes a) host upstream reason' limit of
                       (Inl e, st) \<Rightarrow> (Error 400 (store_error_text e), a\<lparr>ap_routes := st\<rparr>)
                     | (Inr (added, evicted), st) \<Rightarrow>
                         (writeJSON 200 (AddedBody added host evicted), set_learned_routes (a\<lparr>ap_routes := st\<rparr>)))))"

definition learned :: "'y yaml \<Rightarrow> save_fault \<Rightarrow> time \<Rightarrow> http_request \<Rightarrow> 'y API \<Rightarrow> response \<times> 'y API" where
  "learned Y fault now r a =
     (if hr_Method r = ''GET'' then (writeJSON 200 (LearnedBody (views a)), a)
      else if hr_Method r = ''POST'' then addLearned Y fault now r a
      else if hr_Method r = ''DELETE'' then
        (if hr_host r = '''' then (Error 400 ''host query parameter is required'', a)
         else case Delete Y fault (ap_routes a) (hr_host r) of
           (Inl e, st) \<Rightarrow> (Error 500 (store_error_text e), a\<lparr>ap_routes := st\<rparr>)
         | (Inr False, st) \<Rightarrow> (Error 404 ''learned route not found'', a\<lparr>ap_routes := st\<rparr>)
         | (Inr True, st) \<Rightarrow> (writeJSON 200 (DeletedBody (hr_host r)), set_learned_routes (a\<lparr>ap_routes := st\<rparr>)))
      else (not_allowed ''GET, POST, DELETE'', a))"

text \<open>\<^verbatim>\<open>NewHandler\<close>: the multiplexer; \<^verbatim>\<open>/metrics\<close> is served by a third-party handler and is not
  modelled (\<open>None\<close>).\<close>

definition NewHandler :: "'y yaml \<Rightarrow> save_fault \<Rightarrow> time \<Rightarrow> 'y reloader \<Rightarrow> http_request \<Rightarrow> 'y API \<Rightarrow> (response \<times> 'y API) option" where
  "NewHandler Y fault now reload r a =
     (if hr_Path r = ''/healthz'' then Some (health r a)
      else if hr_Path r = ''/api/status'' then Some (status now r a)
      else if hr_Path r = ''/api/learned'' then Some (learned Y fault now r a)
      else if hr_Path r = ''/api/upstreams'' then Some (upstreamStates r a)
      else if hr_Path r = ''/api/reload'' then Some (reloadConfig reload r a)
      else if hr_Path r = ''/metrics'' then None
      else Some (dashboard r a))"

end
