(* ===== verification/Startup.thy ===== *)
theory Startup
  imports Lifecycle_Props Admin Capture
begin

text \<open>
  The start of the process (\<^verbatim>\<open>main\<close> of \<^verbatim>\<open>cmd/micro-socks.go\<close>) up to the accept loop, the two set-ups
  of the capture (\<^verbatim>\<open>cmd/capture.go\<close>, \<^verbatim>\<open>cmd/capture_nocgo.go\<close>), and the dashboard as \<^verbatim>\<open>main\<close> wires it to
  the running process. What the system answers (devices, listeners) is an argument.
\<close>

section \<open>The capture\<close>

datatype capture_error = NoDevices | OpenFailed | CaptureUnavailable

text \<open>\<open>cs_injecting\<close>: there is a capture thread, and \<^verbatim>\<open>SerSentBuffer\<close> is not \<^verbatim>\<open>nil\<close>.\<close>

record capture_setup =
  cs_ok :: bool
  cs_err :: "capture_error option"
  cs_injecting :: bool

text \<open>\<open>devices\<close> is what \<^verbatim>\<open>pcap.FindAllDevs\<close> gives, \<open>open_live\<close> whether a device can be opened.\<close>

definition setupCapture :: "string list option \<Rightarrow> (string \<Rightarrow> bool) \<Rightarrow> string \<Rightarrow> capture_setup" where
  "setupCapture devices open_live ifname =
     (case devices of
        None \<Rightarrow> \<lparr>cs_ok = False, cs_err = Some NoDevices, cs_injecting = False\<rparr>
      | Some ds \<Rightarrow>
          (let ok = (ifname \<in> set ds)
           in if \<not> ok \<and> ifname \<noteq> '''' then \<lparr>cs_ok = False, cs_err = None, cs_injecting = False\<rparr>
              else if \<not> open_live ifname then \<lparr>cs_ok = ok, cs_err = Some OpenFailed, cs_injecting = False\<rparr>
              else \<lparr>cs_ok = ok, cs_err = None, cs_injecting = True\<rparr>))"

definition setupCapture_nocgo :: "string \<Rightarrow> capture_setup" where
  "setupCapture_nocgo ifname = \<lparr>cs_ok = False, cs_err = Some CaptureUnavailable, cs_injecting = False\<rparr>"

section \<open>The start\<close>

datatype fatal = BootFatal boot_error | AdminFatal | ListenFatal

record 'y serving =
  sv_process :: "'y process"
  sv_admin :: "string option"
  sv_capture :: "capture_setup option"
  sv_listen :: string

text \<open>\<open>listen taken address\<close>: whether \<^verbatim>\<open>net.Listen\<close> succeeds while this process listens on \<open>taken\<close>. The
  result \<open>None\<close> of the second is a failed \<^verbatim>\<open>admin.Start\<close>.\<close>

definition admin_address :: "Admin \<Rightarrow> string" where
  "admin_address a = JoinHostPort (ad_Address a) (Itoa (nat (ad_Port a)))"

definition start_admin :: "(string list \<Rightarrow> string \<Rightarrow> bool) \<Rightarrow> Admin \<Rightarrow> string option option" where
  "start_admin listen a =
     (if \<not> AdminEnabled a then Some None
      else if listen [] (admin_address a) then Some (Some (admin_address a)) else None)"

definition start_capture :: "(string \<Rightarrow> capture_setup) \<Rightarrow> Config \<Rightarrow> capture_setup option" where
  "start_capture capture cfg =
     (if fs_Interface (cf_FakeSni cfg) \<noteq> '''' then Some (capture (fs_Interface (cf_FakeSni cfg))) else None)"

definition format_int :: "int \<Rightarrow> string" where
  "format_int n = (if n < 0 then CHR ''-'' # Itoa (nat (- n)) else Itoa (nat n))"

definition proxy_address :: "Config \<Rightarrow> string" where
  "proxy_address cfg = px_Address (cf_Proxy cfg) @ '':'' @ format_int (px_Port (cf_Proxy cfg))"

text \<open>\<^verbatim>\<open>main\<close> ends with a fatal error (\<open>Inl\<close>) or reaches the accept loop; \<open>None\<close> is a loop of \<^verbatim>\<open>PruneToLimit\<close>
  that does not end.\<close>

definition main_start ::
  "'y yaml \<Rightarrow> (config_error + Config) \<Rightarrow> 'y read_result \<Rightarrow> save_fault \<Rightarrow> save_fault \<Rightarrow> time \<Rightarrow>
   (string list \<Rightarrow> string \<Rightarrow> bool) \<Rightarrow> (string \<Rightarrow> capture_setup) \<Rightarrow> (fatal + 'y serving) option" where
  "main_start Y loaded content f1 f2 now listen capture =
     (case boot Y loaded content f1 f2 now of
        None \<Rightarrow> None
      | Some (Inl e) \<Rightarrow> Some (Inl (BootFatal e))
      | Some (Inr s) \<Rightarrow>
          (case loaded of
             Inl e \<Rightarrow> Some (Inl (BootFatal (ConfigFatal e)))
           | Inr cfg \<Rightarrow>
               (case start_admin listen (cf_Admin cfg) of
                  None \<Rightarrow> Some (Inl AdminFatal)
                | Some adm \<Rightarrow>
                    if listen (case adm of None \<Rightarrow> [] | Some a \<Rightarrow> [a]) (proxy_address cfg)
                    then Some (Inr \<lparr>sv_process = start_process now s, sv_admin = adm,
                           sv_capture = start_capture capture cfg, sv_listen = proxy_address cfg\<rparr>)
                    else Some (Inl ListenFatal))))"

section \<open>The dashboard of the process\<close>

text \<open>The providers that \<^verbatim>\<open>main\<close> gives to the dashboard read the current runtime at each request.\<close>

definition api_of :: "'y process \<Rightarrow> 'y API option" where
  "api_of p =
     (case (sy_learned (pc_system p), currentRuntime (pc_system p)) of
        (Some st, Some cur) \<Rightarrow>
          Some \<lparr>ap_metrics = pc_monitor p, ap_routes = st, ap_upstreams = pr_upstreams cur,
                ap_ttl = Some (LearnedTTL (cf_Detection (pr_config cur))),
                ap_limit = Some (LearnedLimit (cf_Detection (pr_config cur)))\<rparr>
      | _ \<Rightarrow> None)"

definition put_api :: "'y API \<Rightarrow> 'y process \<Rightarrow> 'y process" where
  "put_api a p = p\<lparr>pc_system := (pc_system p)\<lparr>sy_learned := Some (ap_routes a)\<rparr>, pc_monitor := ap_metrics a\<rparr>"

text \<open>One request on the process. The callback for a reload is \<^verbatim>\<open>reloadRuntime\<close> on the whole state;
  \<open>reload_text\<close> is the text of its error.\<close>

definition dashboard_request ::
  "'y yaml \<Rightarrow> save_fault \<Rightarrow> time \<Rightarrow> (config_error + Config) \<Rightarrow> (reload_error \<Rightarrow> string) \<Rightarrow> http_request \<Rightarrow> 'y process \<Rightarrow>
   (response option \<times> 'y process) option" where
  "dashboard_request Y fault now loaded reload_text r p =
     (case api_of p of
        None \<Rightarrow> Some (None, p)
      | Some a \<Rightarrow>
          if hr_Path r = ''/api/reload'' \<and> hr_Method r = ''POST''
          then map_option (\<lambda>(err, s).
                 (Some (fst (reloadConfig (Some (\<lambda>a. (map_option reload_text err, a))) r a)),
                  p\<lparr>pc_system := s, pc_monitor := reload_metrics Y fault loaded (pc_system p) (pc_monitor p)\<rparr>))
                 (reloadRuntime Y fault loaded (pc_system p))
          else Some (case NewHandler Y fault now (Some (\<lambda>a. (None, a))) r a of
                 None \<Rightarrow> (None, p)
               | Some (resp, a') \<Rightarrow> (Some resp, put_api a' p)))"

end
