(* ===== verification/Admin_Props.thy ===== *)
theory Admin_Props
  imports Admin Learned_Props Config_Props
begin


definition learned_gauge :: "'y API \<Rightarrow> int" where
  "learned_gauge a = sn_LearnedRoutes (mn_snapshot (ap_metrics a))"

lemma set_learned_routes_simps [simp]:
  "ap_routes (set_learned_routes a) = ap_routes a"
  "learned_gauge (set_learned_routes a) = int (length (Entries (ap_routes a)))"
  by (simp_all add: set_learned_routes_def learned_gauge_def SetLearnedRoutes_def)










end
