(* ===== verification/Startup_Props.thy ===== *)
theory Startup_Props
  imports Startup Admin_Props
begin

text \<open>
  The start either ends in a fatal error or leaves a process in good order, and the requests of the
  dashboard are runs of this process, so its invariants hold for them too.
\<close>

section \<open>The start\<close>

lemma boot_Some: "boot Y (LoadConfig decoded dir files) content f1 f2 now \<noteq> None"
proof (cases "LoadConfig decoded dir files")
  case (Inr cfg)
  have pos: "0 < LearnedLimit (cf_Detection cfg)" by (rule Validate_limit_pos [OF LoadConfig_valid [OF Inr]])
  have "startup_store Y path content f1 f2 ttl (LearnedLimit (cf_Detection cfg)) now \<noteq> None" for path ttl
  proof (cases "Load Y path content")
    case (Inr s0)
    obtain x s1 where e: "PruneExpired Y f1 s0 ttl now = (x, s1)" by fastforce
    have ok: "store_ok s1" using PruneExpired_ok [OF Load_ok [OF Inr] e] by blast
    obtain k r where "PruneToLimit Y f2 s1 (LearnedLimit (cf_Detection cfg)) = Some (finish_prune Y f2 s1 k r)"
      by (rule PruneToLimit_cases [OF ok pos, of Y f2])
    then show ?thesis by (cases x) (simp_all add: startup_store_def Inr e)
  qed (simp add: startup_store_def)
  then show ?thesis by (auto simp: boot_def Inr split: option.split sum.split)
qed (simp add: boot_def)

text \<open>What the two prunings of the start leave: nothing that has expired.\<close>

lemma startup_store_fresh:
  assumes "startup_store Y path content f1 f2 ttl limit now = Some (Inr s)" "0 < limit" "0 < ttl"
  shows "\<forall>e \<in> set (Entries s). \<not> expired ttl now e"
proof -
  obtain s0 n1 s1 n2 where l: "Load Y path content = Inr s0" and e: "PruneExpired Y f1 s0 ttl now = (Inr n1, s1)"
    and p: "PruneToLimit Y f2 s1 limit = Some (Inr n2, s)"
    using assms(1) by (auto simp: startup_store_def split: sum.splits prod.splits) (metis sum.exhaust)+
  have ok: "store_ok s1" using PruneExpired_ok [OF Load_ok [OF l] e] by blast
  have "st_domains s1 = filter (\<lambda>(host, entry). \<not> expired ttl now entry) (st_domains s0)"
    using e assms(3) finish_prune_done(1) by (fastforce simp: PruneExpired_def)
  then have one: "\<not> expired ttl now x" if "map_of (st_domains s1) h = Some x" for h x
    using map_of_SomeD [OF that] by auto
  obtain kept removed where f: "finish_prune Y f2 s1 kept removed = (Inr n2, s)"
    and sp: "splits_table (st_domains s1) kept removed"
    by (rule PruneToLimit_cases [OF ok assms(2), of Y f2]) (use p in auto)
  have k: "st_domains s = kept" by (rule finish_prune_done(1) [OF f])
  have "table_ok kept" using sp by (simp add: splits_table_def)
  then have "\<not> expired ttl now x" if "(h, x) \<in> set kept" for h x
    using one splits_table_mem [OF sp] that by (meson map_of_is_SomeI table_ok_wf wf_map_def)
  then show ?thesis by (auto simp: Entries_set k)
qed


lemma install_metrics_snapshot [simp]: "mn_snapshot (install_metrics cfg m) = mn_snapshot m"
proof -
  have "mn_snapshot (foldl (\<lambda>m state. SetUpstreamState (us_Name state) (us_Health state) (us_Circuit state) m) m xs) = mn_snapshot m"
    for xs :: "State list"
    by (induction xs arbitrary: m) (simp_all add: SetUpstreamState_def)
  then show ?thesis by (simp add: install_metrics_def)
qed

text \<open>C30. The start of the process never hangs: it ends with a fatal error or reaches the accept loop. Then
  the configuration was accepted and is the one in force, with a fresh manager; the learned
  table is within its limit and holds nothing that has expired, and both the dashboard and the
  collector of the metrics show its size; the proxy listens on the configured address; and fake packets can be
  sent only if the capture was configured.\<close>

theorem start_serves_or_exits:
  "case main_start Y (LoadConfig decoded dir files) content f1 f2 now listen capture of
     None \<Rightarrow> False
   | Some (Inl _) \<Rightarrow> True
   | Some (Inr sv) \<Rightarrow>
       process_reachable Y (sv_process sv) \<and> running (sv_process sv) \<and>
       (\<exists>cfg st. LoadConfig decoded dir files = Inr cfg
          \<and> currentRuntime (pc_system (sv_process sv)) =
              Some \<lparr>pr_config = cfg, pr_upstreams = Some (New (cf_Upstreams cfg) (cf_UpstreamHealth cfg))\<rparr>
          \<and> sy_learned (pc_system (sv_process sv)) = Some st
          \<and> int (length (Entries st)) \<le> LearnedLimit (cf_Detection cfg)
          \<and> list_all (\<lambda>e. \<not> (0 < LearnedTTL (cf_Detection cfg) \<and> expired (LearnedTTL (cf_Detection cfg)) now e)) (Entries st)
          \<and> sn_LearnedRoutes (mn_snapshot (pc_monitor (sv_process sv))) = int (length (Entries st))
          \<and> sv_listen sv = proxy_address cfg \<and> listen (case sv_admin sv of None \<Rightarrow> [] | Some a \<Rightarrow> [a]) (sv_listen sv)
          \<and> (sv_capture sv = None \<longleftrightarrow> fs_Interface (cf_FakeSni cfg) = ''''))"
proof (cases "boot Y (LoadConfig decoded dir files) content f1 f2 now")
  case (Some b)
  show ?thesis
  proof (cases b)
    case (Inr s)
    then have boot: "boot Y (LoadConfig decoded dir files) content f1 f2 now = Some (Inr s)" using Some by simp
    then obtain cfg st where cfg: "LoadConfig decoded dir files = Inr cfg"
      and st: "startup_store Y (dt_LearnedDomainsFile (cf_Detection cfg)) content f1 f2
          (LearnedTTL (cf_Detection cfg)) (LearnedLimit (cf_Detection cfg)) now = Some (Inr st)"
      and s: "s = installRuntime cfg \<lparr>sy_cfg = Some cfg, sy_runtimes = [], sy_health = None, sy_learned = Some st,
        sy_probes = newProbeCoordinator\<rparr>"
      by (auto simp: boot_def split: sum.splits option.splits)
    have pos: "0 < LearnedLimit (cf_Detection cfg)" by (rule Validate_limit_pos [OF LoadConfig_valid [OF cfg]])
    have fresh: "list_all (\<lambda>e. \<not> (0 < LearnedTTL (cf_Detection cfg) \<and> expired (LearnedTTL (cf_Detection cfg)) now e)) (Entries st)"
      using startup_store_fresh [OF st pos] by (auto simp: list_all_iff)
    have small: "int (length (Entries st)) \<le> LearnedLimit (cf_Detection cfg)"
      using startup_store_bounded [OF pos st] by (simp add: store_bounded_def)
    have cur: "currentRuntime s = Some \<lparr>pr_config = cfg, pr_upstreams = Some (New (cf_Upstreams cfg) (cf_UpstreamHealth cfg))\<rparr>"
      "sy_learned s = Some st"
      by (simp_all add: s installRuntime_def currentRuntime_def Let_def)
    have reach: "process_reachable Y (start_process now s)" by (rule process_reachable.started [OF boot])
    have gauge: "sn_LearnedRoutes (mn_snapshot (pc_monitor (start_process now s))) = int (length (Entries st))"
      by (simp add: start_process_def cur SetLearnedRoutes_def)
    show ?thesis
      using reach fresh small cur gauge
      by (auto simp: main_start_def boot [unfolded cfg] cfg start_process_def running_def start_capture_def split: option.split)
  qed (simp add: main_start_def Some)
qed (use boot_Some in blast)

section \<open>Requests of the dashboard\<close>

text \<open>What a handler can do to the learned routes.\<close>

lemma handler_routes:
  assumes "NewHandler Y fault now reload r a = Some (resp, a')" "\<not> (hr_Path r = ''/api/reload'' \<and> hr_Method r = ''POST'')"
  obtains (same) "ap_routes a' = ap_routes a"
  | (deleted) res where "Delete Y fault (ap_routes a) (hr_host r) = (res, ap_routes a')"
  | (added) host up reason res where
      "AddWithLimit Y fault now (ap_routes a) host up reason (case ap_limit a of None \<Rightarrow> 0 | Some l \<Rightarrow> l) = (res, ap_routes a')"
proof (cases "hr_Path r = ''/api/learned'' \<and> hr_Method r \<in> {''POST'', ''DELETE''}")
  case True
  then have l: "learned Y fault now r a = (resp, a')" using assms(1) by (auto simp: NewHandler_def)
  show thesis
  proof (cases "hr_Method r = ''DELETE''")
    case True
    then show thesis using l same deleted
      by (auto simp: learned_def split: if_splits prod.splits sum.splits bool.splits)
  next
    case False
    then have "addLearned Y fault now r a = (resp, a')" using True l by (auto simp: learned_def)
    then show thesis using same added
      by (auto simp: addLearned_def Let_def split: option.splits if_splits prod.splits sum.splits)
  qed
next
  case False
  then have "ap_routes a' = ap_routes a"
    using assms
    by (auto simp: NewHandler_def health_def status_def learned_def upstreamStates_def dashboard_def reloadConfig_def Let_def
        split: if_splits)
  then show thesis by (rule same)
qed

lemma api_of_parts:
  assumes "api_of p = Some a" "sy_runtimes (pc_system p) \<noteq> []"
  shows "sy_learned (pc_system p) = Some (ap_routes a)"
    "ap_limit a = Some (LearnedLimit (cf_Detection (pr_config (sy_runtimes (pc_system p) ! (length (sy_runtimes (pc_system p)) - 1)))))"
  using assms by (auto simp: api_of_def currentRuntime_def last_conv_nth split: option.splits)

text \<open>What a handler does to the shared state is one step that marks nothing, or nothing.\<close>

lemma handler_step:
  assumes "NewHandler Y fault now reload r a = Some (resp, a')" "\<not> (hr_Path r = ''/api/reload'' \<and> hr_Method r = ''POST'')"
    and "api_of p = Some a" and ok: "sys_ok (pc_system p)"
  shows "(pc_system p)\<lparr>sy_learned := Some (ap_routes a')\<rparr> = pc_system p
    \<or> sys_step Y (pc_system p) ((pc_system p)\<lparr>sy_learned := Some (ap_routes a')\<rparr>)
      \<and> quiet Y (pc_system p) ((pc_system p)\<lparr>sy_learned := Some (ap_routes a')\<rparr>)"
proof -
  have rt: "sy_runtimes (pc_system p) \<noteq> []" using ok by (simp add: sys_ok_def)
  note table = api_of_parts(1) [OF assms(3) rt] and limit = api_of_parts(2) [OF assms(3) rt]
  show ?thesis
    using assms(1,2)
  proof (cases rule: handler_routes)
    case same
    then show ?thesis using table by simp
  next
    case (deleted res)
    from sys_step.forget [OF table this] quiet_steps(2) [OF ok table this] show ?thesis by blast
  next
    case (added host up reason res)
    with sys_step.learn [of "length (sy_runtimes (pc_system p)) - 1" "pc_system p", OF _ table] rt limit
      quiet_steps(1) [OF ok table]
    show ?thesis by simp
  qed
qed

lemma two_steps:
  assumes "running p" "sys_step Y (pc_system p) s" "quiet Y (pc_system p) s"
  shows "(process_step Y)\<^sup>*\<^sup>* p (p\<lparr>pc_system := s, pc_monitor := m\<rparr>)"
proof -
  have "process_step Y p (p\<lparr>pc_system := s\<rparr>)"
    using process_step.work [OF assms(1,2)] quiet_marks [OF assms(3)] by blast
  moreover have "process_step Y (p\<lparr>pc_system := s\<rparr>) ((p\<lparr>pc_system := s\<rparr>)\<lparr>pc_monitor := m\<rparr>)"
    by (rule process_step.count) (use assms(1) in \<open>simp add: running_def\<close>)
  ultimately show ?thesis by (metis converse_rtranclp_into_rtranclp r_into_rtranclp)
qed

text \<open>C28. A request of the dashboard is a run of the process: whatever it answers, the state it leaves is
  reached by steps of the process, so everything that holds in all reachable states (the limit
  of the table, the agreement with the file, the accepted configurations) holds after it. An
  insertion uses the limit of the current runtime.\<close>

theorem dashboard_request_is_a_run:
  assumes "process_reachable Y p" "running p"
    and "dashboard_request Y fault now (LoadConfig decoded dir files) reload_text r p = Some (resp, p')"
  shows "(process_step Y)\<^sup>*\<^sup>* p p' \<and> process_reachable Y p'"
proof -
  have run: "(process_step Y)\<^sup>*\<^sup>* p p'"
  proof (cases "api_of p")
    case (Some a)
    have ok: "sys_ok (pc_system p)" using process_reachable_ok [OF assms(1)] by (simp add: process_ok_def)
    show ?thesis
    proof (cases "hr_Path r = ''/api/reload'' \<and> hr_Method r = ''POST''")
      case True
      then obtain err s where s: "reloadRuntime Y fault (LoadConfig decoded dir files) (pc_system p) = Some (err, s)"
        "p' = p\<lparr>pc_system := s, pc_monitor := reload_metrics Y fault (LoadConfig decoded dir files) (pc_system p) (pc_monitor p)\<rparr>"
        using assms(3) by (auto simp: dashboard_request_def Some)
      from two_steps [OF assms(2) sys_step.reload [OF s(1)] reload_quiet [OF s(1) ok], of "reload_metrics Y fault (LoadConfig decoded dir files) (pc_system p) (pc_monitor p)"]
      show ?thesis by (simp add: s(2))
    next
      case False
      show ?thesis
      proof (cases "NewHandler Y fault now (Some (\<lambda>a. (None, a))) r a")
        case None
        then show ?thesis using assms(3) Some False by (auto simp: dashboard_request_def)
      next
        case (Some h)
        then obtain a' where h: "NewHandler Y fault now (Some (\<lambda>a. (None, a))) r a = Some (fst h, a')" and p': "p' = put_api a' p"
          using assms(3) \<open>api_of p = Some a\<close> False by (cases h) (auto simp: dashboard_request_def split: if_splits)
        let ?s = "(pc_system p)\<lparr>sy_learned := Some (ap_routes a')\<rparr>"
        have "?s = pc_system p \<or> sys_step Y (pc_system p) ?s \<and> quiet Y (pc_system p) ?s"
          by (rule handler_step [OF h False \<open>api_of p = Some a\<close> ok])
        then show ?thesis
        proof
          assume "?s = pc_system p"
          then have "p' = p\<lparr>pc_monitor := ap_metrics a'\<rparr>" by (simp add: p' put_api_def)
          then show ?thesis using process_step.count [OF assms(2)] by blast
        next
          assume s: "sys_step Y (pc_system p) ?s \<and> quiet Y (pc_system p) ?s"
          from two_steps [OF assms(2) s [THEN conjunct1] s [THEN conjunct2], of "ap_metrics a'"] show ?thesis by (simp add: p' put_api_def)
        qed
      qed
    qed
  qed (use assms(3) in \<open>simp add: dashboard_request_def\<close>)
  then have "process_reachable Y p'"
    by (induction rule: rtranclp_induct) (use assms(1) process_reachable.step in blast)+
  with run show ?thesis by blast
qed

definition sample_delete :: http_request where
  "sample_delete = \<lparr>hr_Method = ''DELETE'', hr_Path = ''/api/learned'', hr_host = ''A.'', hr_body = None\<rparr>"

theorem dashboard_request_is_a_run_witness:
  "\<exists>resp p'. dashboard_request id_yaml NoFault 9 (LoadConfig None ''/etc'' sample_files) (\<lambda>_. ''e'') sample_delete used_process
       = Some (Some resp, p')
     \<and> rs_status resp = 200 \<and> process_reachable id_yaml p' \<and> map_option Entries (sy_learned (pc_system p')) = Some []"
proof -
  have d: "Delete id_yaml NoFault used_store ''A.'' =
      (Inr True, used_store\<lparr>st_domains := [], st_dirty := False, st_file := Some \<lparr>lf_Version = 1, lf_Domains = []\<rparr>\<rparr>)"
    by (simp add: Delete_def used_store_def sample_store_def saveLocked_def id_yaml_def Entries_def host_eval Let_def)
  have r: "running used_process" by (simp add: running_def used_process_simps)
  obtain cur where cur: "currentRuntime (pc_system used_process) = Some cur"
    by (simp add: used_process_def sample_system_def installRuntime_def currentRuntime_def Let_def)
  have l: "sy_learned (pc_system used_process) = Some used_store" by (simp add: used_process_def)
  obtain resp p' where p': "dashboard_request id_yaml NoFault 9 (LoadConfig None ''/etc'' sample_files) (\<lambda>_. ''e'') sample_delete used_process
       = Some (Some resp, p')" "rs_status resp = 200" "map_option Entries (sy_learned (pc_system p')) = Some []"
    by (simp add: dashboard_request_def api_of_def cur l sample_delete_def NewHandler_def learned_def d writeJSON_def put_api_def Entries_def)
  from dashboard_request_is_a_run [OF used_process_reachable r p'(1)] p' show ?thesis by blast
qed

lemma start_serves_or_exits_witness:
  "\<exists>sv. main_start id_yaml (LoadConfig (Some (limited_document 2)) ''/etc'' sample_files) ReadNotExist NoFault NoFault 0 (\<lambda>_ _. True)
       setupCapture_nocgo = Some (Inr sv) \<and> process_reachable id_yaml (sv_process sv)"
proof -
  let ?m = "main_start id_yaml (LoadConfig (Some (limited_document 2)) ''/etc'' sample_files) ReadNotExist NoFault NoFault 0 (\<lambda>_ _. True)
       setupCapture_nocgo"
  have "boot id_yaml (LoadConfig (Some (limited_document 2)) ''/etc'' sample_files) ReadNotExist NoFault NoFault 0 = Some (Inr (sample_system 2))"
    by (simp add: boot_def limited_loads sample_startup sample_system_def)
  then obtain sv where "?m = Some (Inr sv)"
    by (cases "AdminEnabled (cf_Admin (limited_config 2))") (auto simp: main_start_def limited_loads start_admin_def)
  with start_serves_or_exits [where Y = id_yaml and decoded = "Some (limited_document 2)" and dir = "''/etc''" and files = sample_files
      and content = ReadNotExist and ?f1.0 = NoFault and ?f2.0 = NoFault and now = 0 and listen = "\<lambda>_ _. True" and capture = setupCapture_nocgo] show ?thesis by auto
qed

end
