(* ===== verification/Legacy_Handshake.thy ===== *)
theory Legacy_Handshake
  imports Tls_Props
begin

text \<open>
  The first parser of the server name, \<^verbatim>\<open>DecodeSSLHandshake\<close> of \<^verbatim>\<open>internal/libtls/runtime.go\<close> with
  \<^verbatim>\<open>getNextExtension\<close> of \<^verbatim>\<open>tls.go\<close>. It is kept by the program for \<^verbatim>\<open>DoInject\<close> only. Its results are
  whether the data was parsed, the name, and the position of the name; an index out of range is
  \<open>Panic\<close>.
\<close>

section \<open>Definitions\<close>

text \<open>The type of the extension is \<open>- 1\<close> when no header is left; the second number is where the next
  extension starts.\<close>

definition getNextExtension :: "bytes \<Rightarrow> nat \<Rightarrow> bytes \<times> int \<times> nat \<times> bool" where
  "getNextExtension d off =
     (if length d < off + 4 then ([], - 1, length d, True)
      else let t = byte_pair d off; l = byte_pair d (off + 2)
        in if length d < off + l + 4 then (drop (off + 4) d, int t, 0, True)
           else (take l (drop (off + 4) d), int t, off + 4 + l, length d \<le> off + 4 + l))"

text \<open>The loop over the extensions from \<open>off\<close> on. Each round gives \<^verbatim>\<open>getNextExtension\<close> the data from
  \<open>off + ox\<close> on and the offset \<open>ox\<close> once more.\<close>

function next_names :: "bytes \<Rightarrow> nat \<Rightarrow> nat \<Rightarrow> ('e, bool \<times> string \<times> nat) outcome" where
  "next_names d off ox =
     (if length d < off + ox then Panic
      else case getNextExtension (drop (off + ox) d) ox of
        (ext, t, ox2, isLast) \<Rightarrow>
          (case (if t = 0 then decodeSNI ext else Err TOO_SHORT) of
             Ok (name, _) \<Rightarrow> Ok (True, name, off + ox + 9)
           | _ \<Rightarrow> if isLast then Ok (True, '''', off) else next_names d off ox2))"
  by pat_completeness auto

termination
  by (relation "measure (\<lambda>(d, off, ox). length d - ox)")
    (auto simp: getNextExtension_def Let_def split: if_splits)

declare next_names.simps [simp del]

text \<open>\<open>not_ssl\<close> is the condition of the check of the magic bytes as it is written: the negation
  applies to the first comparison only.\<close>

definition not_ssl :: "bytes \<Rightarrow> bool" where
  "not_ssl d \<longleftrightarrow> d ! 0 \<noteq> 0x16 \<and> d ! 1 = 0x03 \<and> d ! 2 = 0x01"

definition index_pair :: "bytes \<Rightarrow> nat \<Rightarrow> ('e, nat) outcome" where
  "index_pair d i = obind (index d i) (\<lambda>a. obind (index d (i + 1)) (\<lambda>b. Ok (unat a * 256 + unat b)))"

definition nothing :: "('e, bool \<times> string \<times> nat) outcome" where
  "nothing = Ok (False, '''', 0)"

text \<open>The length of the extensions is read from one byte, which is used as both its halves.\<close>

definition legacy_extensions :: "bytes \<Rightarrow> nat \<Rightarrow> ('e, bool \<times> string \<times> nat) outcome" where
  "legacy_extensions d off =
     (if length d < off + 2 then nothing
      else obind (index d off) (\<lambda>b.
        (let extLen = unat b * 256 + unat b
         in if length d < off + 2 + extLen then nothing else next_names d (off + 2) 0)))"

definition legacy_lists :: "bytes \<Rightarrow> nat \<Rightarrow> ('e, bool \<times> string \<times> nat) outcome" where
  "legacy_lists d off =
     (if length d < off + 5 then nothing
      else obind (index_pair d off) (\<lambda>csLength.
        (let off1 = off + 2 + csLength
         in if length d < off1 then nothing
            else obind (index d off1) (\<lambda>cmLength. legacy_extensions d (off1 + 1 + unat cmLength)))))"

definition DecodeSSLHandshake :: "bytes \<Rightarrow> ('e, bool \<times> string \<times> nat) outcome" where
  "DecodeSSLHandshake d =
     (if length d < 4 then nothing
      else if not_ssl d then nothing
      else obind (index_pair d 3) (\<lambda>pktLen.
        obind (index d 5) (\<lambda>msgType.
        if msgType \<noteq> 1 then nothing
        else obind (index_pair d 6) (\<lambda>_. obind (index d 8) (\<lambda>_. obind (index_pair d 9) (\<lambda>tlsVersion.
          if length d < 49 then nothing
          else obind (index d 43) (\<lambda>sessionIdLength. legacy_lists d (44 + unat sessionIdLength))))))))"

section \<open>Panics\<close>

lemma getNextExtension_bound:
  "getNextExtension d off = (ext, t, off2, False) \<Longrightarrow> off < off2 \<and> off2 < length d"
  by (auto simp: getNextExtension_def Let_def split: if_splits)

lemma decodeSNI_safe [simp]: "decodeSNI d \<noteq> Panic"
  by (simp add: decodeSNI_def)

lemma next_names_safe:
  "off + ox \<le> length d \<Longrightarrow> \<exists>name pos. (next_names d off ox :: ('e, bool \<times> string \<times> nat) outcome) = Ok (True, name, pos)"
proof (induction d off ox rule: next_names.induct)
  case (1 d off ox)
  obtain ext t ox2 l where g: "getNextExtension (drop (off + ox) d) ox = (ext, t, ox2, l)" by (metis prod.collapse)
  define s where "s = (if t = 0 then decodeSNI ext else Err TOO_SHORT)"
  let ?next = "next_names d off ox2 :: ('e, bool \<times> string \<times> nat) outcome"
  have r: "(next_names d off ox :: ('e, bool \<times> string \<times> nat) outcome) = (case s of Ok (name, _) \<Rightarrow> Ok (True, name, off + ox + 9)
      | _ \<Rightarrow> if l then Ok (True, '''', off) else ?next)"
    using "1.prems" g by (subst next_names.simps) (simp add: s_def)
  have rec: "\<exists>name pos. ?next = Ok (True, name, pos)" if "\<not> l" "\<forall>x. s \<noteq> Ok x"
  proof (cases s)
    case (Err e)
    have "off + ox2 \<le> length d"
      using getNextExtension_bound [of "drop (off + ox) d" ox ext t ox2] g that(1) by simp linarith
    then show ?thesis
      using "1.IH"(1) [OF _ g [symmetric] refl refl, of e] "1.prems" that(1) Err by (simp add: s_def)
  qed (use that in \<open>auto simp: s_def split: if_splits\<close>)
  show ?case
  proof (cases s)
    case (Ok x)
    then show ?thesis by (cases x) (simp add: r)
  next
    case (Err e)
    then show ?thesis using rec by (cases l) (simp_all add: r)
  next
    case Panic
    then show ?thesis by (simp add: s_def split: if_splits)
  qed
qed


lemma legacy_extensions_safe: "\<exists>r. legacy_extensions d off = Ok r"
proof -
  have "\<exists>r. next_names d (off + 2) 0 = Ok r" if "off + 2 + n \<le> length d" for n
    using next_names_safe [of "off + 2" 0 d] that by auto
  then show ?thesis
    by (auto simp: legacy_extensions_def nothing_def index_def Let_def not_less)
qed

text \<open>The only place behind the first eleven bytes that can panic: the data ends with the cipher suites.\<close>

lemma legacy_lists_Panic:
  "legacy_lists d off = Panic \<longleftrightarrow> off + 5 \<le> length d \<and> length d = off + 2 + byte_pair d off"
proof (cases "off + 5 \<le> length d")
  case True
  then have p: "index_pair d off = Ok (byte_pair d off)" by (simp add: index_pair_def index_def byte_pair_def)
  have e: "legacy_extensions d o' \<noteq> Panic" for o' using legacy_extensions_safe by (metis outcome.distinct(3))
  show ?thesis
    using True e by (auto simp: legacy_lists_def p nothing_def index_def Let_def not_less split: if_splits)
qed (simp add: legacy_lists_def nothing_def)

lemma index_Panic [simp]: "index d i = Panic \<longleftrightarrow> length d \<le> i"
  by (simp add: index_def not_less)

text \<open>The parser always ends, and the inputs that panic it are exactly these: data that stops within
  the first eleven bytes of what passes for a hello, and a hello that ends right behind its
  cipher suites. Every loop over the extensions stays within the data.\<close>

theorem legacy_parser_panics_exactly:
  "DecodeSSLHandshake d = Panic \<longleftrightarrow>
     4 \<le> length d \<and> \<not> not_ssl d \<and>
     (length d < 6
      \<or> d ! 5 = 1 \<and> length d < 11
      \<or> d ! 5 = 1 \<and> 49 \<le> length d \<and> (let off = 44 + unat (d ! 43)
          in off + 5 \<le> length d \<and> length d = off + 2 + byte_pair d off))"
proof (cases "4 \<le> length d \<and> \<not> not_ssl d")
  case True
  then have s: "DecodeSSLHandshake d = obind (index_pair d 3) (\<lambda>_. obind (index d 5) (\<lambda>msgType.
        if msgType \<noteq> 1 then nothing
        else obind (index_pair d 6) (\<lambda>_. obind (index d 8) (\<lambda>_. obind (index_pair d 9) (\<lambda>_.
          if length d < 49 then nothing
          else obind (index d 43) (\<lambda>n. legacy_lists d (44 + unat n)))))))"
    by (simp add: DecodeSSLHandshake_def)
  consider "length d < 6" | "6 \<le> length d" "d ! 5 \<noteq> 1" | "6 \<le> length d" "d ! 5 = 1" "length d < 11"
    | "d ! 5 = 1" "11 \<le> length d" "length d < 49" | "d ! 5 = 1" "49 \<le> length d" by linarith
  then show ?thesis
  proof cases
    case 3
    then show ?thesis using True by (simp add: s index_pair_def obind_Panic_iff) (simp add: index_def nothing_def)
  qed (use True in \<open>simp_all add: s index_pair_def index_def nothing_def legacy_lists_Panic Let_def add.assoc\<close>)
qed (auto simp: DecodeSSLHandshake_def nothing_def)


section \<open>What the parser reads of an encoded hello\<close>

lemma PutUint16_nth:
  "unat (PutUint16 v ! 0) = unat v div 256" "unat (PutUint16 v ! Suc 0) = unat v mod 256"
proof -
  have "unat v < 65536" using unsigned_less [of v] by simp
  then have "unat v div 256 < 256" by simp
  then show "unat (PutUint16 v ! 0) = unat v div 256" "unat (PutUint16 v ! Suc 0) = unat v mod 256"
    by (simp_all add: PutUint16_def unsigned_ucast_eq unsigned_drop_bit_eq drop_bit_eq_div take_bit_eq_mod unat_div)
qed

lemma byte_pair_at: "off = length p \<Longrightarrow> byte_pair (p @ PutUint16 v @ rest) off = unat v"
  using PutUint16_nth [of v] by (simp add: byte_pair_def nth_append)

lemma index_pair_at: "off = length p \<Longrightarrow> index_pair (p @ PutUint16 v @ rest) off = Ok (unat v)"
  using byte_pair_at [of off p v rest] by (simp add: index_pair_def index_def byte_pair_def)

lemma index_at: "off = length p \<Longrightarrow> index (p @ b # rest) off = Ok b"
  by (simp add: index_def)

lemma decodeSNI_encodeSNI:
  assumes "name \<noteq> ''''" "length (encodeSNI name) \<le> 65535"
  shows "decodeSNI (encodeSNI name) = Ok (name, 0)"
proof -
  have n: "3 + length name \<le> 65535" "name \<noteq> []" using assms by (simp_all add: encodeSNI_def Let_def)
  then have l: "unat (of_nat (3 + length name) :: u16) = 3 + length name" "unat (of_nat (length name) :: u16) = length name"
    using unat_of_nat16 [of "3 + length name"] unat_of_nat16 [of "length name"] by simp_all
  define p where "p = PutUint16 (of_nat (3 + length name)) @ [0]"
  have e: "encodeSNI name = PutUint16 (of_nat (3 + length name)) @ [0] @ PutUint16 (of_nat (length name)) @ bytes_of_string name"
    by (simp add: encodeSNI_def Let_def)
  then have e3: "encodeSNI name = p @ PutUint16 (of_nat (length name)) @ bytes_of_string name" by (simp add: p_def)
  have "byte_pair (encodeSNI name) 0 = 3 + length name"
    using byte_pair_at [of 0 "[]"] l(1) by (simp add: e)
  moreover have "byte_pair (encodeSNI name) 3 = length name"
    using byte_pair_at [of 3 p] l(2) unfolding e3 by (simp add: p_def)
  moreover have "length (encodeSNI name) = 5 + length name" "encodeSNI name ! 2 = 0" "drop 5 (encodeSNI name) = bytes_of_string name"
    by (simp_all add: e nth_append)
  ultimately show ?thesis using n(2) by (simp add: decodeSNI_def)
qed

lemma next_names_first:
  assumes "he_Type e = 0" "he_Data e = encodeSNI name" "name \<noteq> ''''" "length (encodeSNI name) \<le> 65535" "off = length p"
  shows "next_names (p @ ext_bytes e @ rest) off 0 = Ok (True, name, off + 9)"
proof -
  let ?d = "ext_bytes e @ rest"
  have l: "unat (of_nat (length (encodeSNI name)) :: u16) = length (encodeSNI name)" by (rule unat_of_nat16 [OF assms(4)])
  have "byte_pair ?d 0 = 0" "byte_pair ?d 2 = length (encodeSNI name)"
    using byte_pair_at [of 0 "[]" 0] byte_pair_at [of 2 "PutUint16 0"] l by (simp_all add: ext_bytes_def assms(1,2))
  then have "fst (getNextExtension ?d 0) = encodeSNI name" "fst (snd (getNextExtension ?d 0)) = 0"
    by (auto simp: getNextExtension_def Let_def ext_bytes_def assms(2) numeral_2_eq_2)
  then obtain o2 l where "getNextExtension ?d 0 = (encodeSNI name, 0, o2, l)" by (metis prod.collapse)
  then show ?thesis using assms(5) by (subst next_names.simps) (simp add: decodeSNI_encodeSNI [OF assms(3,4)])
qed

lemma legacy_extensions_at:
  assumes "off = length p" "length exts \<le> 65535"
  shows "legacy_extensions (p @ PutUint16 (of_nat (length exts)) @ exts) off =
    (if length exts div 256 \<le> length exts mod 256
     then next_names (p @ PutUint16 (of_nat (length exts)) @ exts) (off + 2) 0 else nothing)"
proof -
  obtain a b where ab: "PutUint16 (of_nat (length exts)) = [a, b]" by (simp add: PutUint16_def)
  then have "unat a = length exts div 256"
    using PutUint16_nth(1) [of "of_nat (length exts)"] unat_of_nat16 [OF assms(2)] by simp
  moreover have "length exts < 257 * (length exts div 256) \<longleftrightarrow> \<not> length exts div 256 \<le> length exts mod 256"
    using div_mult_mod_eq [of "length exts" 256] by linarith
  ultimately show ?thesis
    using assms(1) by (simp add: legacy_extensions_def ab index_at Let_def not_less nothing_def)
qed

lemma legacy_lists_at:
  assumes "off = length p" "length suites = unat csl" "length cm = unat cml" "2 \<le> length rest"
  shows "(legacy_lists (p @ PutUint16 csl @ suites @ cml # cm @ rest) off :: ('e, bool \<times> string \<times> nat) outcome) =
    legacy_extensions (p @ PutUint16 csl @ suites @ cml # cm @ rest) (off + 2 + unat csl + 1 + unat cml)"
proof -
  have "(index (p @ PutUint16 csl @ suites @ cml # cm @ rest) (off + 2 + unat csl) :: ('e, u8) outcome) = Ok cml"
    using index_at [of "off + 2 + unat csl" "p @ PutUint16 csl @ suites" cml] assms by simp
  then show ?thesis using assms(1,4) by (simp add: legacy_lists_def index_pair_at assms(2,3) Let_def)
qed

text \<open>An encoded record in the parts the parser looks at.\<close>

lemma encoded_parts:
  assumes enc: "EncodeTLS t = Ok (bs, t')" and r: "length (ch_Random (tr_Message t)) = 32" and mt: "hh_MsgType (tr_Header t) = 1"
  obtains h1 h2 h3 h4 h5 h6 h7 v1 v2 random sidLen sid csl suites cml cm exts where
    "bs = ([0x16, h1, h2, h3, h4, 1, h5, h6, h7, v1, v2] @ random) @ sidLen # sid @ PutUint16 csl @ suites @ cml # cm
       @ PutUint16 (of_nat (length exts)) @ exts"
    "length random = 32" "length sid = unat sidLen" "length suites = unat csl" "length cm = unat cml"
    "exts = concat (map ext_bytes (ch_Extensions (tr_Message t)))" "length exts \<le> 65535"
proof -
  let ?m = "tr_Message t"
  obtain hello where hello: "encodeClientHello ?m = Ok hello" and ct: "tr_ContentType t = 0x16"
    using enc by (auto simp: EncodeTLS_def split: if_splits)
  note e = encodeClientHello_Ok [OF hello] and w = encoded_widths [OF hello]
  have bs: "bs = tr_ContentType t # PutUint16 (tr_Version t) @ PutUint16 (tr_Length t') @ encodeHandshakeHeader t (of_nat (length hello)) @ hello"
    using enc by (auto simp: EncodeTLS_def hello ct Let_def encodeHandshakeHeader_def encodeTLSRecordHeader_def)
  have x: "ch_ExtensionsLength (with_lengths ?m) = of_nat (length (concat (map ext_bytes (ch_Extensions ?m))))"
    by (simp add: with_lengths_def)
  obtain v1 v2 where v: "PutUint16 (ch_Version ?m) = [v1, v2]" by (simp add: PutUint16_def)
  obtain h1 h2 where h: "PutUint16 (tr_Version t) = [h1, h2]" by (simp add: PutUint16_def)
  obtain h3 h4 where h': "PutUint16 (tr_Length t') = [h3, h4]" by (simp add: PutUint16_def)
  show thesis
    by (rule that [OF _ r w(2) _ _ refl e(6), where suites = "concat (map PutUint16 (ch_CipherSuites ?m))" and cm = "ch_CompressionMethods ?m"])
      (simp_all only: bs e(7) ct mt encodeHandshakeHeader_def x w v h h' append.simps append_assoc, simp_all only: w)
qed

text \<open>Of a record that the encoder of the package wrote with the server name as its first extension, the
  old parser reads that name and the position where it stands, if and only if the high byte of
  the length of the extensions is not greater than its low byte: it reads this byte twice. All
  other such records are taken for no hello at all.\<close>

theorem legacy_parser_reads_first_name:
  assumes enc: "EncodeTLS t = Ok (bs, t')" and r: "length (ch_Random (tr_Message t)) = 32" and mt: "hh_MsgType (tr_Header t) = 1"
    and first: "ch_Extensions (tr_Message t) = e # es" "he_Type e = 0" "he_Data e = encodeSNI name" "name \<noteq> ''''"
  shows "let n = length (concat (map ext_bytes (ch_Extensions (tr_Message t)))); pos = length bs - n + 9
    in (DecodeSSLHandshake bs :: ('x, bool \<times> string \<times> nat) outcome)
       = (if n div 256 \<le> n mod 256 then Ok (True, name, pos) else Ok (False, '''', 0))
     \<and> take (length name) (drop pos bs) = bytes_of_string name"
proof -
  let ?exts = "concat (map ext_bytes (ch_Extensions (tr_Message t)))"
  obtain h1 h2 h3 h4 h5 h6 h7 v1 v2 random sidLen sid csl suites cml cm where
    bs: "bs = ([0x16, h1, h2, h3, h4, 1, h5, h6, h7, v1, v2] @ random) @ sidLen # sid @ PutUint16 csl @ suites @ cml # cm
       @ PutUint16 (of_nat (length ?exts)) @ ?exts"
    and l: "length random = 32" "length sid = unat sidLen" "length suites = unat csl" "length cm = unat cml"
    and n: "length ?exts \<le> 65535"
    by (rule encoded_parts [OF enc r mt]) blast
  define p where "p = [0x16, h1, h2, h3, h4, 1, h5, h6, h7, v1, v2] @ random"
  define p1 where "p1 = p @ sidLen # sid"
  define p2 where "p2 = p1 @ PutUint16 csl @ suites @ cml # cm"
  have b: "bs = p @ sidLen # sid @ PutUint16 csl @ suites @ cml # cm @ PutUint16 (of_nat (length ?exts)) @ ?exts"
    "bs = p1 @ PutUint16 csl @ suites @ cml # cm @ PutUint16 (of_nat (length ?exts)) @ ?exts"
    "bs = p2 @ PutUint16 (of_nat (length ?exts)) @ ?exts"
    by (simp_all add: bs p_def p1_def p2_def)
  have lp: "length p = 43" "length p1 = 44 + unat sidLen" "length p2 = 44 + unat sidLen + 2 + unat csl + 1 + unat cml"
    by (simp_all add: p_def p1_def p2_def l)
  have x: "?exts = ext_bytes e @ concat (map ext_bytes es)" by (simp add: first(1))
  have s: "length (encodeSNI name) \<le> 65535" using n by (simp add: x ext_bytes_def first(3))
  let ?D = "DecodeSSLHandshake bs :: ('x, bool \<times> string \<times> nat) outcome"
  have len: "49 \<le> length bs" and i: "bs ! 0 = 0x16" "bs ! 5 = 1" "bs ! 43 = sidLen"
    by (simp_all add: b(1) lp x ext_bytes_def) (simp_all add: p_def nth_append l)
  then have "?D = legacy_lists bs (44 + unat sidLen)"
    by (simp add: DecodeSSLHandshake_def not_ssl_def index_pair_def index_def)
  also have "\<dots> = legacy_extensions bs (length p2)"
    unfolding b(2) by (subst legacy_lists_at) (simp_all add: lp l)
  also have "\<dots> = (if length ?exts div 256 \<le> length ?exts mod 256 then next_names bs (length p2 + 2) 0 else nothing)"
    unfolding b(3) by (rule legacy_extensions_at [OF refl n])
  also have "next_names bs (length p2 + 2) 0 = Ok (True, name, length p2 + 2 + 9)"
    using next_names_first [OF first(2-4) s, of "length p2 + 2" "p2 @ PutUint16 (of_nat (length ?exts))"] by (simp add: b(3) x)
  finally have "?D = (if length ?exts div 256 \<le> length ?exts mod 256 then Ok (True, name, length p2 + 2 + 9) else nothing)" .
  moreover have "length bs - length ?exts + 9 = length p2 + 2 + 9" by (simp add: b(3))
  moreover have "take (length name) (drop (length p2 + 2 + 9) bs) = bytes_of_string name"
    by (simp add: b(3) x ext_bytes_def first(3) encodeSNI_def Let_def)
  ultimately show ?thesis by (simp add: Let_def nothing_def)
qed

lemma legacy_parser_reads_first_name_witness:
  "\<exists>bs t' pos. EncodeTLS (NewTLSRecord (sample_hello [\<lparr>he_Type = 0, he_Length = 0, he_Data = encodeSNI ''a''\<rparr>])) = Ok (bs, t')
     \<and> DecodeSSLHandshake bs = (Ok (True, ''a'', pos) :: (unit, bool \<times> string \<times> nat) outcome)
     \<and> take 1 (drop pos bs) = bytes_of_string ''a''"
proof -
  let ?e = "\<lparr>he_Type = 0, he_Length = 0, he_Data = encodeSNI ''a''\<rparr>"
  have l: "length (encodeSNI ''a'') = 6" by (simp add: encodeSNI_def Let_def)
  obtain bs t' where e: "EncodeTLS (NewTLSRecord (sample_hello [?e])) = Ok (bs, t')"
    using sample_encodes [of "[?e]"] l by auto
  have x: "ch_Extensions (sample_hello [?e]) = [?e]" by (simp add: sample_hello_def)
  from legacy_parser_reads_first_name [OF e, of ?e "[]" "''a''"] have
    "DecodeSSLHandshake bs = (Ok (True, ''a'', length bs - 10 + 9) :: (unit, bool \<times> string \<times> nat) outcome)
     \<and> take 1 (drop (length bs - 10 + 9) bs) = bytes_of_string ''a''"
    by (simp add: x ext_bytes_def l Let_def)
  with e show ?thesis by blast
qed

end
