(* ===== verification/Legacy_Stream.thy ===== *)
theory Legacy_Stream
  imports Legacy_Handshake Forward_Props
begin

text \<open>
  The stream code of \<^verbatim>\<open>cmd/socks5.go\<close> that \<^verbatim>\<open>StreamForward\<close> has replaced: \<^verbatim>\<open>streamForwardLegacy\<close>,
  \<^verbatim>\<open>forwardWithFragmentation\<close>, \<^verbatim>\<open>DoInject\<close> and the counter \<^verbatim>\<open>NumReplaced\<close>. Nothing reached from \<^verbatim>\<open>main\<close>
  calls them. The reads of a connection are a list of results, as for \<^verbatim>\<open>StreamForward\<close>.
\<close>

section \<open>The counter\<close>

record NumReplaced = nr_Num :: int

definition NumReplaced_Add :: "NumReplaced \<Rightarrow> int \<Rightarrow> NumReplaced" where
  "NumReplaced_Add n num = n\<lparr>nr_Num := nr_Num n + num\<rparr>"

definition NumReplaced_Get :: "NumReplaced \<Rightarrow> int" where
  "NumReplaced_Get n = nr_Num n"

section \<open>The old forward loop\<close>

text \<open>\<open>ls_buffer\<close> is the buffer of 32768 bytes, which keeps the rest of earlier reads.\<close>

record legacy =
  ls_buffer :: bytes
  ls_count :: nat
  ls_target :: conn
  ls_tx :: nat

definition start_legacy :: "conn \<Rightarrow> legacy" where
  "start_legacy target = \<lparr>ls_buffer = replicate 32768 0, ls_count = 0, ls_target = target, ls_tx = 0\<rparr>"

text \<open>The inspection of the first chunk decodes the whole buffer. The code that would change the
  hello is under \<^verbatim>\<open>if false\<close>, so it only looks at the name; the lengths are compared in 16 bits.\<close>

definition legacy_inspect :: "bytes \<Rightarrow> nat \<Rightarrow> (tls_error, unit) outcome" where
  "legacy_inspect buffer n =
     (case DecodeTLS buffer of
        Panic \<Rightarrow> Panic
      | Err _ \<Rightarrow> Ok ()
      | Ok tls \<Rightarrow> if tr_Length tls + 5 = of_nat n then obind (FindSNI (tr_Message tls)) (\<lambda>_. Ok ()) else Ok ())"

text \<open>A read that returns bytes together with an error ends the loop before the bytes are written.\<close>

fun streamForwardLegacy :: "(bytes \<times> io_error option) list \<Rightarrow> legacy \<Rightarrow> (tls_error, legacy) outcome" where
  "streamForwardLegacy [] st = Ok st"
| "streamForwardLegacy ((data, err) # reads) st =
     (let buffer = data @ drop (length data) (ls_buffer st)
      in obind (if ls_count st = 0 \<and> data \<noteq> [] \<and> err = None then legacy_inspect buffer (length data) else Ok ()) (\<lambda>_.
         let st1 = st\<lparr>ls_buffer := buffer, ls_count := ls_count st + length data, ls_tx := ls_tx st + length data\<rparr>
         in if err \<noteq> None then Ok st1
            else case Write (ls_target st1) data of
              ((_, Some _), c) \<Rightarrow> Ok (st1\<lparr>ls_target := c\<rparr>)
            | ((_, None), c) \<Rightarrow> streamForwardLegacy reads (st1\<lparr>ls_target := c\<rparr>)))"

section \<open>The old fragmenting loop\<close>

fun forwardWithFragmentation ::
  "(bytes \<times> io_error option) list \<Rightarrow> Fragmenter \<times> conn \<Rightarrow> io_error option \<times> (Fragmenter \<times> conn)" where
  "forwardWithFragmentation [] fc = (None, fc)"
| "forwardWithFragmentation ((data, err) # reads) (f, c) =
     (if err \<noteq> None then (None, f, c)
      else if data = [] then forwardWithFragmentation reads (f, c)
      else case (if ShouldFragment f then WriteFragmented f c data
                 else (case Write c data of ((_, e), c') \<Rightarrow> (e, f, c'))) of
        (Some e, fc) \<Rightarrow> (Some e, fc)
      | (None, fc) \<Rightarrow> forwardWithFragmentation reads fc)"

section \<open>The old injection\<close>

text \<open>\<open>room n\<close> is the capacity that \<^verbatim>\<open>append\<close> gives a slice of \<open>n\<close> bytes: the bound of the slice
  expression is checked against it, and what is copied behind the length is lost. \<open>session\<close> is what
  the capture knows of the connection; the result is the packet handed to the capture thread.\<close>

definition overwrite :: "bytes \<Rightarrow> nat \<Rightarrow> bytes \<Rightarrow> bytes" where
  "overwrite xs off ys = take (length xs) (take off xs @ ys @ drop (off + length ys) xs)"

definition DoInject ::
  "(nat \<Rightarrow> nat) \<Rightarrow> Config \<Rightarrow> string \<Rightarrow> u16 \<Rightarrow> 'si option \<Rightarrow> int \<Rightarrow> bytes \<Rightarrow>
   (config_error, ('si \<times> u8 \<times> bytes) option) outcome" where
  "DoInject room cfg host port session ttl data =
     obind (IsFakeStrategy cfg host) (\<lambda>(ok, rName).
       if \<not> ok \<or> port \<noteq> 443 then Ok None
       else case session of
         None \<Rightarrow> Ok None
       | Some si \<Rightarrow>
           (let ln = min (length data) 1024
            in obind (DecodeSSLHandshake data) (\<lambda>(haveSNI, sni, off).
              if \<not> haveSNI then Ok None
              else if room ln < off + length sni then Panic
              else Ok (Some (si, of_int ttl, overwrite (take ln data) off (take (length sni) (bytes_of_string rName)))))))"


section \<open>The stream\<close>

text \<open>The chunks the old loops pass on: those of the reads before the first error, whose own bytes are
  dropped.\<close>

definition legacy_chunks :: "(bytes \<times> io_error option) list \<Rightarrow> bytes list" where
  "legacy_chunks reads = map fst (takeWhile (\<lambda>r. snd r = None) reads)"

lemma legacy_chunks_simps [simp]:
  "legacy_chunks [] = []" "legacy_chunks ((d, e) # rs) = (if e = None then d # legacy_chunks rs else [])"
  by (simp_all add: legacy_chunks_def)

definition write_once :: "conn \<Rightarrow> bytes \<Rightarrow> io_error option \<times> conn" where
  "write_once c data = (case Write c data of ((_, e), c') \<Rightarrow> (e, c'))"

lemma write_once_delivers:
  assumes "full_or_error c" "length data \<le> 32768" "write_once c data = (e, c')"
  shows "full_or_error c' \<and> (\<exists>k \<le> length data. cn_out c' = cn_out c @ take k data \<and> (e = None \<longrightarrow> k = length data))"
proof -
  obtain n where "Write c data = ((n, e), c')" using assms(3) by (auto simp: write_once_def split: prod.splits)
  from Write_cases [OF this] assms show ?thesis by auto
qed

interpretation once: ordered_writer write_once cn_out full_or_error "\<lambda>d. length d \<le> 32768"
  by unfold_locales (rule write_once_delivers)

definition legacy_send :: "Fragmenter \<times> conn \<Rightarrow> bytes \<Rightarrow> io_error option \<times> (Fragmenter \<times> conn)" where
  "legacy_send fc data =
     (if data = [] then (None, fc)
      else case fc of (f, c) \<Rightarrow>
        if ShouldFragment f then WriteFragmented f c data else (case Write c data of ((_, e), c') \<Rightarrow> (e, f, c')))"

interpretation legacy: ordered_writer legacy_send "\<lambda>fc. cn_out (snd fc)" "\<lambda>fc. full_or_error (snd fc)" "\<lambda>d. length d \<le> 32768"
proof
  fix fc fc' :: "Fragmenter \<times> conn" and data e
  assume a: "full_or_error (snd fc)" "length data \<le> 32768" "legacy_send fc data = (e, fc')"
  obtain f c where fc: "fc = (f, c)" by (cases fc)
  show "full_or_error (snd fc') \<and> (\<exists>k \<le> length data. cn_out (snd fc') = cn_out (snd fc) @ take k data
      \<and> (e = None \<longrightarrow> k = length data))"
  proof (cases "data = []")
    case False
    show ?thesis
    proof (cases "ShouldFragment f")
      case True
      then have "WriteFragmented f c data = (e, fst fc', snd fc')" using a(3) fc False by (simp add: legacy_send_def)
      from WriteFragmented_delivers [OF this] a fc show ?thesis by simp
    next
      case no: False
      then have "write_once c data = (e, snd fc')"
        using a(3) fc False by (auto simp: legacy_send_def write_once_def split: prod.splits)
      from write_once_delivers [OF _ a(2) this] a(1) fc show ?thesis by simp
    qed
  qed (use a in \<open>auto simp: legacy_send_def\<close>)
qed

lemma streamForwardLegacy_sends:
  "streamForwardLegacy reads st = Ok st' \<Longrightarrow> \<exists>e. put_list write_once (ls_target st) (legacy_chunks reads) = (e, ls_target st')"
proof (induction reads arbitrary: st)
  case (Cons re reads)
  obtain d e where re: "re = (d, e)" by (cases re)
  obtain n w c where W: "Write (ls_target st) d = ((n, w), c)" by (metis prod.collapse)
  then have o: "write_once (ls_target st) d = (w, c)" by (simp add: write_once_def)
  show ?case
  proof (cases "e = None \<and> w = None")
    case True
    then show ?thesis using Cons.prems W o
        Cons.IH [of "st\<lparr>ls_buffer := d @ drop (length d) (ls_buffer st), ls_count := ls_count st + length d,
          ls_tx := ls_tx st + length d, ls_target := c\<rparr>"]
      by (auto simp: re Let_def)
  next
    case False
    then show ?thesis using Cons.prems W o by (cases e; cases w) (auto simp: re Let_def)
  qed
qed simp

lemma forwardWithFragmentation_sends:
  "\<exists>e fc. put_list legacy_send fc0 (legacy_chunks reads) = (e, fc) \<and> forwardWithFragmentation reads fc0 = (e, fc)"
proof (induction reads arbitrary: fc0)
  case (Cons re reads)
  obtain d e where re: "re = (d, e)" by (cases re)
  obtain f c where fc: "fc0 = (f, c)" by (cases fc0)
  obtain w fc1 where s: "legacy_send (f, c) d = (w, fc1)" by (metis prod.collapse)
  show ?case
  proof (cases "e = None \<and> d \<noteq> []")
    case True
    then show ?thesis using s Cons.IH [of fc1] by (cases w) (auto simp: re fc legacy_send_def)
  next
    case False
    then show ?thesis using Cons.IH [of fc0] by (cases e) (auto simp: re fc legacy_send_def)
  qed
qed simp

lemma legacy_chunks_small: "\<forall>r \<in> set reads. length (fst r) \<le> n \<Longrightarrow> \<forall>d \<in> set (legacy_chunks reads). length d \<le> n"
  by (auto simp: legacy_chunks_def dest!: set_takeWhileD)

text \<open>Both old forward loops preserve the stream of the client as the new one does: the target gets a
  prefix of the bytes of the reads before the first error, in order, and all of them from the
  fragmenting loop when it reports no failed write. Unlike \<open>StreamForward\<close> they drop the bytes that
  a read returns together with an error.\<close>

theorem legacy_loops_preserve_the_stream:
  assumes "full_or_error c" "\<forall>r \<in> set reads. length (fst r) \<le> 32768"
  shows "(case streamForwardLegacy reads (start_legacy c) of
       Ok st \<Rightarrow> \<exists>k. cn_out (ls_target st) = cn_out c @ take k (concat (legacy_chunks reads))
     | _ \<Rightarrow> True)
   \<and> (case forwardWithFragmentation reads (NewFragmenter initialFragSize, c) of
       (e, f, c') \<Rightarrow> \<exists>k. cn_out c' = cn_out c @ take k (concat (legacy_chunks reads))
         \<and> (e = None \<longrightarrow> k = length (concat (legacy_chunks reads))))"
proof -
  note small = legacy_chunks_small [OF assms(2)]
  have "\<exists>k. cn_out (ls_target st) = cn_out c @ take k (concat (legacy_chunks reads))"
    if run: "streamForwardLegacy reads (start_legacy c) = Ok st" for st
  proof -
    obtain e where "put_list write_once c (legacy_chunks reads) = (e, ls_target st)"
      using streamForwardLegacy_sends [OF run] by (auto simp: start_legacy_def)
    from once.put_list_delivers [OF assms(1) small this] show ?thesis by blast
  qed
  moreover obtain e f c' where p: "put_list legacy_send (NewFragmenter initialFragSize, c) (legacy_chunks reads) = (e, f, c')"
      "forwardWithFragmentation reads (NewFragmenter initialFragSize, c) = (e, f, c')"
    using forwardWithFragmentation_sends [of "(NewFragmenter initialFragSize, c)" reads] by (metis prod.collapse)
  ultimately show ?thesis
    using legacy.put_list_delivers [OF _ small p(1)] assms(1) by (auto split: outcome.split)
qed

lemma legacy_loops_preserve_the_stream_witness:
  "\<exists>k. cn_out (snd (snd (forwardWithFragmentation [([1, 2], None), ([3], Some EOF)] (NewFragmenter initialFragSize, open_conn []))))
       = take k [1, 2]"
proof -
  have "full_or_error (open_conn [])" "cn_out (open_conn []) = []" by (simp_all add: full_or_error_def open_conn_def)
  moreover have "concat (legacy_chunks [([1, 2], None), ([3 :: u8], Some EOF)]) = [1, 2]" by simp
  ultimately show ?thesis
    using legacy_loops_preserve_the_stream [of "open_conn []" "[([1, 2], None), ([3], Some EOF)]", THEN conjunct2]
    by (simp add: case_prod_beta del: forwardWithFragmentation.simps) blast
qed

end
