(* ===== verification/Key_Share.thy ===== *)
theory Key_Share
  imports Tls_Lemmas
begin

text \<open>
  The key share extension (\<^verbatim>\<open>internal/libtls/extensions.go\<close>): its decoder, whose offsets are 16-bit
  numbers, its encoder, and the operations on the list of shares; with the round trip and the inputs
  on which the decoder panics.
\<close>

section \<open>Data\<close>

record KeyShareExtension =
  ke_Group :: u16
  ke_KeyExchange :: bytes

record KeyShare =
  ks_KeyShareLength :: u16
  ks_Extensions :: "KeyShareExtension list"

datatype key_share_error = WRONG_EXTENSION_TYPE | KS_TOO_SHORT | KS_INVALID_LIST_LEN | SHORT_EXTENSION
  | INVALID_EXT_LEN | EXTENSION_EARLY_END

definition TLS_EXTENSION_KEY_SHARE :: u16 where "TLS_EXTENSION_KEY_SHARE = 51"

section \<open>Decoding\<close>

lemma obind_cong [fundef_cong]:
  "m = m' \<Longrightarrow> (\<And>x. m' = Ok x \<Longrightarrow> f x = f' x) \<Longrightarrow> obind m f = obind m' f'"
  by (cases m') auto

lemma key_share_progress:
  assumes "3 \<le> len" "ksp < len - 2" "unat (ksp + 2) \<le> unat (ksp + 4)"
    "unat (ksp + 4) \<le> unat (ksp + llen + 4 :: u16)"
  shows "unat (len - 2) - unat (ksp + llen + 4) < unat (len - 2) - unat (ksp :: u16)"
proof -
  have l: "unat (len - 2) = unat len - 2" using assms(1) by (simp add: unat_sub word_le_nat_alt)
  have b: "unat len < 65536" using unsigned_less [of len, where ?'a = nat] by simp
  have k: "unat ksp < unat len - 2" using assms(2) l by (simp add: word_less_nat_alt)
  have "unat (ksp + 2) = unat ksp + 2" using k b by (subst unat_add_lem [THEN iffD1]) auto
  moreover have "unat (ksp + 4) = (unat ksp + 4) mod 65536" by (simp add: unat_word_ariths)
  ultimately have "unat (ksp + 4) = unat ksp + 4" using assms(3) k b by (cases "unat ksp + 4 < 65536") (auto simp: mod_if)
  then show ?thesis using assms(4) k l by linarith
qed

text \<open>The loop of \<^verbatim>\<open>DecodeKeyShare\<close> at the offset \<open>ksp\<close>: the shares and the offset where it stops.
  The length of the list is \<open>len - 2\<close>; the bound on \<open>len\<close> repeats the check before the loop.\<close>

function key_shares :: "bytes \<Rightarrow> u16 \<Rightarrow> u16 \<Rightarrow> (key_share_error, KeyShareExtension list \<times> u16) outcome" where
  "key_shares data len ksp =
     (if 3 \<le> len \<and> ksp < len - 2
      then if len - 2 \<le> ksp + 4 then Err SHORT_EXTENSION
           else obind (slice data (unat (ksp + 2)) (unat (ksp + 4))) (\<lambda>lb.
                obind (Uint16 lb) (\<lambda>llen.
                if len - 2 < ksp + llen then Err INVALID_EXT_LEN
                else obind (slice data (unat (ksp + 4)) (unat (ksp + llen + 4))) (\<lambda>keyData.
                     obind (slice data (unat ksp) (unat (ksp + 2))) (\<lambda>gb.
                     obind (Uint16 gb) (\<lambda>group.
                     obind (key_shares data len (ksp + llen + 4)) (\<lambda>(es, p).
                     Ok (\<lparr>ke_Group = group, ke_KeyExchange = keyData\<rparr> # es, p)))))))
      else Ok ([], ksp))"
  by pat_completeness auto
termination
  by (relation "measure (\<lambda>(data, len, ksp). unat (len - 2) - unat ksp)")
    (auto simp: slice_Ok_iff simp del: obind_Ok_iff intro!: key_share_progress)

declare key_shares.simps [simp del]

definition DecodeKeyShare :: "HelloExtension \<Rightarrow> (key_share_error, KeyShare) outcome" where
  "DecodeKeyShare he =
     (if he_Type he \<noteq> TLS_EXTENSION_KEY_SHARE then Err WRONG_EXTENSION_TYPE
      else if he_Length he < 3 then Err KS_TOO_SHORT
      else obind (slice (he_Data he) 0 2) (\<lambda>lb.
           obind (Uint16 lb) (\<lambda>listLen.
           if listLen \<noteq> he_Length he - 2 then Err KS_INVALID_LIST_LEN
           else if listLen = 0 then Ok \<lparr>ks_KeyShareLength = listLen, ks_Extensions = []\<rparr>
           else obind (key_shares (he_Data he) (he_Length he) 2) (\<lambda>(es, ksp).
                if ksp \<noteq> he_Length he then Err EXTENSION_EARLY_END
                else Ok \<lparr>ks_KeyShareLength = listLen, ks_Extensions = es\<rparr>))))"

section \<open>Encoding and editing\<close>

definition share_bytes :: "KeyShareExtension \<Rightarrow> bytes" where
  "share_bytes e = PutUint16 (ke_Group e) @ PutUint16 (of_nat (length (ke_KeyExchange e))) @ ke_KeyExchange e"

definition EncodeKeyShare :: "KeyShare \<Rightarrow> bool \<times> HelloExtension" where
  "EncodeKeyShare k =
     (let tl = 2 + sum_list (map (\<lambda>e. 4 + length (ke_KeyExchange e)) (ks_Extensions k))
      in (True, \<lparr>he_Type = TLS_EXTENSION_KEY_SHARE, he_Length = of_nat tl,
                 he_Data = PutUint16 (of_nat (tl - 2)) @ concat (map share_bytes (ks_Extensions k))\<rparr>))"

fun find_share :: "u16 \<Rightarrow> nat \<Rightarrow> KeyShareExtension list \<Rightarrow> (nat \<times> bytes) option" where
  "find_share t i [] = None"
| "find_share t i (e # es) = (if ke_Group e = t then Some (i, ke_KeyExchange e) else find_share t (i + 1) es)"

definition KS_FindExtension :: "KeyShare \<Rightarrow> u16 \<Rightarrow> (nat \<times> bytes) option" where
  "KS_FindExtension k t = find_share t 0 (ks_Extensions k)"

definition KS_RemoveExtension :: "KeyShare \<Rightarrow> int \<Rightarrow> bool \<times> KeyShare" where
  "KS_RemoveExtension k i =
     (case drop_ext i (ks_Extensions k) of (ok, es) \<Rightarrow> (ok, k\<lparr>ks_Extensions := es\<rparr>))"

definition KS_RemoveExtensionByType :: "KeyShare \<Rightarrow> u16 \<Rightarrow> bool \<times> KeyShare" where
  "KS_RemoveExtensionByType k t =
     (case KS_FindExtension k t of None \<Rightarrow> (False, k) | Some (i, _) \<Rightarrow> KS_RemoveExtension k (int i))"

section \<open>The round trip\<close>

definition shares_bytes :: "KeyShareExtension list \<Rightarrow> bytes" where
  "shares_bytes es = concat (map share_bytes es)"

lemma length_share_bytes [simp]: "length (share_bytes e) = 4 + length (ke_KeyExchange e)"
  by (simp add: share_bytes_def)

lemma length_shares_bytes: "length (shares_bytes es) = sum_list (map (\<lambda>e. 4 + length (ke_KeyExchange e)) es)"
  by (induction es) (simp_all add: shares_bytes_def)

lemma of_nat16_less: "a < 65536 \<Longrightarrow> b < 65536 \<Longrightarrow> (of_nat a < (of_nat b :: u16)) = (a < b)"
  by (simp add: word_less_nat_alt unat_of_nat)

lemma of_nat16_le: "a < 65536 \<Longrightarrow> b < 65536 \<Longrightarrow> (of_nat a \<le> (of_nat b :: u16)) = (a \<le> b)"
  by (simp add: word_le_nat_alt unat_of_nat)

text \<open>The last share: the decoder wants more than two bytes of key.\<close>

definition last_long :: "KeyShareExtension list \<Rightarrow> bool" where
  "last_long es \<longleftrightarrow> es \<noteq> [] \<and> 2 < length (ke_KeyExchange (last es))"

text \<open>One round of the loop on a share of \<open>k\<close> key bytes at offset \<open>n\<close>, with \<open>t\<close> bytes after it.\<close>

lemma key_shares_step:
  assumes "n + 4 + k + t < 65536" "2 < k + t"
    and "data = pre @ PutUint16 g @ PutUint16 (of_nat k) @ key @ post" "length pre = n" "length key = k"
  shows "key_shares data (of_nat (n + 4 + k + t)) (of_nat n) =
    obind (key_shares data (of_nat (n + 4 + k + t)) (of_nat (n + k + 4))) (\<lambda>(es, p).
      Ok (\<lparr>ke_Group = g, ke_KeyExchange = key\<rparr> # es, p))"
proof -
  define len :: u16 where "len = of_nat (n + 4 + k + t)"
  have "unat len = n + 4 + k + t" unfolding len_def using assms(1) by (intro unat_of_nat16) simp
  then have len: "len - 2 = of_nat (n + 2 + k + t)" "3 \<le> len"
    using assms(2) by (simp_all add: word_le_nat_alt len_def)
  have w: "(of_nat n + 2 :: u16) = of_nat (n + 2)" "(of_nat n + 4 :: u16) = of_nat (n + 4)"
    "(of_nat n + of_nat k :: u16) = of_nat (n + k)" "(of_nat (n + k) + 4 :: u16) = of_nat (n + k + 4)" by simp_all
  have c: "(of_nat n :: u16) < of_nat (n + 2 + k + t)" "\<not> (of_nat (n + 2 + k + t) :: u16) \<le> of_nat (n + 4)"
    "\<not> (of_nat (n + 2 + k + t) :: u16) < of_nat (n + k)"
    using assms(1,2) by (simp_all only: of_nat16_less of_nat16_le)
  have s: "slice data (n + 2) (n + 4) = (Ok (PutUint16 (of_nat k)) :: (key_share_error, bytes) outcome)"
    "slice data (n + 4) (n + k + 4) = (Ok key :: (key_share_error, bytes) outcome)"
    "slice data n (n + 2) = (Ok (PutUint16 g) :: (key_share_error, bytes) outcome)"
    unfolding assms(3)
    using slice_middle [of "n + 2" "pre @ PutUint16 g" "n + 4" "PutUint16 (of_nat k)" "key @ post"]
      slice_middle [of "n + 4" "pre @ PutUint16 g @ PutUint16 (of_nat k)" "n + k + 4" key post]
      slice_middle [of n pre "n + 2" "PutUint16 g" "PutUint16 (of_nat k) @ key @ post"]
    by (simp_all add: assms(4,5))
  have u: "unat (of_nat (n + 2) :: u16) = n + 2" "unat (of_nat (n + 4) :: u16) = n + 4"
    "unat (of_nat (n + k + 4) :: u16) = n + k + 4" "unat (of_nat n :: u16) = n"
    using assms(1) by (simp_all only: unat_of_nat16)
  have U: "Uint16 (PutUint16 v) = (Ok v :: (key_share_error, u16) outcome)" for v
    using Uint16_PutUint16 [of v "[]"] by simp
  show ?thesis unfolding len_def [symmetric]
    by (subst key_shares.simps) (simp only: w len c u s U obind.simps if_True if_False simp_thms)
qed

lemma key_shares_encoded:
  assumes "last_long es \<or> es = []" "length pre + length (shares_bytes es) < 65536" "2 \<le> length pre"
  shows "key_shares (pre @ shares_bytes es) (of_nat (length pre + length (shares_bytes es))) (of_nat (length pre)) =
    Ok (es, of_nat (length pre + length (shares_bytes es)))"
  using assms
proof (induction es arbitrary: pre)
  case Nil
  then have "\<not> of_nat (length pre) < (of_nat (length pre) :: u16) - 2"
    by (simp add: word_less_nat_alt unat_sub_if_size unat_of_nat word_size)
  then show ?case by (simp add: key_shares.simps shares_bytes_def)
next
  case (Cons e es)
  define n k t where "n = length pre" and "k = length (ke_KeyExchange e)" and "t = length (shares_bytes es)"
  have tot: "length (shares_bytes (e # es)) = 4 + k + t" by (simp add: shares_bytes_def t_def k_def)
  have b: "n + 4 + k + t < 65536" using Cons.prems(2) tot by (simp add: n_def)
  have kt: "2 < k + t"
    using Cons.prems(1) by (cases es) (auto simp: last_long_def k_def t_def length_shares_bytes)
  define data where "data = pre @ shares_bytes (e # es)"
  have d: "data = pre @ PutUint16 (ke_Group e) @ PutUint16 (of_nat k) @ ke_KeyExchange e @ shares_bytes es"
    by (simp add: data_def shares_bytes_def share_bytes_def k_def)
  have "key_shares data (of_nat (n + 4 + k + t)) (of_nat (n + k + 4)) = Ok (es, of_nat (n + 4 + k + t))"
    using Cons.IH [of "pre @ share_bytes e"] Cons.prems(1) b
    by (simp add: data_def shares_bytes_def last_long_def n_def k_def t_def ac_simps split: if_splits)
  with key_shares_step [OF b kt d n_def [symmetric] k_def [symmetric]] show ?case
    by (simp add: n_def [symmetric] data_def [symmetric] tot ac_simps)
qed

text \<open>A key share that is encoded decodes to the same shares, provided it fits in an extension and
  the key of the last share has more than two bytes (a shorter one is refused as truncated).\<close>

theorem key_share_round_trip:
  assumes "last_long (ks_Extensions k)" "2 + length (shares_bytes (ks_Extensions k)) < 65536"
  shows "DecodeKeyShare (snd (EncodeKeyShare k)) =
    Ok \<lparr>ks_KeyShareLength = of_nat (length (shares_bytes (ks_Extensions k))), ks_Extensions = ks_Extensions k\<rparr>"
proof -
  define n where "n = length (shares_bytes (ks_Extensions k))"
  obtain x xs where "ks_Extensions k = x # xs" using assms(1) by (cases "ks_Extensions k") (simp_all add: last_long_def)
  then have n: "4 \<le> n" "n + 2 < 65536" using assms(2) by (simp_all add: n_def length_shares_bytes)
  have e: "snd (EncodeKeyShare k) =
      \<lparr>he_Type = TLS_EXTENSION_KEY_SHARE, he_Length = of_nat (2 + n),
       he_Data = PutUint16 (of_nat n) @ shares_bytes (ks_Extensions k)\<rparr>"
    by (simp add: EncodeKeyShare_def n_def length_shares_bytes shares_bytes_def [symmetric])
  have "unat (of_nat (2 + n) :: u16) = 2 + n" "unat (of_nat n :: u16) = n" using n by (simp_all only: unat_of_nat16)
  then have l: "\<not> (of_nat (2 + n) :: u16) < 3" "(of_nat n :: u16) \<noteq> 0" "(of_nat (2 + n) :: u16) - 2 = of_nat n"
    using n by (auto simp: word_less_nat_alt)
  have s: "slice (PutUint16 (of_nat n) @ shares_bytes (ks_Extensions k)) 0 2 =
      (Ok (PutUint16 (of_nat n)) :: (key_share_error, bytes) outcome)" by (simp add: slice_def)
  have U: "Uint16 (PutUint16 v) = (Ok v :: (key_share_error, u16) outcome)" for v
    using Uint16_PutUint16 [of v "[]"] by simp
  have "key_shares (PutUint16 (of_nat n) @ shares_bytes (ks_Extensions k)) (of_nat (2 + n)) 2 =
      Ok (ks_Extensions k, of_nat (2 + n))"
    using key_shares_encoded [of "ks_Extensions k" "PutUint16 (of_nat n)"] assms by (simp add: n_def)
  then show ?thesis unfolding e DecodeKeyShare_def using l
    by (simp add: s U n_def [symmetric])
qed

text \<open>The decoder panics on a share that claims one or two bytes more than there are: its bound is
  that of the list, which starts two bytes later. The extension is one the ClientHello decoder lets
  through.\<close>

theorem overlong_key_share_panics:
  "let he = \<lparr>he_Type = TLS_EXTENSION_KEY_SHARE, he_Length = 10, he_Data = [0, 8, 0, 29, 0, 5, 1, 2, 3, 4]\<rparr>
   in ext_ok he \<and> DecodeKeyShare he = Panic"
proof -
  have "key_shares [0, 8, 0, 29, 0, 5, 1, 2, 3, 4] 10 2 = Panic"
    by (subst key_shares.simps) (simp add: slice_def be16_def)
  then show ?thesis
    by (simp add: DecodeKeyShare_def ext_ok_def TLS_EXTENSION_KEY_SHARE_def slice_def be16_def)
qed

theorem key_share_round_trip_witness:
  "DecodeKeyShare (snd (EncodeKeyShare \<lparr>ks_KeyShareLength = 0,
     ks_Extensions = [\<lparr>ke_Group = 0x2A2A, ke_KeyExchange = [0]\<rparr>, \<lparr>ke_Group = 29, ke_KeyExchange = [1, 2, 3]\<rparr>]\<rparr>)) =
   Ok \<lparr>ks_KeyShareLength = 12,
       ks_Extensions = [\<lparr>ke_Group = 0x2A2A, ke_KeyExchange = [0]\<rparr>, \<lparr>ke_Group = 29, ke_KeyExchange = [1, 2, 3]\<rparr>]\<rparr>"
proof -
  define k where "k = \<lparr>ks_KeyShareLength = 0,
     ks_Extensions = [\<lparr>ke_Group = 0x2A2A, ke_KeyExchange = [0]\<rparr>, \<lparr>ke_Group = 29, ke_KeyExchange = [1, 2, 3]\<rparr>]\<rparr>"
  have "last_long (ks_Extensions k)" by (simp add: last_long_def k_def)
  moreover have n: "length (shares_bytes (ks_Extensions k)) = 12" by (simp add: k_def length_shares_bytes)
  ultimately show ?thesis using key_share_round_trip [of k] by (simp add: k_def [symmetric] n) (simp add: k_def)
qed

end
