(* ===== verification/Go_Text.thy ===== *)
theory Go_Text
  imports Domain_List Ip_Addr
begin

text \<open>
  Text as the two route services handle it: lines (\<^verbatim>\<open>strings.Split\<close> and \<^verbatim>\<open>strings.Join\<close> at a
  newline), words (\<^verbatim>\<open>strings.Fields\<close>), \<^verbatim>\<open>strings.Contains\<close>, and \<^verbatim>\<open>net.ParseCIDR\<close>, with the
  lemmas on files that grow by whole lines.
\<close>

section \<open>Words and substrings\<close>

fun split_spaces :: "string \<Rightarrow> string list" where
  "split_spaces [] = [[]]"
| "split_spaces (c # cs) =
     (if is_space c then [] # split_spaces cs
      else (case split_spaces cs of [] \<Rightarrow> [[c]] | w # ws \<Rightarrow> (c # w) # ws))"

definition Fields :: "string \<Rightarrow> string list" where
  "Fields s = filter (\<lambda>w. w \<noteq> '''') (split_spaces s)"

fun Contains :: "string \<Rightarrow> string \<Rightarrow> bool" where
  "Contains [] sub = (sub = '''')"
| "Contains (c # cs) sub = (HasPrefix (c # cs) sub \<or> Contains cs sub)"

lemma Contains_iff: "Contains s sub \<longleftrightarrow> (\<exists>a b. s = a @ sub @ b)"
proof (induction s)
  case (Cons c cs)
  show ?case
  proof
    assume "Contains (c # cs) sub"
    then consider r where "c # cs = sub @ r" | a b where "cs = a @ sub @ b"
      using Cons by (auto simp: HasPrefix_iff)
    then show "\<exists>a b. c # cs = a @ sub @ b"
    proof cases
      case 1
      then show ?thesis by (intro exI [of _ "[]"] exI [of _ r]) simp
    next
      case (2 a b)
      then show ?thesis by (intro exI [of _ "c # a"] exI [of _ b]) simp
    qed
  next
    assume "\<exists>a b. c # cs = a @ sub @ b"
    then obtain a b where ab: "c # cs = a @ sub @ b" by blast
    show "Contains (c # cs) sub"
    proof (cases a)
      case Nil
      then have "HasPrefix (c # cs) sub" using ab by (auto simp: HasPrefix_iff)
      then show ?thesis by simp
    next
      case (Cons x xs)
      then show ?thesis using ab Cons.IH by auto
    qed
  qed
qed auto

lemma split_spaces_nonempty [simp]: "split_spaces s \<noteq> []"
  by (cases s) (auto split: list.splits)

lemma split_spaces_word:
  "(\<And>c. c \<in> set w \<Longrightarrow> \<not> is_space c) \<Longrightarrow> is_space d \<Longrightarrow> split_spaces (w @ d # s) = w # split_spaces s"
  by (induction w) auto

lemma split_spaces_last: "(\<And>c. c \<in> set w \<Longrightarrow> \<not> is_space c) \<Longrightarrow> split_spaces w = [w]"
  by (induction w) auto

lemma Fields_Cons:
  "w \<noteq> '''' \<Longrightarrow> (\<And>c. c \<in> set w \<Longrightarrow> \<not> is_space c) \<Longrightarrow> is_space d \<Longrightarrow> Fields (w @ d # s) = w # Fields s"
  by (simp add: Fields_def split_spaces_word)

lemma Fields_word: "w \<noteq> '''' \<Longrightarrow> (\<And>c. c \<in> set w \<Longrightarrow> \<not> is_space c) \<Longrightarrow> Fields w = [w]"
  by (simp add: Fields_def split_spaces_last)

lemma Fields_nonempty: "c \<in> set s \<Longrightarrow> \<not> is_space c \<Longrightarrow> Fields s \<noteq> []"
proof -
  have "\<exists>w \<in> set (split_spaces s). w \<noteq> []" if "c \<in> set s" "\<not> is_space c" for s
    using that by (induction s) (auto split: list.splits)
  then show "c \<in> set s \<Longrightarrow> \<not> is_space c \<Longrightarrow> Fields s \<noteq> []"
    by (simp add: Fields_def filter_empty_conv)
qed

section \<open>Lines\<close>

definition lines_of :: "string \<Rightarrow> string list" where
  "lines_of content = Split newline content"

definition unlines :: "string list \<Rightarrow> string" where
  "unlines ls = Join newline ls"

text \<open>A file of whole lines.\<close>

definition complete :: "string \<Rightarrow> bool" where
  "complete content \<longleftrightarrow> content = '''' \<or> last content = newline"

lemma newline_space [simp]: "is_space newline"
  by (simp add: newline_def char_defs)

lemma Split_append:
  "Split sep (a @ sep # b) = Split sep a @ Split sep b"
  by (induction a) (auto split: list.splits)

lemma lines_of_line: "newline \<notin> set l \<Longrightarrow> lines_of (l @ newline # s) = l # lines_of s"
  by (simp add: lines_of_def Split_append_sep)

lemma complete_append: "complete a \<Longrightarrow> complete b \<Longrightarrow> complete (a @ b)"
  by (cases "b = []") (auto simp: complete_def)

lemma complete_cases: "complete c \<Longrightarrow> (c = '''' \<Longrightarrow> P) \<Longrightarrow> (\<And>d. c = d @ [newline] \<Longrightarrow> P) \<Longrightarrow> P"
  by (cases c rule: rev_cases) (auto simp: complete_def)

text \<open>The last line of a file of whole lines is empty, and a text appended to it starts there.\<close>

lemma lines_of_complete_append:
  assumes "complete a" shows "lines_of (a @ b) = butlast (lines_of a) @ lines_of b"
proof (cases "a = ''''")
  case False
  with assms obtain d where 2: "a = d @ [newline]" by (auto elim: complete_cases)
  have "lines_of (d @ newline # b) = Split newline d @ Split newline b"
    unfolding lines_of_def by (rule Split_append)
  moreover have "lines_of (d @ [newline]) = Split newline d @ [[]]"
    using Split_append [of newline d "[]"] by (simp add: lines_of_def)
  ultimately show ?thesis using 2 by (simp add: lines_of_def)
qed (simp add: lines_of_def)

lemma last_lines_of_complete: "complete a \<Longrightarrow> last (lines_of a) = ''''"
  by (erule complete_cases) (simp_all add: lines_of_def Split_append [of newline _ "[]", simplified])

lemma unlines_complete:
  assumes "ls \<noteq> []" "last ls = ''''" shows "complete (unlines ls)"
  using assms unfolding unlines_def
  by (induction newline ls rule: Join.induct) (auto simp: complete_def)

lemma TrimSpace_no_newline: "newline \<notin> set l \<Longrightarrow> newline \<notin> set (TrimSpace l)"
  by (auto simp: TrimSpace_def dest!: set_dropWhileD)

lemma HasPrefix_Cons [simp]: "HasPrefix (c # s) (d # p) \<longleftrightarrow> c = d \<and> HasPrefix s p"
  by (auto simp: HasPrefix_def)

lemma HasPrefix_Nil [simp]: "HasPrefix s ''''" "HasPrefix '''' (d # p) \<longleftrightarrow> False"
  by (simp_all add: HasPrefix_def)

section \<open>Network prefixes\<close>

text \<open>Whether \<^verbatim>\<open>net.ParseCIDR(s)\<close> succeeds: an address, the first slash, and a decimal length of at
  most 32 (of a dotted address) or 128 bits.\<close>

definition address_bits :: "string \<Rightarrow> nat option" where
  "address_bits ip =
     (case ParseIP ip of None \<Rightarrow> None | Some _ \<Rightarrow> if parseIPv4 ip \<noteq> None then Some 32 else Some 128)"

definition ParseCIDR :: "string \<Rightarrow> bool" where
  "ParseCIDR s =
     (case SplitN2 CHR ''/'' s of
        [ip, ones] \<Rightarrow>
          (case (address_bits ip, digits_value 0 ones) of
             (Some bits, Some n) \<Rightarrow> ones \<noteq> '''' \<and> n \<le> bits
           | _ \<Rightarrow> False)
      | _ \<Rightarrow> False)"

lemma digits_value_digits: "digits_value acc s = Some n \<Longrightarrow> c \<in> set s \<Longrightarrow> is_digit c"
  by (induction acc s rule: digits_value.induct) (auto split: if_splits)

text \<open>The characters of addresses: hexadecimal digits, dots and colons.\<close>

definition addr_char :: "char \<Rightarrow> bool" where
  "addr_char c \<longleftrightarrow> hex_val c \<noteq> None \<or> c = CHR ''.'' \<or> c = CHR '':''"

lemma digit_addr_char: "is_digit c \<Longrightarrow> addr_char c"
  by (simp add: addr_char_def hex_val_def Let_def)

lemma octet_chars: "octet s = Some b \<Longrightarrow> c \<in> set s \<Longrightarrow> addr_char c"
  by (auto simp: octet_def split: if_splits option.splits intro: digit_addr_char digits_value_digits)

lemma octets_chars: "octets ss = Some bs \<Longrightarrow> s \<in> set ss \<Longrightarrow> c \<in> set s \<Longrightarrow> addr_char c"
  by (induction ss arbitrary: bs) (auto split: option.splits intro: octet_chars)

lemma set_Join: "c \<in> set (Join sep ws) \<Longrightarrow> c = sep \<or> (\<exists>w \<in> set ws. c \<in> set w)"
  by (induction sep ws rule: Join.induct) auto

lemma parseIPv4_chars: "parseIPv4 s = Some b \<Longrightarrow> c \<in> set s \<Longrightarrow> addr_char c"
proof -
  assume "parseIPv4 s = Some b" and c: "c \<in> set s"
  then have o: "octets (Split CHR ''.'' s) = Some b" by (auto simp: parseIPv4_def Let_def split: if_splits)
  from c have "c \<in> set (Join CHR ''.'' (Split CHR ''.'' s))" by simp
  then consider "c = CHR ''.''" | w where "w \<in> set (Split CHR ''.'' s)" "c \<in> set w"
    using set_Join by blast
  then show ?thesis by cases (auto simp: addr_char_def [of "CHR ''.''"] intro: octets_chars [OF o])
qed

lemma hex_addr_char: "hex_val c \<noteq> None \<Longrightarrow> addr_char c"
  by (simp add: addr_char_def)

lemma hextets_step:
  assumes "\<not> 16 \<le> length ip" "ds = takeWhile (\<lambda>c. hex_val c \<noteq> None) s" "rest = drop (length ds) s"
    "ip2 = ip @ [of_nat (hex_value 0 ds div 256), of_nat (hex_value 0 ds mod 256)]"
  shows "hextets ip e s =
    (if ds = [] \<or> 4 < length ds then None
     else if rest \<noteq> [] \<and> hd rest = CHR ''.'' then
       (if (e = None \<and> length ip \<noteq> 12) \<or> 16 < length ip + 4 then None
        else case parseIPv4 s of None \<Rightarrow> None | Some b4 \<Rightarrow> Some (ip @ b4, e, ''''))
     else if rest = [] then Some (ip2, e, '''')
     else if hd rest \<noteq> CHR '':'' \<or> length rest = 1 then None
     else if hd (tl rest) = CHR '':''
       then (if e \<noteq> None then None
             else if tl (tl rest) = [] then Some (ip2, Some (length ip2), '''')
             else hextets ip2 (Some (length ip2)) (tl (tl rest)))
     else hextets ip2 e (tl rest))"
  using assms(1) unfolding assms(2-4) by (subst hextets.simps) (simp only: Let_def if_False refl)

lemma hextets_chars:
  "hextets ip e s = Some (ip', e', '''') \<Longrightarrow> c \<in> set s \<Longrightarrow> addr_char c"
proof (induction "16 - length ip" arbitrary: ip e s rule: less_induct)
  case less
  define ds where "ds = takeWhile (\<lambda>c. hex_val c \<noteq> None) s"
  define rest where "rest = drop (length ds) s"
  define ip2 :: bytes where "ip2 = ip @ [of_nat (hex_value 0 ds div 256), of_nat (hex_value 0 ds mod 256)]"
  have s: "s = ds @ rest"
    unfolding rest_def ds_def dropWhile_eq_drop [symmetric] by (rule takeWhile_dropWhile_id [symmetric])
  have ds: "addr_char d" if "d \<in> set ds" for d
    using that by (auto simp: ds_def dest!: set_takeWhileD intro: hex_addr_char)
  have IH: "hextets ip2 f t = Some (ip', e', '''') \<Longrightarrow> c \<in> set t \<Longrightarrow> addr_char c" if "\<not> 16 \<le> length ip" for f t
    using that less.hyps [of ip2 f t] by (auto simp: ip2_def)
  have colon: "addr_char CHR '':''" by (simp add: addr_char_def)
  show ?case
  proof (cases "16 \<le> length ip \<or> c \<in> set ds")
    case True
    then show ?thesis using less.prems ds by (auto simp: hextets.simps [of ip e s])
  next
    case False
    then have lt: "\<not> 16 \<le> length ip" and c: "c \<in> set rest" using less.prems(2) s by auto
    note step = less.prems(1) [unfolded hextets_step [OF lt ds_def rest_def ip2_def, of e]]
    show ?thesis
    proof (cases "hd rest = CHR ''.''")
      case True
      then have "parseIPv4 s \<noteq> None"
        using step c by (auto split: if_splits option.splits)
      then show ?thesis using less.prems(2) parseIPv4_chars by blast
    next
      case False
      with c step obtain d t where r: "rest = CHR '':'' # d # t"
        by (cases rest; cases "tl rest") (auto split: if_splits)
      with False c step colon IH [OF lt, of "Some (length ip2)" t] IH [OF lt, of e "d # t"] show ?thesis
        by (auto split: if_splits)
    qed
  qed
qed

lemma ParseIP_chars: "ParseIP s = Some ip \<Longrightarrow> c \<in> set s \<Longrightarrow> addr_char c"
proof -
  assume p: "ParseIP s = Some ip" and c: "c \<in> set s"
  consider b where "parseIPv4 s = Some b" | "parseIPv6 s = Some ip"
    using p by (auto simp: ParseIP_def split: list.splits if_splits)
  then show ?thesis
  proof cases
    case 1
    then show ?thesis using c by (rule parseIPv4_chars)
  next
    case 2
    have colon: "addr_char CHR '':''" by (simp add: addr_char_def)
    have h: "addr_char d" if "Option.bind (hextets [] e t) expand_ip = Some ip" "d \<in> set t" for d e t
      using that by (auto simp: expand_ip_def bind_eq_Some_conv split: if_splits intro: hextets_chars)
    show ?thesis
    proof (cases "HasPrefix s ''::''")
      case True
      then obtain t where "s = '':'' @ '':'' @ t" by (auto simp: HasPrefix_iff)
      with 2 c colon h [of "Some 0" t] show ?thesis
        by (auto simp: parseIPv6_def split: if_splits)
    next
      case False
      with 2 c h [of None s] show ?thesis by (auto simp: parseIPv6_def)
    qed
  qed
qed

lemma addr_char_not_space: "addr_char c \<Longrightarrow> \<not> is_space c"
  by (auto simp: addr_char_def hex_val_def Let_def is_space_def is_digit_def char_code_def split: if_splits)

lemma ParseCIDR_shape:
  assumes "ParseCIDR s"
  shows "CHR ''/'' \<in> set s" "\<And>c. c \<in> set s \<Longrightarrow> \<not> is_space c" "s \<noteq> ''''"
proof -
  show slash: "CHR ''/'' \<in> set s"
    using assms by (auto simp: ParseCIDR_def SplitN2_def split: if_splits)
  define a b where "a = takeWhile (\<lambda>c. c \<noteq> CHR ''/'') s" and "b = tl (dropWhile (\<lambda>c. c \<noteq> CHR ''/'') s)"
  obtain ip n where "ParseIP a = Some ip" "digits_value 0 b = Some n"
    using assms slash by (auto simp: ParseCIDR_def SplitN2_def a_def b_def address_bits_def
        split: option.splits if_splits)
  note ab = ParseIP_chars [OF this(1)] digit_addr_char [OF digits_value_digits [OF this(2)]]
  have ne: "dropWhile (\<lambda>c. c \<noteq> CHR ''/'') s \<noteq> []" using slash by (simp add: dropWhile_eq_Nil_conv)
  then have "hd (dropWhile (\<lambda>c. c \<noteq> CHR ''/'') s) = CHR ''/''" using hd_dropWhile [OF ne] by simp
  with ne have "dropWhile (\<lambda>c. c \<noteq> CHR ''/'') s = CHR ''/'' # b" unfolding b_def by (metis list.collapse)
  then have "s = a @ CHR ''/'' # b"
    using takeWhile_dropWhile_id [of "\<lambda>c. c \<noteq> CHR ''/''" s] by (simp only: a_def)
  then show "\<not> is_space c" if "c \<in> set s" for c
    using that ab addr_char_not_space [of c] by (auto simp: is_space_def char_code_def)
  show "s \<noteq> ''''" using slash by auto
qed


end
