(* ===== verification/Route_Manager.thy ===== *)
theory Route_Manager
  imports Go_Text
begin

text \<open>
  The BIRD route manager (\<^verbatim>\<open>cmd-route-manager/main.go\<close>): an HTTP service that keeps static routes
  in a configuration file and in a running BIRD. Every request builds a new manager from the file,
  so the file, BIRD and the metrics are the only state (\<open>machine\<close>). BIRD behind \<^verbatim>\<open>birdc\<close> is a
  parameter: a command gives BIRD's next state, whether \<^verbatim>\<open>birdc\<close> succeeded, and its output. The
  lock makes \<^verbatim>\<open>AddRoute\<close> and \<^verbatim>\<open>DeleteRoute\<close> atomic. The pattern matching of \<^verbatim>\<open>gorilla/mux\<close> is a
  parameter too; JSON coding and the HTTP server are outside.
\<close>

section \<open>State\<close>

record RouteInfo =
  ri_Prefix :: string
  ri_Nexthop :: string
  ri_Description :: string
  ri_CreatedAt :: time

record BirdRouteManager =
  bm_routes :: "(string, RouteInfo) gomap"

text \<open>The configuration file (\<open>None\<close> when it does not exist), BIRD, and the metrics: the counter of
  operations, the gauge of routes by type and the time of the last operation.\<close>

record 'b machine =
  mc_file :: "string option"
  mc_bird :: 'b
  mc_ops :: "(string \<times> string, nat) gomap"
  mc_count :: "(string, int) gomap"
  mc_last :: time

type_synonym 'b birdc = "'b \<Rightarrow> string \<Rightarrow> 'b \<times> bool \<times> string"

text \<open>What the file system does to the next operation; \<open>Io_write n\<close> lets \<open>n\<close> bytes through.\<close>

datatype io_fault = Io_ok | Io_open | Io_write nat | Io_read | Io_rename

datatype route_error =
    InvalidCIDR string | RouteExists string | BirdFailed string | AppendFailed
  | RouteNotFound string | RemoveFailed

section \<open>The configuration file\<close>

definition validateCIDR :: "string \<Rightarrow> bool" where
  "validateCIDR prefix = ParseCIDR prefix"

definition parse_route :: "string \<Rightarrow> (string \<times> string) option" where
  "parse_route trimmed =
     (if HasPrefix trimmed ''route '' \<and> HasSuffix trimmed '';''
      then let parts = Fields trimmed
           in if length parts < 3 then None else Some (parts ! 1, parts ! 2)
      else None)"

definition load_line ::
  "time \<Rightarrow> string \<times> (string, RouteInfo) gomap \<Rightarrow> string \<Rightarrow> string \<times> (string, RouteInfo) gomap" where
  "load_line now acc line =
     (case acc of (currentDesc, routes) \<Rightarrow>
        let trimmed = TrimSpace line
        in if HasPrefix trimmed ''#'' then (TrimPrefix trimmed ''# '', routes)
           else case parse_route trimmed of
             None \<Rightarrow> (currentDesc, routes)
           | Some (prefix, nexthop) \<Rightarrow>
               ('''', AList.update prefix
                  \<lparr>ri_Prefix = prefix, ri_Nexthop = nexthop, ri_Description = currentDesc,
                   ri_CreatedAt = now\<rparr> routes))"

text \<open>A file that does not exist, or cannot be read, leaves the routes as they are.\<close>

definition loadRoutesFromFile ::
  "time \<Rightarrow> io_fault \<Rightarrow> string option \<Rightarrow> BirdRouteManager \<Rightarrow> BirdRouteManager" where
  "loadRoutesFromFile now fault file b =
     (case file of
        None \<Rightarrow> b
      | Some content \<Rightarrow>
          if fault = Io_read then b
          else b\<lparr>bm_routes := snd (foldl (load_line now) ('''', bm_routes b) (lines_of content))\<rparr>)"

definition NewBirdRouteManager :: "time \<Rightarrow> io_fault \<Rightarrow> 'b machine \<Rightarrow> BirdRouteManager" where
  "NewBirdRouteManager now fault w = loadRoutesFromFile now fault (mc_file w) \<lparr>bm_routes = []\<rparr>"

definition config_text :: "string \<Rightarrow> string \<Rightarrow> string \<Rightarrow> string" where
  "config_text prefix nexthop description =
     (if description \<noteq> '''' then ''# '' @ description @ [newline] else '''') @
     (if nexthop = ''blackhole'' then ''route '' @ prefix @ '' blackhole;'' @ [newline]
      else ''route '' @ prefix @ '' via '' @ nexthop @ '';'' @ [newline])"

text \<open>Whether the text was written, and the file; a failed write may leave the start of it.\<close>

definition appendToConfigFile ::
  "io_fault \<Rightarrow> string \<Rightarrow> string \<Rightarrow> string \<Rightarrow> string option \<Rightarrow> bool \<times> string option" where
  "appendToConfigFile fault prefix nexthop description file =
     (let old = (case file of None \<Rightarrow> '''' | Some content \<Rightarrow> content);
          new = config_text prefix nexthop description
      in case fault of
        Io_open \<Rightarrow> (False, file)
      | Io_write n \<Rightarrow> (False, Some (old @ take n new))
      | _ \<Rightarrow> (True, Some (old @ new)))"

fun remove_lines :: "string \<Rightarrow> bool \<Rightarrow> string list \<Rightarrow> string list" where
  "remove_lines prefix skipNext [] = []"
| "remove_lines prefix skipNext (line # ls) =
     (let trimmed = TrimSpace line
      in if skipNext \<and> HasPrefix trimmed ''#'' then remove_lines prefix skipNext ls
         else if HasPrefix trimmed (''route '' @ prefix) then remove_lines prefix True ls
         else line # remove_lines prefix False ls)"

definition removeFromConfigFile :: "io_fault \<Rightarrow> string \<Rightarrow> string option \<Rightarrow> bool \<times> string option" where
  "removeFromConfigFile fault prefix file =
     (case file of
        None \<Rightarrow> (False, file)
      | Some content \<Rightarrow>
          if fault \<noteq> Io_ok then (False, file)
          else (True, Some (unlines (remove_lines prefix False (lines_of content)))))"

section \<open>Operations\<close>

definition birdExec :: "'b birdc \<Rightarrow> string \<Rightarrow> 'b machine \<Rightarrow> (string + string) \<times> 'b machine" where
  "birdExec birdc command w =
     (case birdc (mc_bird w) command of
        (bird, ok, output) \<Rightarrow> ((if ok then Inr output else Inl output), w\<lparr>mc_bird := bird\<rparr>))"

definition getRouteType :: "string \<Rightarrow> string" where
  "getRouteType nexthop =
     (if nexthop = ''blackhole'' then ''blackhole''
      else if HasPrefix nexthop ''10.8.'' \<or> HasPrefix nexthop ''192.168.'' then ''vpn''
      else ''other'')"

definition count_op :: "string \<Rightarrow> string \<Rightarrow> 'b machine \<Rightarrow> 'b machine" where
  "count_op operation type w =
     w\<lparr>mc_ops := AList.update (operation, type)
         (Suc (case map_of (mc_ops w) (operation, type) of None \<Rightarrow> 0 | Some n \<Rightarrow> n)) (mc_ops w)\<rparr>"

definition inc_count :: "string \<Rightarrow> (string, int) gomap \<Rightarrow> (string, int) gomap" where
  "inc_count type counts =
     AList.update type ((case map_of counts type of None \<Rightarrow> 0 | Some n \<Rightarrow> n) + 1) counts"

definition bird_add_command :: "string \<Rightarrow> string \<Rightarrow> string" where
  "bird_add_command prefix nexthop =
     (if nexthop = ''blackhole'' then ''route add '' @ prefix @ '' blackhole''
      else ''route add '' @ prefix @ '' via '' @ nexthop)"

definition AddRoute ::
  "'b birdc \<Rightarrow> io_fault \<Rightarrow> time \<Rightarrow> string \<Rightarrow> string \<Rightarrow> string \<Rightarrow> BirdRouteManager \<Rightarrow> 'b machine \<Rightarrow>
   route_error option \<times> BirdRouteManager \<times> 'b machine" where
  "AddRoute birdc fault now prefix nexthop description b w =
     (if \<not> validateCIDR prefix then (Some (InvalidCIDR prefix), b, w)
      else if map_of (bm_routes b) prefix \<noteq> None then (Some (RouteExists prefix), b, w)
      else case birdExec birdc (bird_add_command prefix nexthop) w of
        (Inl output, w1) \<Rightarrow> (Some (BirdFailed output), b, w1)
      | (Inr _, w1) \<Rightarrow>
          (case appendToConfigFile fault prefix nexthop description (mc_file w1) of
             (False, file) \<Rightarrow>
               (Some AppendFailed, b, snd (birdExec birdc (''route del '' @ prefix) (w1\<lparr>mc_file := file\<rparr>)))
           | (True, file) \<Rightarrow>
               (let b1 = b\<lparr>bm_routes := AList.update prefix
                      \<lparr>ri_Prefix = prefix, ri_Nexthop = nexthop, ri_Description = description,
                       ri_CreatedAt = now\<rparr> (bm_routes b)\<rparr>;
                    w2 = count_op ''add'' (getRouteType nexthop) (w1\<lparr>mc_file := file\<rparr>)
                in (None, b1, w2\<lparr>mc_count := inc_count (getRouteType nexthop) (mc_count w2), mc_last := now\<rparr>))))"

definition DeleteRoute ::
  "'b birdc \<Rightarrow> io_fault \<Rightarrow> time \<Rightarrow> string \<Rightarrow> BirdRouteManager \<Rightarrow> 'b machine \<Rightarrow>
   route_error option \<times> BirdRouteManager \<times> 'b machine" where
  "DeleteRoute birdc fault now prefix b w =
     (if map_of (bm_routes b) prefix = None then (Some (RouteNotFound prefix), b, w)
      else let w1 = snd (birdExec birdc (''route del '' @ prefix) w)
           in case removeFromConfigFile fault prefix (mc_file w1) of
                (False, file) \<Rightarrow> (Some RemoveFailed, b, w1\<lparr>mc_file := file\<rparr>)
              | (True, file) \<Rightarrow>
                  (None, b\<lparr>bm_routes := AList.delete prefix (bm_routes b)\<rparr>,
                   (count_op ''delete'' ''unknown'' (w1\<lparr>mc_file := file\<rparr>))\<lparr>mc_last := now\<rparr>))"

definition ListRoutes :: "BirdRouteManager \<Rightarrow> (string, RouteInfo) gomap" where
  "ListRoutes b = put_all (bm_routes b) []"

definition GetRoutesFromBird :: "'b birdc \<Rightarrow> 'b machine \<Rightarrow> (string + string) \<times> 'b machine" where
  "GetRoutesFromBird birdc w = birdExec birdc ''show route protocol static_dyn'' w"

text \<open>The gauge is set to the number of routes of each type that the file holds.\<close>

definition updateRouteMetrics :: "time \<Rightarrow> io_fault \<Rightarrow> 'b machine \<Rightarrow> 'b machine" where
  "updateRouteMetrics now fault w =
     (let routes = ListRoutes (NewBirdRouteManager now fault w);
          counts = foldl (\<lambda>counts (_, route). inc_count (getRouteType (ri_Nexthop route)) counts)
                     [(''blackhole'', 0), (''vpn'', 0), (''other'', 0)] routes
      in w\<lparr>mc_count := put_all counts (mc_count w)\<rparr>)"

section \<open>Handlers\<close>

record AddRouteRequest =
  rq_Prefix :: string
  rq_Nexthop :: string
  rq_Description :: string

datatype reply =
    BadRequest string | Refused route_error | Unavailable | Added string | Deleted string
  | Listing "(string, RouteInfo) gomap" "string + string" nat time | Healthy time | Metrics | StaticFile

text \<open>\<open>None\<close> is a body that does not decode.\<close>

definition addRouteHandler ::
  "'b birdc \<Rightarrow> io_fault \<Rightarrow> time \<Rightarrow> AddRouteRequest option \<Rightarrow> 'b machine \<Rightarrow> reply \<times> 'b machine" where
  "addRouteHandler birdc fault now body w =
     (case body of
        None \<Rightarrow> (BadRequest ''invalid JSON'', w)
      | Some req \<Rightarrow>
          if rq_Prefix req = '''' then (BadRequest ''prefix is required'', w)
          else let nexthop = (if rq_Nexthop req = '''' then ''blackhole'' else rq_Nexthop req)
               in case AddRoute birdc fault now (rq_Prefix req) nexthop (rq_Description req)
                         (NewBirdRouteManager now fault w) w of
                    (Some e, _, w') \<Rightarrow> (Refused e, w')
                  | (None, _, w') \<Rightarrow> (Added (rq_Prefix req), w'))"

definition deleteRouteHandler ::
  "'b birdc \<Rightarrow> io_fault \<Rightarrow> time \<Rightarrow> (string, string) gomap \<Rightarrow> 'b machine \<Rightarrow> reply \<times> 'b machine" where
  "deleteRouteHandler birdc fault now vars w =
     (let prefix = (case map_of vars ''prefix'' of None \<Rightarrow> '''' | Some p \<Rightarrow> p)
      in if prefix = '''' then (BadRequest ''prefix is required'', w)
         else case DeleteRoute birdc fault now prefix (NewBirdRouteManager now fault w) w of
                (Some e, _, w') \<Rightarrow> (Refused e, w')
              | (None, _, w') \<Rightarrow> (Deleted prefix, w'))"

definition listRoutesHandler :: "'b birdc \<Rightarrow> io_fault \<Rightarrow> time \<Rightarrow> 'b machine \<Rightarrow> reply \<times> 'b machine" where
  "listRoutesHandler birdc fault now w =
     (let routes = ListRoutes (NewBirdRouteManager now fault w)
      in case GetRoutesFromBird birdc w of
           (birdRoutes, w') \<Rightarrow> (Listing routes birdRoutes (length routes) now, w'))"

definition healthHandler :: "'b birdc \<Rightarrow> time \<Rightarrow> 'b machine \<Rightarrow> reply \<times> 'b machine" where
  "healthHandler birdc now w =
     (case birdExec birdc ''show status'' w of
        (Inl _, w') \<Rightarrow> (Unavailable, w') | (Inr _, w') \<Rightarrow> (Healthy now, w'))"

text \<open>
  The router of \<^verbatim>\<open>main\<close>: the first route whose pattern and method match. \<open>mux pattern path\<close> is the
  matching of \<^verbatim>\<open>gorilla/mux\<close>: the variables of the path, or \<open>None\<close>. The last route takes every
  other request.
\<close>

type_synonym mux = "string \<Rightarrow> string \<Rightarrow> (string, string) gomap option"

record api_request =
  aq_Method :: string
  aq_Path :: string
  aq_Body :: "AddRouteRequest option"

definition route_pattern :: string where "route_pattern = ''/api/v1/route/{prefix}''"

definition route_request ::
  "mux \<Rightarrow> 'b birdc \<Rightarrow> io_fault \<Rightarrow> time \<Rightarrow> api_request \<Rightarrow> 'b machine \<Rightarrow> reply \<times> 'b machine" where
  "route_request mux birdc fault now r w =
     (if mux ''/api/v1/route'' (aq_Path r) \<noteq> None \<and> aq_Method r = ''POST''
        then addRouteHandler birdc fault now (aq_Body r) w
      else case (if aq_Method r = ''DELETE'' then mux route_pattern (aq_Path r) else None) of
        Some vars \<Rightarrow> deleteRouteHandler birdc fault now vars w
      | None \<Rightarrow>
          if mux ''/api/v1/routes'' (aq_Path r) \<noteq> None \<and> aq_Method r = ''GET''
            then listRoutesHandler birdc fault now w
          else if mux ''/health'' (aq_Path r) \<noteq> None \<and> aq_Method r = ''GET''
            then healthHandler birdc now w
          else if mux ''/metrics'' (aq_Path r) \<noteq> None then (Metrics, w)
          else (StaticFile, w))"

text \<open>A history of requests, each with the fault and the time it meets.\<close>

fun serve ::
  "mux \<Rightarrow> 'b birdc \<Rightarrow> (io_fault \<times> time \<times> api_request) list \<Rightarrow> 'b machine \<Rightarrow> 'b machine" where
  "serve mux birdc [] w = w"
| "serve mux birdc ((fault, now, r) # rs) w = serve mux birdc rs (snd (route_request mux birdc fault now r w))"

end
