(* ===== verification/Route_Manager_Props.thy ===== *)
theory Route_Manager_Props
  imports Route_Manager
begin

text \<open>
  What the API of the route manager promises and what it does: how a route that was added is read
  back, that the service keeps its file readable, and the consequences of matching routes by text.
\<close>

section \<open>The lines of a route\<close>

definition no_newline :: "string \<Rightarrow> bool" where
  "no_newline s \<longleftrightarrow> newline \<notin> set s"

definition stored_nexthop :: "string \<Rightarrow> string" where
  "stored_nexthop nexthop = (if nexthop = ''blackhole'' then ''blackhole;'' else ''via'')"

definition stored_line :: "string \<Rightarrow> string \<Rightarrow> string" where
  "stored_line prefix nexthop =
     (if nexthop = ''blackhole'' then ''route '' @ prefix @ '' blackhole;''
      else ''route '' @ prefix @ '' via '' @ nexthop @ '';'')"

lemma space_char: "is_space CHR '' ''"
  by (simp add: char_defs)

lemma letters_not_space:
  "\<not> is_space CHR ''r''" "\<not> is_space CHR '';''" "\<not> is_space CHR ''#''"
  by (simp_all add: char_defs)

lemma TrimSpace_stored_line [simp]: "TrimSpace (stored_line prefix nexthop) = stored_line prefix nexthop"
  by (rule TrimSpace_id) (auto simp: stored_line_def letters_not_space)

lemma config_text_lines:
  "config_text prefix nexthop d =
   (if d = '''' then '''' else (''# '' @ d) @ [newline]) @ stored_line prefix nexthop @ [newline]"
  by (simp add: config_text_def stored_line_def)

lemma complete_config_text [simp]: "complete (config_text prefix nexthop d)"
  by (simp add: config_text_lines complete_def)

lemma Fields_words:
  "w \<noteq> '''' \<Longrightarrow> \<forall>c \<in> set w. \<not> is_space c \<Longrightarrow> Fields (w @ CHR '' '' # s) = w # Fields s"
  by (rule Fields_Cons) (auto simp: space_char)

lemma parse_stored_line:
  assumes p: "ParseCIDR prefix"
  shows "parse_route (stored_line prefix nexthop) = Some (prefix, stored_nexthop nexthop)"
proof -
  have w: "\<forall>c \<in> set prefix. \<not> is_space c" "prefix \<noteq> ''''" using ParseCIDR_shape [OF p] by auto
  have r: "\<forall>c \<in> set ''route''. \<not> is_space c" "\<forall>c \<in> set ''via''. \<not> is_space c"
    "\<forall>c \<in> set ''blackhole;''. \<not> is_space c" by (simp_all add: char_defs)
  have f: "Fields (''route '' @ s) = ''route'' # Fields s" for s
    using Fields_words [OF _ r(1), of s] by simp
  show ?thesis
  proof (cases "nexthop = ''blackhole''")
    case True
    have "Fields (stored_line prefix nexthop) = [''route'', prefix, ''blackhole;'']"
      using True Fields_words [OF w(2) w(1), of "''blackhole;''"] Fields_word [of "''blackhole;''"] r(3)
      by (simp add: stored_line_def f [simplified])
    then show ?thesis using True
      by (simp add: parse_route_def stored_nexthop_def HasSuffix_iff stored_line_def)
  next
    case False
    have v: "Fields (''via '' @ s) = ''via'' # Fields s" for s using Fields_words [OF _ r(2), of s] by simp
    have "Fields (stored_line prefix nexthop) = ''route'' # prefix # ''via'' # Fields (nexthop @ '';'')"
      using False Fields_words [OF w(2) w(1), of "''via '' @ nexthop @ '';''"]
      by (simp add: stored_line_def f [simplified] v [simplified])
    moreover have "Fields (nexthop @ '';'') \<noteq> []"
      by (rule Fields_nonempty [of "CHR '';''"]) (simp_all add: letters_not_space)
    ultimately show ?thesis using False
      by (cases "Fields (nexthop @ '';'')")
        (simp_all add: parse_route_def stored_nexthop_def HasSuffix_iff stored_line_def)
  qed
qed

lemma CIDR_no_newline: "ParseCIDR prefix \<Longrightarrow> no_newline prefix"
  using ParseCIDR_shape(2) [of prefix newline] by (auto simp: no_newline_def)

lemma stored_line_no_newline:
  "ParseCIDR prefix \<Longrightarrow> no_newline nexthop \<Longrightarrow> no_newline (stored_line prefix nexthop)"
  using CIDR_no_newline [of prefix] by (simp add: no_newline_def stored_line_def newline_def)

lemma lines_of_config_text:
  assumes "ParseCIDR prefix" "no_newline nexthop" "no_newline d"
  shows "lines_of (config_text prefix nexthop d @ rest) =
    (if d = '''' then [] else [''# '' @ d]) @ stored_line prefix nexthop # lines_of rest"
proof -
  have "newline \<notin> set (stored_line prefix nexthop)" "newline \<notin> set (''# '' @ d)"
    using stored_line_no_newline [OF assms(1,2)] assms(3) by (auto simp: no_newline_def newline_def)
  then show ?thesis using lines_of_line [of "''# '' @ d"] lines_of_line [of "stored_line prefix nexthop"]
    by (simp add: config_text_lines)
qed

section \<open>Reading a file\<close>

definition loaded :: "time \<Rightarrow> string \<Rightarrow> string \<times> (string, RouteInfo) gomap" where
  "loaded now content = foldl (load_line now) ('''', []) (lines_of content)"

lemma New_loaded:
  "bm_routes (NewBirdRouteManager now fault w) =
   (if fault = Io_read then [] else case mc_file w of None \<Rightarrow> [] | Some content \<Rightarrow> snd (loaded now content))"
  by (simp add: NewBirdRouteManager_def loadRoutesFromFile_def loaded_def split: option.split)

lemma load_line_empty [simp]: "load_line now acc '''' = acc"
  by (cases acc) (simp add: load_line_def TrimSpace_def parse_route_def)

lemma comment_line [simp]: "HasPrefix (TrimSpace (''# '' @ d)) ''#''"
proof -
  have "dropWhile is_space (rev (''# '' @ d)) = dropWhile is_space (rev d @ '' '') @ ''#''"
    using dropWhile_append3 [of is_space "CHR ''#''" "rev d @ '' ''" "[]"] letters_not_space(3) by simp
  then show ?thesis using letters_not_space(3) by (simp add: TrimSpace_def)
qed

lemma load_line_comment: "load_line now (c, m) (''# '' @ d) = (TrimPrefix (TrimSpace (''# '' @ d)) ''# '', m)"
  using comment_line [of d] by (simp add: load_line_def)

lemma stored_line_no_comment [simp]: "\<not> HasPrefix (stored_line prefix nexthop) ''#''"
  by (simp add: stored_line_def)

lemma load_line_stored:
  "ParseCIDR prefix \<Longrightarrow> load_line now (c, m) (stored_line prefix nexthop) =
   ('''', AList.update prefix \<lparr>ri_Prefix = prefix, ri_Nexthop = stored_nexthop nexthop,
      ri_Description = c, ri_CreatedAt = now\<rparr> m)"
  using parse_stored_line [of prefix nexthop] by (simp add: load_line_def)

lemma loaded_append:
  assumes "complete a"
  shows "loaded now (a @ b) = foldl (load_line now) (loaded now a) (lines_of b)"
proof -
  have a: "lines_of a = butlast (lines_of a) @ ['''']"
    using last_lines_of_complete [OF assms] append_butlast_last_id [of "lines_of a"]
    by (simp add: lines_of_def)
  have "foldl (load_line now) z (lines_of a) = foldl (load_line now) z (butlast (lines_of a))" for z
    by (subst a) simp
  then show ?thesis by (simp add: loaded_def lines_of_complete_append [OF assms])
qed

text \<open>The description that the loader reads from the comment of a route.\<close>

definition read_description :: "string \<Rightarrow> string \<Rightarrow> string" where
  "read_description pending d = (if d = '''' then pending else TrimPrefix (TrimSpace (''# '' @ d)) ''# '')"

lemma read_description_id:
  "d \<noteq> '''' \<Longrightarrow> \<not> is_space (last d) \<Longrightarrow> read_description pending d = d"
  using TrimSpace_id [of "''# '' @ d"] letters_not_space(3)
  by (simp add: read_description_def TrimPrefix_def)

text \<open>The comment a file leaves for the next route: that of its last comment line, unless a route
  follows it. The lines are given from the last one.\<close>

fun pending_comment :: "string list \<Rightarrow> string" where
  "pending_comment [] = ''''"
| "pending_comment (l # ls) =
     (if HasPrefix (TrimSpace l) ''#'' then TrimPrefix (TrimSpace l) ''# ''
      else if parse_route (TrimSpace l) \<noteq> None then '''' else pending_comment ls)"

lemma loaded_pending: "fst (loaded now content) = pending_comment (rev (lines_of content))"
proof -
  have "fst (foldl (load_line now) ('''', m) ls) = pending_comment (rev ls)" for ls m
    by (induction ls rule: rev_induct) (auto simp: load_line_def Let_def split: prod.split option.split)
  then show ?thesis by (simp add: loaded_def)
qed

text \<open>The description of a comment line: without the white space at its end, and \<^verbatim>\<open>#\<close> for nothing else.\<close>

lemma read_description_cases:
  "read_description pending d =
     (if d = '''' then pending else if \<forall>c \<in> set d. is_space c then ''#'' else rev (dropWhile is_space (rev d)))"
proof (cases "\<forall>c \<in> set d. is_space c")
  case True
  then have "dropWhile is_space (rev d @ '' '' @ ''#'') = ''#''"
    using letters_not_space(3) space_char by (subst dropWhile_append2) auto
  then show ?thesis using True letters_not_space(3)
    by (simp add: read_description_def TrimSpace_def TrimPrefix_def HasPrefix_def)
next
  case False
  then obtain c where "c \<in> set (rev d)" "\<not> is_space c" by auto
  from dropWhile_append1 [of c "rev d" is_space "'' #''", OF this] False show ?thesis using letters_not_space(3)
    by (auto simp: read_description_def TrimSpace_def TrimPrefix_def HasPrefix_def)
qed

lemma load_config_text:
  assumes "ParseCIDR prefix" "no_newline nexthop" "no_newline d"
  shows "foldl (load_line now) (c, m) (lines_of (config_text prefix nexthop d @ rest)) =
    foldl (load_line now) ('''', AList.update prefix \<lparr>ri_Prefix = prefix, ri_Nexthop = stored_nexthop nexthop,
      ri_Description = read_description c d, ri_CreatedAt = now\<rparr> m) (lines_of rest)"
  by (simp add: lines_of_config_text [OF assms] load_line_stored [OF assms(1)] load_line_comment
      read_description_def del: append_Cons)

lemma loaded_config_text:
  assumes "complete a" "ParseCIDR prefix" "no_newline nexthop" "no_newline d"
  shows "loaded now (a @ config_text prefix nexthop d) =
    ('''', AList.update prefix \<lparr>ri_Prefix = prefix, ri_Nexthop = stored_nexthop nexthop,
      ri_Description = read_description (fst (loaded now a)) d, ri_CreatedAt = now\<rparr> (snd (loaded now a)))"
  using load_config_text [OF assms(2-4), of now "fst (loaded now a)" "snd (loaded now a)" "[]"]
  by (simp add: loaded_append [OF assms(1)] lines_of_def)

section \<open>What a successful addition leaves\<close>

definition old_text :: "string option \<Rightarrow> string" where
  "old_text file = (case file of None \<Rightarrow> '''' | Some content \<Rightarrow> content)"

lemma loaded_old_text:
  "snd (loaded now (old_text f)) = bm_routes (loadRoutesFromFile now Io_ok f \<lparr>bm_routes = []\<rparr>)"
  by (cases f) (simp_all add: old_text_def loaded_def loadRoutesFromFile_def lines_of_def)

lemma birdExec_eq:
  "birdExec birdc command w =
   (case birdc (mc_bird w) command of
      (bird, ok, out) \<Rightarrow> ((if ok then Inr out else Inl out), w\<lparr>mc_bird := bird\<rparr>))"
  by (rule birdExec_def)

text \<open>Every way through \<^verbatim>\<open>AddRoute\<close>, by what it did to the file and to BIRD.\<close>

lemma AddRoute_cases:
  obtains (invalid) "\<not> ParseCIDR prefix"
      "AddRoute birdc fault now prefix nexthop d b w = (Some (InvalidCIDR prefix), b, w)"
  | (present) "ParseCIDR prefix" "map_of (bm_routes b) prefix \<noteq> None"
      "AddRoute birdc fault now prefix nexthop d b w = (Some (RouteExists prefix), b, w)"
  | (bird) bird out where "ParseCIDR prefix"
      "birdc (mc_bird w) (bird_add_command prefix nexthop) = (bird, False, out)"
      "AddRoute birdc fault now prefix nexthop d b w = (Some (BirdFailed out), b, w\<lparr>mc_bird := bird\<rparr>)"
  | (undone) bird out file2 where "ParseCIDR prefix"
      "birdc (mc_bird w) (bird_add_command prefix nexthop) = (bird, True, out)"
      "appendToConfigFile fault prefix nexthop d (mc_file w) = (False, file2)"
      "AddRoute birdc fault now prefix nexthop d b w = (Some AppendFailed, b,
         w\<lparr>mc_bird := fst (birdc bird (''route del '' @ prefix)), mc_file := file2\<rparr>)"
  | (added) bird out b' w' where "ParseCIDR prefix" "map_of (bm_routes b) prefix = None"
      "birdc (mc_bird w) (bird_add_command prefix nexthop) = (bird, True, out)"
      "AddRoute birdc fault now prefix nexthop d b w = (None, b', w')"
      "mc_file w' = Some (old_text (mc_file w) @ config_text prefix nexthop d)" "mc_bird w' = bird"
proof -
  obtain bird ok out where x: "birdc (mc_bird w) (bird_add_command prefix nexthop) = (bird, ok, out)"
    by (metis prod_cases3)
  consider "\<not> ParseCIDR prefix" | "ParseCIDR prefix" "map_of (bm_routes b) prefix \<noteq> None"
    | "ParseCIDR prefix" "map_of (bm_routes b) prefix = None" "\<not> ok"
    | "ParseCIDR prefix" "map_of (bm_routes b) prefix = None" ok by blast
  then show thesis
  proof cases
    case 4
    show thesis
    proof (cases "appendToConfigFile fault prefix nexthop d (mc_file w)")
      case (Pair written file2)
      show thesis
      proof (cases written)
        case True
        have "file2 = Some (old_text (mc_file w) @ config_text prefix nexthop d)"
          using Pair True by (auto simp: appendToConfigFile_def old_text_def Let_def split: io_fault.splits)
        then show thesis using 4 x Pair True
          by (intro added [OF 4(1,2), of bird out])
            ((simp_all add: AddRoute_def validateCIDR_def birdExec_eq count_op_def Let_def)+)
      next
        case False
        then show thesis using 4 x Pair
          by (intro undone [of bird out file2])
            (simp_all add: AddRoute_def validateCIDR_def birdExec_eq split: prod.split)
      qed
    qed
  qed (use x invalid present bird in \<open>simp_all add: AddRoute_def validateCIDR_def birdExec_eq\<close>)
qed

section \<open>A file the service keeps\<close>

text \<open>The routes of the service: the prefix contains a slash, the next hop is one of two words.\<close>

definition line_ok :: "string \<Rightarrow> bool" where
  "line_ok line =
     (case parse_route (TrimSpace line) of
        None \<Rightarrow> True
      | Some (prefix, nexthop) \<Rightarrow> CHR ''/'' \<in> set prefix \<and> nexthop \<in> {''blackhole;'', ''via''})"

definition api_file :: "string option \<Rightarrow> bool" where
  "api_file f \<longleftrightarrow> complete (old_text f) \<and> list_all line_ok (lines_of (old_text f))"

lemma api_file_None [simp]: "api_file None"
  by (simp add: api_file_def old_text_def complete_def lines_of_def line_ok_def parse_route_def TrimSpace_def)

lemma line_ok_simps:
  "line_ok ''''" "line_ok (''# '' @ d)" "ParseCIDR prefix \<Longrightarrow> line_ok (stored_line prefix nexthop)"
proof -
  show "line_ok ''''" by (simp add: line_ok_def parse_route_def TrimSpace_def)
  have "\<not> HasPrefix (TrimSpace (''# '' @ d)) ''route ''"
    using comment_line [of d] by (auto simp: HasPrefix_iff)
  then show "line_ok (''# '' @ d)" by (simp add: line_ok_def parse_route_def)
qed (auto simp: line_ok_def parse_stored_line stored_nexthop_def dest: ParseCIDR_shape(1))

lemma api_file_add:
  assumes "api_file f" "ParseCIDR prefix" "no_newline nexthop" "no_newline d"
  shows "api_file (Some (old_text f @ config_text prefix nexthop d))"
proof -
  have c: "complete (old_text f)" "list_all line_ok (lines_of (old_text f))"
    using assms(1) by (simp_all add: api_file_def)
  have "list_all line_ok (butlast (lines_of (old_text f)))"
    using c(2) by (auto simp: list_all_iff dest: in_set_butlastD)
  moreover have "list_all line_ok (lines_of (config_text prefix nexthop d))"
    using lines_of_config_text [OF assms(2-4), of "[]"] assms(2)
    by (auto simp: line_ok_simps simp del: append_Cons) (simp_all add: lines_of_def line_ok_simps)
  ultimately have "list_all line_ok (lines_of (old_text f @ config_text prefix nexthop d))"
    by (simp add: lines_of_complete_append [OF c(1)])
  with c(1) show ?thesis by (simp add: api_file_def complete_append) (simp add: old_text_def complete_append)
qed

definition api_route :: "string \<times> RouteInfo \<Rightarrow> bool" where
  "api_route kv \<longleftrightarrow> CHR ''/'' \<in> set (fst kv) \<and> ri_Nexthop (snd kv) \<in> {''blackhole;'', ''via''}"

lemma load_line_ok:
  assumes "line_ok l" "list_all api_route m" "wf_map m"
  shows "wf_map (snd (load_line now (c, m) l)) \<and> list_all api_route (snd (load_line now (c, m) l))"
proof (cases "parse_route (TrimSpace l)")
  case (Some pn)
  obtain p n where pn: "pn = (p, n)" by (cases pn)
  with assms(1) Some have "api_route (p, \<lparr>ri_Prefix = p, ri_Nexthop = n, ri_Description = c, ri_CreatedAt = now\<rparr>)"
    by (simp add: line_ok_def api_route_def)
  then show ?thesis using assms(2,3) Some pn
    by (auto simp: load_line_def Let_def list_all_iff update_set)
qed (use assms in \<open>simp add: load_line_def Let_def\<close>)

lemma loaded_ok:
  "list_all line_ok ls \<Longrightarrow> list_all api_route m \<Longrightarrow> wf_map m \<Longrightarrow>
   wf_map (snd (foldl (load_line now) (c, m) ls)) \<and> list_all api_route (snd (foldl (load_line now) (c, m) ls))"
proof (induction ls arbitrary: c m)
  case (Cons l ls)
  obtain c' m' where l: "load_line now (c, m) l = (c', m')" by (cases "load_line now (c, m) l")
  from load_line_ok [of l m now c] Cons.prems l Cons.IH [of m' c'] show ?case by simp
qed auto

lemma api_file_routes:
  assumes "api_file (mc_file w)" "(k, v) \<in> set (bm_routes (NewBirdRouteManager now fault w))"
  shows "CHR ''/'' \<in> set k" "ri_Nexthop v \<in> {''blackhole;'', ''via''}"
proof -
  have "list_all line_ok (lines_of (old_text (mc_file w)))" using assms(1) by (simp add: api_file_def)
  from loaded_ok [OF this, of "[]" now "''''"] assms(2)
  show "CHR ''/'' \<in> set k" "ri_Nexthop v \<in> {''blackhole;'', ''via''}"
    by (auto simp: New_loaded loaded_def old_text_def list_all_iff api_route_def split: if_splits option.splits)
qed

lemma wf_map_routes: "api_file (mc_file w) \<Longrightarrow> wf_map (bm_routes (NewBirdRouteManager now fault w))"
  using loaded_ok [of "lines_of (old_text (mc_file w))" "[]" now "''''"]
  by (auto simp: api_file_def New_loaded loaded_def old_text_def split: option.splits)

lemma lines_no_newline: "l \<in> set (lines_of s) \<Longrightarrow> newline \<notin> set l"
proof -
  have "sep \<notin> set w" if "w \<in> set (Split sep s)" for sep w
    using that by (induction s arbitrary: w) (auto split: if_splits list.splits)
  then show "l \<in> set (lines_of s) \<Longrightarrow> newline \<notin> set l" by (simp add: lines_of_def)
qed

lemma lines_of_unlines:
  "ls \<noteq> [] \<Longrightarrow> \<forall>l \<in> set ls. newline \<notin> set l \<Longrightarrow> lines_of (unlines ls) = ls"
  unfolding lines_of_def unlines_def by (rule Split_Join)

lemma remove_lines_subset: "set (remove_lines prefix skip ls) \<subseteq> set ls"
  by (induction prefix skip ls rule: remove_lines.induct) (auto simp: Let_def)

lemma remove_lines_last: "remove_lines prefix skip (ls @ ['''']) = remove_lines prefix skip ls @ ['''']"
  by (induction prefix skip ls rule: remove_lines.induct) (auto simp: Let_def TrimSpace_def)

lemma lines_of_complete: "complete c \<Longrightarrow> lines_of c = butlast (lines_of c) @ ['''']"
  using last_lines_of_complete [of c] append_butlast_last_id [of "lines_of c"] by (simp add: lines_of_def)

lemma remove_complete:
  assumes "complete c"
  shows "lines_of (unlines (remove_lines prefix False (lines_of c))) = remove_lines prefix False (lines_of c)"
    "complete (unlines (remove_lines prefix False (lines_of c)))"
proof -
  have l: "remove_lines prefix False (lines_of c) = remove_lines prefix False (butlast (lines_of c)) @ ['''']"
    by (subst lines_of_complete [OF assms]) (rule remove_lines_last)
  have "\<forall>l \<in> set (remove_lines prefix False (lines_of c)). newline \<notin> set l"
    using remove_lines_subset [of prefix False "lines_of c"] lines_no_newline by blast
  then show "lines_of (unlines (remove_lines prefix False (lines_of c))) = remove_lines prefix False (lines_of c)"
    by (intro lines_of_unlines) (simp_all add: l)
  show "complete (unlines (remove_lines prefix False (lines_of c)))"
    by (rule unlines_complete) (simp_all add: l)
qed

lemma api_file_remove:
  assumes "api_file (Some c)"
  shows "api_file (Some (unlines (remove_lines prefix False (lines_of c))))"
proof -
  have c: "complete c" "list_all line_ok (lines_of c)" using assms by (simp_all add: api_file_def old_text_def)
  then show ?thesis using remove_complete [OF c(1), of prefix] remove_lines_subset [of prefix False "lines_of c"]
    by (auto simp: api_file_def old_text_def list_all_iff)
qed

text \<open>Requests whose texts are one line, and file operations that write all or nothing.\<close>

definition plain :: "io_fault \<times> time \<times> api_request \<Rightarrow> bool" where
  "plain x =
     (case x of (fault, _, r) \<Rightarrow>
        (case fault of Io_write n \<Rightarrow> False | _ \<Rightarrow> True) \<and>
        (case aq_Body r of None \<Rightarrow> True | Some q \<Rightarrow> no_newline (rq_Nexthop q) \<and> no_newline (rq_Description q)))"

lemma append_fails:
  "appendToConfigFile fault prefix nexthop d f = (False, g) \<Longrightarrow> (case fault of Io_write n \<Rightarrow> False | _ \<Rightarrow> True) \<Longrightarrow> g = f"
  by (auto simp: appendToConfigFile_def Let_def split: io_fault.splits)

lemma addRoute_keeps_file:
  assumes "plain (fault, now, r)" "aq_Body r = body" "api_file (mc_file w)"
  shows "api_file (mc_file (snd (addRouteHandler birdc fault now body w)))"
proof (cases "body = None \<or> rq_Prefix (the body) = ''''")
  case False
  then obtain q where q: "body = Some q" "rq_Prefix q \<noteq> ''''" by auto
  define nh where "nh = (if rq_Nexthop q = '''' then ''blackhole'' else rq_Nexthop q)"
  have n: "no_newline nh" "no_newline (rq_Description q)" "(case fault of Io_write n \<Rightarrow> False | _ \<Rightarrow> True)"
    using assms(1,2) q by (auto simp: plain_def nh_def no_newline_def newline_def)
  have h: "addRouteHandler birdc fault now body w =
      (case AddRoute birdc fault now (rq_Prefix q) nh (rq_Description q) (NewBirdRouteManager now fault w) w of
         (Some e, _, w') \<Rightarrow> (Refused e, w') | (None, _, w') \<Rightarrow> (Added (rq_Prefix q), w'))"
    using q by (simp add: addRouteHandler_def nh_def)
  show ?thesis
  proof (cases rule: AddRoute_cases [of "rq_Prefix q" birdc fault now nh "rq_Description q" "NewBirdRouteManager now fault w" w])
    case (undone bird out file2)
    then show ?thesis using assms(3) append_fails [OF undone(3) n(3)] by (simp add: h)
  next
    case (added bird out b' w')
    then show ?thesis using api_file_add [OF assms(3) added(1) n(1,2)] by (simp add: h)
  qed (use assms(3) in \<open>simp_all add: h\<close>)
qed (use assms in \<open>auto simp: addRouteHandler_def split: option.split\<close>)

lemma DeleteRoute_file:
  "mc_file (snd (snd (DeleteRoute birdc fault now prefix b w))) = mc_file w \<or>
   (\<exists>c. mc_file w = Some c \<and> mc_file (snd (snd (DeleteRoute birdc fault now prefix b w))) =
      Some (unlines (remove_lines prefix False (lines_of c))))"
  by (auto simp: DeleteRoute_def birdExec_eq removeFromConfigFile_def count_op_def Let_def split: prod.splits option.splits)

lemma route_request_keeps_file:
  assumes "plain (fault, now, r)" "api_file (mc_file w)"
  shows "api_file (mc_file (snd (route_request mux birdc fault now r w)))"
proof -
  have "api_file (mc_file (snd (snd (DeleteRoute birdc fault now p b w))))" for p b
    using DeleteRoute_file [of birdc fault now p b w] assms(2) api_file_remove [of _ p] by auto
  then have d: "api_file (mc_file (snd (deleteRouteHandler birdc fault now vars w)))" for vars
    using assms(2) by (simp add: deleteRouteHandler_def Let_def split: prod.split option.split) (metis snd_conv)
  have g: "mc_file (snd (listRoutesHandler birdc fault now w)) = mc_file w"
    "mc_file (snd (healthHandler birdc now w)) = mc_file w"
    by (auto simp: listRoutesHandler_def healthHandler_def GetRoutesFromBird_def birdExec_eq Let_def split: prod.splits sum.splits)
  show ?thesis
    using d addRoute_keeps_file [OF assms(1) refl assms(2), of birdc] assms(2)
    by (auto simp: route_request_def g split: option.splits)
qed

lemma serve_keeps_file:
  "list_all plain rs \<Longrightarrow> api_file (mc_file w) \<Longrightarrow> api_file (mc_file (serve mux birdc rs w))"
  by (induction mux birdc rs w rule: serve.induct) (auto intro: route_request_keeps_file)

section \<open>Files made of entries\<close>

type_synonym entry = "string \<times> string \<times> string"

definition entries_text :: "entry list \<Rightarrow> string" where
  "entries_text es = concat (map (\<lambda>(prefix, nexthop, d). config_text prefix nexthop d) es)"

fun entry_lines :: "entry \<Rightarrow> string list" where
  "entry_lines (prefix, nexthop, d) =
     (if d = '''' then [] else [''# '' @ d]) @ [stored_line prefix nexthop]"

fun entry_ok :: "entry \<Rightarrow> bool" where
  "entry_ok (prefix, nexthop, d) \<longleftrightarrow> ParseCIDR prefix \<and> no_newline nexthop \<and> no_newline d"

lemma lines_of_entries:
  "list_all entry_ok es \<Longrightarrow> lines_of (entries_text es) = concat (map entry_lines es) @ ['''']"
proof (induction es)
  case (Cons e es)
  obtain p n d where e: "e = (p, n, d)" by (cases e)
  from Cons lines_of_config_text [of p n d "entries_text es"] show ?case
    by (simp add: e entries_text_def del: append_Cons)
qed (simp add: entries_text_def lines_of_def)

lemma complete_entries: "complete (entries_text es)"
proof (induction es)
  case (Cons e es)
  then show ?case by (cases e) (simp add: entries_text_def complete_append)
qed (simp add: entries_text_def complete_def)

text \<open>The keys a list of lines loads.\<close>

definition line_key :: "string \<Rightarrow> string option" where
  "line_key l = (if HasPrefix (TrimSpace l) ''#'' then None else map_option fst (parse_route (TrimSpace l)))"

lemma loaded_keys:
  "dom (map_of (snd (foldl (load_line now) (c, m) ls))) = dom (map_of m) \<union> {k. \<exists>l \<in> set ls. line_key l = Some k}"
proof (induction ls arbitrary: c m)
  case (Cons l ls)
  obtain c' m' where l: "load_line now (c, m) l = (c', m')" by (cases "load_line now (c, m) l")
  have "dom (map_of m') = dom (map_of m) \<union> {k. line_key l = Some k}"
    using l by (auto simp: load_line_def line_key_def Let_def split: if_splits option.splits)
  then show ?case using Cons.IH [of c' m'] by (auto simp: l)
qed simp

lemma line_key_simps [simp]:
  "line_key '''' = None" "line_key (''# '' @ d) = None"
  "ParseCIDR prefix \<Longrightarrow> line_key (stored_line prefix nexthop) = Some prefix"
  using comment_line [of d] by (simp_all add: line_key_def parse_stored_line) (simp add: TrimSpace_def parse_route_def)

text \<open>Which lines \<^verbatim>\<open>removeFromConfigFile\<close> drops: every route line that starts with the prefix, and no
  other one.\<close>

lemma route_line_removed:
  "\<not> HasPrefix (TrimSpace l) ''#'' \<Longrightarrow>
   l \<in> set (remove_lines p skip ls) \<longleftrightarrow> l \<in> set ls \<and> \<not> HasPrefix (TrimSpace l) (''route '' @ p)"
  by (induction p skip ls rule: remove_lines.induct) (auto simp: Let_def)

lemma HasPrefix_before_space:
  "\<forall>c \<in> set p. \<not> is_space c \<Longrightarrow> HasPrefix (q @ CHR '' '' # s) p \<longleftrightarrow> HasPrefix q p"
proof (induction p arbitrary: q)
  case (Cons c p)
  then show ?case by (cases q) (auto simp: space_char)
qed simp

lemma stored_line_prefix:
  "ParseCIDR p \<Longrightarrow> HasPrefix (stored_line q n) (''route '' @ p) \<longleftrightarrow> HasPrefix q p"
  using HasPrefix_before_space [of p q "''blackhole;''"] HasPrefix_before_space [of p q "''via '' @ n @ '';''"]
    ParseCIDR_shape(2) [of p]
  by (simp add: stored_line_def)

lemma keyed_lines:
  "list_all entry_ok es \<Longrightarrow> l \<in> set (lines_of (entries_text es)) \<and> line_key l = Some k \<longleftrightarrow>
   (\<exists>n d. (k, n, d) \<in> set es \<and> l = stored_line k n)"
proof (induction es)
  case Nil
  then show ?case by (auto simp: entries_text_def lines_of_def)
next
  case (Cons e es)
  obtain p n d where e: "e = (p, n, d)" by (cases e)
  have "l \<in> set (entry_lines e) \<and> line_key l = Some k \<longleftrightarrow> k = p \<and> l = stored_line k n"
    using Cons.prems by (auto simp: e simp del: append_Cons)
  moreover have "set (lines_of (entries_text (e # es))) = set (entry_lines e) \<union> set (lines_of (entries_text es))"
    using Cons.prems by (auto simp: lines_of_entries)
  ultimately show ?case using Cons.IH Cons.prems by (auto simp: e)
qed

lemma removed_keys:
  assumes "list_all entry_ok es" "ParseCIDR p"
  shows "(\<exists>l \<in> set (remove_lines p False (lines_of (entries_text es))). line_key l = Some k) \<longleftrightarrow>
    k \<in> fst ` set es \<and> \<not> HasPrefix k p"
proof -
  have r: "line_key l = Some k \<Longrightarrow> l \<in> set (remove_lines p False ls) \<longleftrightarrow>
      l \<in> set ls \<and> \<not> HasPrefix (TrimSpace l) (''route '' @ p)" for l ls
    by (rule route_line_removed) (simp add: line_key_def split: if_splits)
  have "(\<exists>l \<in> set (remove_lines p False (lines_of (entries_text es))). line_key l = Some k) \<longleftrightarrow>
        (\<exists>l. (l \<in> set (lines_of (entries_text es)) \<and> line_key l = Some k) \<and> \<not> HasPrefix (TrimSpace l) (''route '' @ p))"
    using r by blast
  also have "\<dots> \<longleftrightarrow> (\<exists>n d. (k, n, d) \<in> set es \<and> \<not> HasPrefix k p)"
    unfolding keyed_lines [OF assms(1)] ex_simps(1) [symmetric]
    by (metis (no_types, lifting) TrimSpace_stored_line stored_line_prefix [OF assms(2)])
  finally show ?thesis by force
qed

lemma entries_keys:
  assumes "list_all entry_ok es"
  shows "(\<exists>l \<in> set (lines_of (entries_text es)). line_key l = Some k) \<longleftrightarrow> k \<in> fst ` set es"
proof -
  have "(\<exists>l \<in> set (lines_of (entries_text es)). line_key l = Some k) \<longleftrightarrow> (\<exists>l n d. (k, n, d) \<in> set es \<and> l = stored_line k n)"
    unfolding Bex_def keyed_lines [OF assms, symmetric] ..
  then show ?thesis by (simp add: image_iff Bex_def)
qed

section \<open>Properties\<close>

lemma addRouteHandler_Added:
  assumes "addRouteHandler birdc fault now (Some r) w = (Added p, w')"
  defines "nh \<equiv> if rq_Nexthop r = '''' then ''blackhole'' else rq_Nexthop r"
  shows "p = rq_Prefix r" "ParseCIDR p"
    "mc_file w' = Some (old_text (mc_file w) @ config_text p nh (rq_Description r))"
    "birdc (mc_bird w) (bird_add_command p nh) = (mc_bird w', True, snd (snd (birdc (mc_bird w) (bird_add_command p nh))))"
proof -
  have ne: "rq_Prefix r \<noteq> ''''" using assms(1) by (auto simp: addRouteHandler_def split: if_splits)
  have h: "(case AddRoute birdc fault now (rq_Prefix r) nh (rq_Description r) (NewBirdRouteManager now fault w) w of
      (Some e, _, w') \<Rightarrow> (Refused e, w') | (None, _, w') \<Rightarrow> (Added (rq_Prefix r), w')) = (Added p, w')"
    using assms(1) ne by (simp add: addRouteHandler_def nh_def)
  show "p = rq_Prefix r" "ParseCIDR p"
    "mc_file w' = Some (old_text (mc_file w) @ config_text p nh (rq_Description r))"
    "birdc (mc_bird w) (bird_add_command p nh) = (mc_bird w', True, snd (snd (birdc (mc_bird w) (bird_add_command p nh))))"
    using h by (cases rule: AddRoute_cases [of "rq_Prefix r" birdc fault now nh "rq_Description r"
          "NewBirdRouteManager now fault w" w]; simp)+
qed

lemma New_Io_ok: "bm_routes (NewBirdRouteManager now Io_ok w) = snd (loaded now (old_text (mc_file w)))"
  by (simp add: loaded_old_text NewBirdRouteManager_def)

text \<open>C37. A route that the API reports as added was given to BIRD and is read back from the file by
  every later request, with its prefix and description, and the other routes are read as before;
  but its next hop comes back as \<^verbatim>\<open>via\<close> or \<^verbatim>\<open>blackhole;\<close>, never as it was given, a description
  loses the white space at its end (one of white space only becomes \<^verbatim>\<open>#\<close>), and a route without
  description gets the comment that the file had left at its end. The next hop and the description
  are single lines and the file consists of whole lines: the API checks neither, and a line break
  in a description adds other lines to the file.\<close>

theorem added_route_reads_back:
  assumes "addRouteHandler birdc fault now (Some r) w = (Added p, w')"
    and "complete (old_text (mc_file w))"
    and "no_newline (rq_Nexthop r)" "no_newline (rq_Description r)"
  shows "fst (snd (birdc (mc_bird w)
            (bird_add_command p (if rq_Nexthop r = '''' then ''blackhole'' else rq_Nexthop r)))) \<and>
    map_of (bm_routes (NewBirdRouteManager later Io_ok w')) =
      (map_of (bm_routes (NewBirdRouteManager later Io_ok w)))(p \<mapsto>
        \<lparr>ri_Prefix = rq_Prefix r,
         ri_Nexthop = (if rq_Nexthop r = '''' \<or> rq_Nexthop r = ''blackhole'' then ''blackhole;'' else ''via''),
         ri_Description =
           (if rq_Description r = '''' then pending_comment (rev (lines_of (old_text (mc_file w))))
            else if \<forall>c \<in> set (rq_Description r). is_space c then ''#''
            else rev (dropWhile is_space (rev (rq_Description r)))),
         ri_CreatedAt = later\<rparr>)
    \<and> (rq_Description r \<noteq> '''' \<and> \<not> is_space (last (rq_Description r)) \<longrightarrow>
         map_option ri_Description (map_of (bm_routes (NewBirdRouteManager later Io_ok w')) p) = Some (rq_Description r))"
proof -
  define nh where "nh = (if rq_Nexthop r = '''' then ''blackhole'' else rq_Nexthop r)"
  note a = addRouteHandler_Added [OF assms(1), folded nh_def]
  have n: "no_newline nh" using assms(3) by (simp add: nh_def no_newline_def newline_def)
  have bird: "fst (snd (birdc (mc_bird w) (bird_add_command p nh)))" by (subst a(4)) simp
  have o: "old_text (mc_file w') = old_text (mc_file w) @ config_text p nh (rq_Description r)"
    by (simp add: old_text_def a(3))
  have s: "stored_nexthop nh = (if rq_Nexthop r = '''' \<or> rq_Nexthop r = ''blackhole'' then ''blackhole;'' else ''via'')"
    by (simp add: nh_def stored_nexthop_def)
  note l = loaded_config_text [OF assms(2) a(2) n assms(4), of later]
  show ?thesis
    using bird o s l read_description_id [of "rq_Description r"] a(1)
    by (simp add: New_Io_ok nh_def loaded_pending flip: read_description_cases)
qed

lemma Deleted_prefix:
  assumes "DeleteRoute birdc Io_ok now p (NewBirdRouteManager now Io_ok w) w = (e, b, w')"
    "mc_file w = Some c" "p \<in> dom (map_of (snd (loaded now c)))"
  shows "e = None" "mc_file w' = Some (unlines (remove_lines p False (lines_of c)))"
    "mc_bird w' = fst (birdc (mc_bird w) (''route del '' @ p))"
  using assms by (auto simp: DeleteRoute_def New_Io_ok old_text_def birdExec_eq removeFromConfigFile_def
      count_op_def Let_def split: prod.splits)

text \<open>Deleting a route removes from the file exactly the routes whose prefix, as text, starts with
  the one that is deleted: deleting \<^verbatim>\<open>10.0.0.0/1\<close> also loses \<^verbatim>\<open>10.0.0.0/16\<close>, while BIRD is told to
  delete the one route only and keeps the others.\<close>

theorem delete_removes_every_text_prefix:
  assumes "list_all entry_ok es" "mc_file w = Some (entries_text es)" "p \<in> fst ` set es"
    and "DeleteRoute birdc Io_ok now p (NewBirdRouteManager now Io_ok w) w = (e, b, w')"
  shows "e = None \<and> mc_bird w' = fst (birdc (mc_bird w) (''route del '' @ p)) \<and>
    dom (map_of (bm_routes (NewBirdRouteManager later Io_ok w'))) = {k \<in> fst ` set es. \<not> HasPrefix k p}"
proof -
  have "p \<in> dom (map_of (snd (loaded now (entries_text es))))"
    using assms(3) by (simp add: loaded_def loaded_keys entries_keys [OF assms(1)])
  note d = Deleted_prefix [OF assms(4,2) this]
  have P: "ParseCIDR p" using assms(1,3) by (auto simp: list_all_iff)
  show ?thesis using d removed_keys [OF assms(1) P]
    by (simp add: New_Io_ok old_text_def loaded_def loaded_keys remove_complete(1) complete_entries)
qed

text \<open>Deleting the first of two routes takes the comment that follows it, which is the
  description of the second, and leaves its own, so that the second route is then listed with the
  description of the deleted one.\<close>

theorem delete_swaps_descriptions:
  assumes "ParseCIDR p" "ParseCIDR q" "\<not> HasPrefix q p" "no_newline n" "no_newline m" "no_newline d" "no_newline d'"
    and "d \<noteq> ''''" "\<not> is_space (last d)" "d' \<noteq> ''''"
    and "mc_file w = Some (config_text p n d @ config_text q m d')"
    and "DeleteRoute birdc Io_ok now p (NewBirdRouteManager now Io_ok w) w = (e, b, w')"
  shows "bm_routes (NewBirdRouteManager later Io_ok w') =
    [(q, \<lparr>ri_Prefix = q, ri_Nexthop = stored_nexthop m, ri_Description = d, ri_CreatedAt = later\<rparr>)]"
proof -
  let ?es = "[(p, n, d), (q, m, d')]"
  have ok: "list_all entry_ok ?es" and c: "mc_file w = Some (entries_text ?es)"
    using assms(1,2,4-7,11) by (simp_all add: entries_text_def)
  have "p \<in> dom (map_of (snd (loaded now (entries_text ?es))))"
    by (simp add: loaded_def loaded_keys entries_keys [OF ok])
  note d = Deleted_prefix [OF assms(12) c this]
  have rm: "remove_lines p False [c1, s1, c2, s2, ''''] = [c1, s2, '''']"
    if "HasPrefix (TrimSpace c1) ''#''" "HasPrefix (TrimSpace c2) ''#''" "\<not> HasPrefix (TrimSpace s1) ''#''"
      "\<not> HasPrefix (TrimSpace s2) ''#''" "HasPrefix (TrimSpace s1) (''route '' @ p)"
      "\<not> HasPrefix (TrimSpace s2) (''route '' @ p)" for c1 s1 c2 s2
  proof -
    have "\<not> HasPrefix (TrimSpace c1) (''route '' @ p)" using that(1) by (auto simp: HasPrefix_iff)
    then show ?thesis using that by (simp add: TrimSpace_def Let_def)
  qed
  have s: "\<not> HasPrefix (TrimSpace (stored_line p n)) ''#''" "\<not> HasPrefix (TrimSpace (stored_line q m)) ''#''"
    by simp_all
  have "HasPrefix (TrimSpace (stored_line p n)) (''route '' @ p)"
    "\<not> HasPrefix (TrimSpace (stored_line q m)) (''route '' @ p)"
    unfolding TrimSpace_stored_line stored_line_prefix [OF assms(1)] using assms(3) by (auto simp: HasPrefix_iff)
  note r = rm [OF comment_line comment_line s this]
  have "lines_of (entries_text ?es) = [''# '' @ d, stored_line p n, ''# '' @ d', stored_line q m, '''']"
    using assms(8,10) by (simp add: lines_of_entries [OF ok])
  then have l: "remove_lines p False (lines_of (entries_text ?es)) = [''# '' @ d, stored_line q m, '''']"
    by (simp only: r)
  have "lines_of (old_text (mc_file w')) = [''# '' @ d, stored_line q m, '''']"
    using d(2) l remove_complete(1) [OF complete_entries, of p ?es] by (simp add: old_text_def)
  then show ?thesis using read_description_id [OF assms(8,9), of "''''"] assms(8)
    by (simp add: New_Io_ok loaded_def load_line_comment load_line_stored [OF assms(2)] read_description_def
        del: append_Cons)
qed

lemma api_routes_refuse_slashless:
  assumes "api_file (mc_file w)" "CHR ''/'' \<notin> set p"
  shows "DeleteRoute birdc fault now p (NewBirdRouteManager now fault w) w =
    (Some (RouteNotFound p), NewBirdRouteManager now fault w, w)"
proof -
  have "map_of (bm_routes (NewBirdRouteManager now fault w)) p = None"
  proof (rule ccontr)
    assume "map_of (bm_routes (NewBirdRouteManager now fault w)) p \<noteq> None"
    then obtain v where "(p, v) \<in> set (bm_routes (NewBirdRouteManager now fault w))"
      by (auto dest: map_of_SomeD)
    with api_file_routes(1) [OF assms(1) this] assms(2) show False by simp
  qed
  then show ?thesis by (simp add: DeleteRoute_def)
qed

text \<open>A route added over HTTP cannot be deleted over HTTP. A path variable of the router never
  contains a slash and every prefix that was accepted does, so after any history of requests with
  one-line texts, on a service that started without a file, every \<^verbatim>\<open>DELETE\<close> changes nothing and
  deletes nothing.\<close>

theorem added_routes_cannot_be_deleted_over_http:
  assumes "\<And>path vars p. mux route_pattern path = Some vars \<Longrightarrow> map_of vars ''prefix'' = Some p \<Longrightarrow> CHR ''/'' \<notin> set p"
    and "mc_file w = None" "list_all plain rs" "aq_Method r = ''DELETE''"
  shows "snd (route_request mux birdc fault now r (serve mux birdc rs w)) = serve mux birdc rs w \<and>
    fst (route_request mux birdc fault now r (serve mux birdc rs w)) \<noteq> Deleted p"
proof -
  have f: "api_file (mc_file (serve mux birdc rs w))"
    using assms(2,3) by (intro serve_keeps_file) simp_all
  have d: "deleteRouteHandler birdc fault now vars (serve mux birdc rs w) =
      (if map_of vars ''prefix'' \<in> {None, Some ''''} then BadRequest ''prefix is required''
       else Refused (RouteNotFound (the (map_of vars ''prefix''))), serve mux birdc rs w)"
    if "mux route_pattern (aq_Path r) = Some vars" for vars
    using assms(1) [OF that] api_routes_refuse_slashless [OF f]
    by (auto simp: deleteRouteHandler_def Let_def split: option.splits)
  show ?thesis using assms(4) d
    by (auto simp: route_request_def split: option.splits)
qed

lemma inc_count_Some: "map_of c t = Some n \<Longrightarrow> map_of (inc_count t c) = (map_of c)(t \<mapsto> n + 1)"
  by (simp add: inc_count_def)

lemma inc_all_other:
  assumes "map_of c ''other'' = Some n"
    "list_all (\<lambda>(k, v). getRouteType (ri_Nexthop v) = ''other'') rs"
  shows "map_of (foldl (\<lambda>counts (_, route). inc_count (getRouteType (ri_Nexthop route)) counts) c rs) =
    (map_of c)(''other'' \<mapsto> n + int (length rs))"
  using assms
proof (induction rs arbitrary: c n)
  case (Cons kv rs)
  then show ?case
    using Cons.IH [of "inc_count ''other'' c" "n + 1"]
    by (auto simp: inc_count_Some fun_upd_idem ac_simps split: prod.splits)
qed (simp add: fun_upd_idem)

lemma wf_inc_all: "wf_map c \<Longrightarrow>
   wf_map (foldl (\<lambda>counts (_, route). inc_count (getRouteType (ri_Nexthop route)) counts) c rs)"
  by (induction rs arbitrary: c) (auto simp: inc_count_def split: prod.splits)

text \<open>The gauge of routes by type is useless after its first update: whatever was added, every
  route of the file counts as \<^verbatim>\<open>other\<close>, none as \<^verbatim>\<open>blackhole\<close> or \<^verbatim>\<open>vpn\<close>.\<close>

theorem gauge_counts_every_route_as_other:
  assumes "mc_file w = None" "list_all plain rs"
  shows "let w' = serve mux birdc rs w in
    map_of (mc_count (updateRouteMetrics now fault w')) = (map_of (mc_count w'))
      (''blackhole'' \<mapsto> 0, ''vpn'' \<mapsto> 0,
       ''other'' \<mapsto> int (length (bm_routes (NewBirdRouteManager now fault w'))))"
proof -
  define w' where "w' = serve mux birdc rs w"
  have f: "api_file (mc_file w')" unfolding w'_def using assms by (intro serve_keeps_file) simp_all
  define m where "m = bm_routes (NewBirdRouteManager now fault w')"
  have wf: "wf_map m" unfolding m_def by (rule wf_map_routes [OF f])
  define routes where "routes = put_all m []"
  have routes: "wf_map routes" "map_of routes = map_of m"
    using wf by (simp_all add: routes_def map_of_put_all)
  have len: "length routes = length m" using routes wf by (simp add: length_wf_map)
  have other: "getRouteType (ri_Nexthop v) = ''other''" if "(k, v) \<in> set routes" for k v
  proof -
    have "(k, v) \<in> set m" using that routes wf by (simp add: wf_map_in_set)
    from api_file_routes(2) [OF f this [unfolded m_def]] show ?thesis by (auto simp: getRouteType_def)
  qed
  define counts where "counts = foldl (\<lambda>counts (_, route). inc_count (getRouteType (ri_Nexthop route)) counts)
    [(''blackhole'', 0), (''vpn'', 0), (''other'', 0)] routes"
  have "map_of counts = (map_of [(''blackhole'', 0), (''vpn'', 0), (''other'', 0)])(''other'' \<mapsto> 0 + int (length routes))"
    unfolding counts_def using other by (intro inc_all_other) (auto simp: list_all_iff)
  moreover have "wf_map counts" unfolding counts_def by (rule wf_inc_all) (simp add: wf_map_def)
  moreover have "mc_count (updateRouteMetrics now fault w') = put_all counts (mc_count w')"
    by (simp add: updateRouteMetrics_def ListRoutes_def counts_def routes_def m_def)
  ultimately have "map_of (mc_count (updateRouteMetrics now fault w')) = (map_of (mc_count w'))
      (''blackhole'' \<mapsto> 0, ''vpn'' \<mapsto> 0, ''other'' \<mapsto> int (length m))"
    by (auto simp: map_of_put_all len map_add_def fun_eq_iff)
  then show ?thesis by (simp add: w'_def [symmetric] Let_def m_def)
qed

section \<open>The properties at concrete inputs\<close>

text \<open>A BIRD that keeps the commands it got, and the router's matching of the paths below.\<close>

definition ex_birdc :: "string list birdc" where
  "ex_birdc bird command = (bird @ [command], True, '''')"

definition ex_mux :: mux where
  "ex_mux pat path =
     (if pat = route_pattern
      then (let v = drop 14 path
            in if HasPrefix path ''/api/v1/route/'' \<and> v \<noteq> '''' \<and> CHR ''/'' \<notin> set v then Some [(''prefix'', v)] else None)
      else if pat = path then Some [] else None)"

definition ex_machine :: "string list machine" where
  "ex_machine = \<lparr>mc_file = None, mc_bird = [], mc_ops = [], mc_count = [], mc_last = 0\<rparr>"

definition ex_add :: AddRouteRequest where
  "ex_add = \<lparr>rq_Prefix = ''10.0.0.0/8'', rq_Nexthop = '''', rq_Description = ''lab''\<rparr>"

definition ex_post :: api_request where
  "ex_post = \<lparr>aq_Method = ''POST'', aq_Path = ''/api/v1/route'', aq_Body = Some ex_add\<rparr>"

definition ex_delete :: api_request where
  "ex_delete = \<lparr>aq_Method = ''DELETE'', aq_Path = ''/api/v1/route/10.0.0.0/8'', aq_Body = None\<rparr>"

lemmas ex_defs = ex_birdc_def ex_mux_def ex_machine_def ex_add_def ex_post_def ex_delete_def

lemma ParseCIDR_examples:
  "ParseCIDR ''10.0.0.0/8''" "ParseCIDR ''10.0.0.0/1''" "ParseCIDR ''10.0.0.0/16''"
  "ParseCIDR ''2001:db8::/32''" "\<not> ParseCIDR ''10.0.0.0''" "\<not> ParseCIDR ''10.0.0.0/33''"
  by code_simp+

lemma ex_served:
  "mc_file (serve ex_mux ex_birdc [(Io_ok, 5, ex_post)] ex_machine) =
     Some (config_text ''10.0.0.0/8'' ''blackhole'' ''lab'')"
  "list_all plain [(Io_ok, 5, ex_post)]"
  by code_simp+

theorem added_route_reads_back_witness:
  "map_of (bm_routes (NewBirdRouteManager 9 Io_ok (snd (addRouteHandler ex_birdc Io_ok 5 (Some ex_add) ex_machine))))
     ''10.0.0.0/8'' = Some \<lparr>ri_Prefix = ''10.0.0.0/8'', ri_Nexthop = ''blackhole;'',
        ri_Description = ''lab'', ri_CreatedAt = 9\<rparr>"
proof -
  have a: "addRouteHandler ex_birdc Io_ok 5 (Some ex_add) ex_machine =
      (Added ''10.0.0.0/8'', snd (addRouteHandler ex_birdc Io_ok 5 (Some ex_add) ex_machine))"
    by code_simp
  have c: "complete (old_text (mc_file ex_machine))" "no_newline (rq_Nexthop ex_add)" "no_newline (rq_Description ex_add)"
    by code_simp+
  have "rev (dropWhile is_space (rev (rq_Description ex_add))) = ''lab''" "\<not> (\<forall>c \<in> set (rq_Description ex_add). is_space c)"
    by code_simp+
  with added_route_reads_back [OF a c, of 9] show ?thesis by (simp add: ex_add_def)
qed

text \<open>A line break in the description adds a route that BIRD never got.\<close>

definition ex_break :: AddRouteRequest where
  "ex_break = \<lparr>rq_Prefix = ''10.0.0.0/8'', rq_Nexthop = '''',
     rq_Description = ''lab'' @ [newline] @ ''route 0.0.0.0/0 blackhole;''\<rparr>"

theorem description_line_break_adds_route:
  "let (reply, w) = addRouteHandler ex_birdc Io_ok 5 (Some ex_break) ex_machine in
   reply = Added ''10.0.0.0/8'' \<and> mc_bird w = [''route add 10.0.0.0/8 blackhole''] \<and>
   map fst (bm_routes (NewBirdRouteManager 9 Io_ok w)) = [''0.0.0.0/0'', ''10.0.0.0/8'']"
  by code_simp

definition ex_overlap :: "entry list" where
  "ex_overlap = [(''10.0.0.0/1'', ''10.8.0.1'', ''half''), (''10.0.0.0/16'', ''blackhole'', ''lab'')]"

definition ex_delete_run :: "string list machine \<Rightarrow> string \<Rightarrow> route_error option \<times> BirdRouteManager \<times> string list machine" where
  "ex_delete_run w p = DeleteRoute ex_birdc Io_ok 7 p (NewBirdRouteManager 7 Io_ok w) w"

theorem delete_removes_every_text_prefix_witness:
  "let w = ex_machine\<lparr>mc_file := Some (entries_text ex_overlap)\<rparr>; r = ex_delete_run w ''10.0.0.0/1'' in
   fst r = None \<and> mc_bird (snd (snd r)) = [''route del 10.0.0.0/1''] \<and>
   bm_routes (NewBirdRouteManager 9 Io_ok (snd (snd r))) = []"
proof -
  define w where "w = ex_machine\<lparr>mc_file := Some (entries_text ex_overlap)\<rparr>"
  obtain e b w' where r: "ex_delete_run w ''10.0.0.0/1'' = (e, b, w')" by (metis prod_cases3)
  have "list_all entry_ok ex_overlap" "''10.0.0.0/1'' \<in> fst ` set ex_overlap"
    by (simp_all add: ex_overlap_def ParseCIDR_examples no_newline_def newline_def)
  moreover have "mc_file w = Some (entries_text ex_overlap)" by (simp add: w_def)
  moreover have "{k \<in> fst ` set ex_overlap. \<not> HasPrefix k ''10.0.0.0/1''} = {}" by (auto simp: ex_overlap_def)
  ultimately have "e = None \<and> mc_bird w' = fst (ex_birdc (mc_bird w) (''route del '' @ ''10.0.0.0/1'')) \<and>
      dom (map_of (bm_routes (NewBirdRouteManager 9 Io_ok w'))) = {}"
    using delete_removes_every_text_prefix [OF _ _ _ r [unfolded ex_delete_run_def], of ex_overlap 9] by simp
  then show ?thesis unfolding Let_def w_def [symmetric] r by (simp add: w_def ex_machine_def ex_birdc_def)
qed

theorem delete_swaps_descriptions_witness:
  "let w = ex_machine\<lparr>mc_file := Some (config_text ''10.0.0.0/8'' ''blackhole'' ''lab'' @
       config_text ''2001:db8::/32'' ''10.8.0.1'' ''office'')\<rparr> in
   bm_routes (NewBirdRouteManager 9 Io_ok (snd (snd (ex_delete_run w ''10.0.0.0/8'')))) =
   [(''2001:db8::/32'', \<lparr>ri_Prefix = ''2001:db8::/32'', ri_Nexthop = ''via'', ri_Description = ''lab'', ri_CreatedAt = 9\<rparr>)]"
proof -
  define w where "w = ex_machine\<lparr>mc_file := Some (config_text ''10.0.0.0/8'' ''blackhole'' ''lab'' @
       config_text ''2001:db8::/32'' ''10.8.0.1'' ''office'')\<rparr>"
  obtain e b w' where r: "ex_delete_run w ''10.0.0.0/8'' = (e, b, w')" by (metis prod_cases3)
  have s: "\<not> is_space (last ''lab'')" by code_simp
  have n: "no_newline ''blackhole''" "no_newline ''10.8.0.1''" "no_newline ''lab''" "no_newline ''office''"
    by (simp_all add: no_newline_def newline_def)
  have "mc_file w = Some (config_text ''10.0.0.0/8'' ''blackhole'' ''lab'' @ config_text ''2001:db8::/32'' ''10.8.0.1'' ''office'')"
    by (simp add: w_def)
  from delete_swaps_descriptions [OF ParseCIDR_examples(1,4) _ n _ s _ this r [unfolded ex_delete_run_def], of 9]
  show ?thesis unfolding Let_def w_def [symmetric] r by (simp add: stored_nexthop_def)
qed

theorem added_routes_cannot_be_deleted_over_http_witness:
  "let w = serve ex_mux ex_birdc [(Io_ok, 5, ex_post)] ex_machine in
   mc_bird w = [''route add 10.0.0.0/8 blackhole''] \<and> snd (route_request ex_mux ex_birdc Io_ok 7 ex_delete w) = w"
proof -
  have "CHR ''/'' \<notin> set p" if "ex_mux route_pattern path = Some vars" "map_of vars ''prefix'' = Some p" for path vars p
    using that by (auto simp: ex_mux_def Let_def split: if_splits)
  moreover have "mc_file ex_machine = None" "aq_Method ex_delete = ''DELETE''" by (simp_all add: ex_defs)
  ultimately have "snd (route_request ex_mux ex_birdc Io_ok 7 ex_delete (serve ex_mux ex_birdc [(Io_ok, 5, ex_post)] ex_machine))
      = serve ex_mux ex_birdc [(Io_ok, 5, ex_post)] ex_machine"
    using added_routes_cannot_be_deleted_over_http [of ex_mux ex_machine "[(Io_ok, 5, ex_post)]" ex_delete ex_birdc Io_ok 7]
      ex_served(2) by blast
  moreover have "mc_bird (serve ex_mux ex_birdc [(Io_ok, 5, ex_post)] ex_machine) = [''route add 10.0.0.0/8 blackhole'']"
    by code_simp
  ultimately show ?thesis by (simp only: Let_def simp_thms)
qed

theorem gauge_counts_every_route_as_other_witness:
  "map_of (mc_count (updateRouteMetrics 9 Io_ok (serve ex_mux ex_birdc [(Io_ok, 5, ex_post)] ex_machine))) ''blackhole'' = Some 0"
proof -
  have "mc_file ex_machine = None" by (simp add: ex_defs)
  from gauge_counts_every_route_as_other [OF this ex_served(2), of ex_mux ex_birdc 9 Io_ok]
  show ?thesis by (simp add: Let_def)
qed

end
