(* ===== verification/Bird_Client.thy ===== *)
theory Bird_Client
  imports Go_Text
begin

text \<open>
  The BIRD client (\<^verbatim>\<open>cmd-bird-manager/main.go\<close>): it writes the routes to a file, puts the file in
  place of the configuration of BIRD and asks BIRD to reload. BIRD is a parameter: for a command,
  its next state and what the connection does (\<open>bird_reply\<close>). The temporary file is written
  through a \<^verbatim>\<open>bufio.Writer\<close>, whose buffer decides which write errors the program sees; the disk has
  room for a number of bytes.
\<close>

section \<open>The control socket\<close>

text \<open>Whether the socket accepts, whether the command is written, what BIRD sends, and whether it
  then closes the connection (\<^verbatim>\<open>io.EOF\<close>) or the deadline passes.\<close>

record bird_reply =
  br_dial :: bool
  br_write :: bool
  br_text :: string
  br_eof :: bool

datatype bird_error =
    DialFailed | SendFailed | ReadFailed | CreateFailed | WriteFailed | ReplaceFailed
  | ReloadFailed bird_error | ReadExistingFailed

type_synonym 'b bird = "'b \<Rightarrow> string \<Rightarrow> 'b \<times> bird_reply"

text \<open>The reading loop. \<^verbatim>\<open>ReadString\<close> gives a line with its newline; what is left before the end of
  the stream is dropped with the error that ends it.\<close>

function read_response :: "string \<Rightarrow> bool \<Rightarrow> string \<Rightarrow> string option" where
  "read_response response eof s =
     (if newline \<in> set s
      then let line = takeWhile (\<lambda>c. c \<noteq> newline) s @ [newline];
               rest = drop (length line) s
           in if HasSuffix line (''0000'' @ [newline]) then Some (response @ line)
              else read_response (response @ line) eof rest
      else if eof then Some response else None)"
  by pat_completeness auto
termination by (relation "measure (\<lambda>(response, eof, s). length s)") (auto dest: length_pos_if_in_set)

declare read_response.simps [simp del]

definition SendCommand :: "'b bird \<Rightarrow> string \<Rightarrow> 'b \<Rightarrow> (bird_error + string) \<times> 'b" where
  "SendCommand bird command b =
     (case bird b command of
        (b', r) \<Rightarrow>
          if \<not> br_dial r then (Inl DialFailed, b)
          else if \<not> br_write r then (Inl SendFailed, b')
          else case read_response '''' (br_eof r) (br_text r) of
            None \<Rightarrow> (Inl ReadFailed, b')
          | Some response \<Rightarrow> (Inr response, b'))"

section \<open>Writing the configuration\<close>

definition buffer_size :: nat where "buffer_size = 4096"

text \<open>The bytes in the file after a write, and whether it was complete.\<close>

definition disk_write :: "nat \<Rightarrow> string \<Rightarrow> string \<Rightarrow> string \<times> bool" where
  "disk_write room content s = (take room (content @ s), length (content @ s) \<le> room)"

text \<open>\<^verbatim>\<open>bufio.Writer.WriteString\<close> with the file, the buffer and whether an error occurred: while the
  string does not fit, an empty buffer is by-passed and a used one is filled and flushed.\<close>

function buf_write :: "nat \<Rightarrow> string \<times> string \<Rightarrow> string \<Rightarrow> (string \<times> string) \<times> bool" where
  "buf_write room (content, buf) s =
     (if length s \<le> buffer_size - length buf then ((content, buf @ s), True)
      else if buf = '''' then (case disk_write room content s of (content', ok) \<Rightarrow> ((content', ''''), ok))
      else let k = buffer_size - length buf
           in case disk_write room content (buf @ take k s) of
                (content', ok) \<Rightarrow>
                  if ok then buf_write room (content', '''') (drop k s) else ((content', buf @ take k s), False))"
  by pat_completeness auto
termination
  by (relation "measure (\<lambda>(room, (content, buf), s). length s + length buf)")
    (auto simp: neq_Nil_conv)

declare buf_write.simps [simp del]

fun write_routes :: "nat \<Rightarrow> string \<times> string \<Rightarrow> string list \<Rightarrow> (string \<times> string) \<times> bool" where
  "write_routes room st [] = (st, True)"
| "write_routes room st (route # routes) =
     (case buf_write room st (route @ [newline]) of
        (st', True) \<Rightarrow> write_routes room st' routes
      | (st', False) \<Rightarrow> (st', False))"

text \<open>The final \<^verbatim>\<open>Flush\<close>, whose error is ignored.\<close>

definition flush :: "nat \<Rightarrow> string \<times> string \<Rightarrow> string" where
  "flush room st = fst (disk_write room (fst st) (snd st))"

text \<open>What the disk does: whether the temporary file can be created, the room on it, and whether it
  can be renamed.\<close>

record disk =
  dk_create :: bool
  dk_room :: nat
  dk_rename :: bool

record update_result =
  ur_reload_response :: string
  ur_success :: bool
  ur_current_routes :: "string option"
  ur_error :: "string option"

definition UpdateStaticRoutes ::
  "'b bird \<Rightarrow> disk \<Rightarrow> string list \<Rightarrow> string option \<times> 'b \<Rightarrow> (bird_error + update_result) \<times> string option \<times> 'b" where
  "UpdateStaticRoutes bird dk routes w =
     (if \<not> dk_create dk then (Inl CreateFailed, w)
      else case write_routes (dk_room dk) ('''', '''') routes of
        (_, False) \<Rightarrow> (Inl WriteFailed, w)
      | (st, True) \<Rightarrow>
          (let content = flush (dk_room dk) st
           in if \<not> dk_rename dk then (Inl ReplaceFailed, w)
              else case SendCommand bird ''configure soft'' (snd w) of
                (Inl e, b1) \<Rightarrow> (Inl (ReloadFailed e), Some content, b1)
              | (Inr reloadResp, b1) \<Rightarrow>
                  if Contains reloadResp ''Reconfigured'' \<or> Contains reloadResp ''Reconfiguration in progress''
                  then (case SendCommand bird ''show route export_table all'' b1 of
                          (Inr verifyResp, b2) \<Rightarrow>
                            (Inr \<lparr>ur_reload_response = reloadResp, ur_success = True,
                                  ur_current_routes = Some verifyResp, ur_error = None\<rparr>, Some content, b2)
                        | (Inl _, b2) \<Rightarrow>
                            (Inr \<lparr>ur_reload_response = reloadResp, ur_success = True,
                                  ur_current_routes = None, ur_error = None\<rparr>, Some content, b2))
                  else (Inr \<lparr>ur_reload_response = reloadResp, ur_success = False, ur_current_routes = None,
                             ur_error = Some ''BIRD did not confirm reconfiguration''\<rparr>, Some content, b1)))"

section \<open>Batches\<close>

record RouteOperation =
  ro_Action :: string
  ro_Routes :: "string list"
  ro_Comment :: string

text \<open>\<open>None\<close> for a file that cannot be opened, though it exists; a line that fills the scanner's
  buffer is an error, after the lines before it were read.\<close>

definition readExistingRoutes :: "bool \<Rightarrow> string option \<Rightarrow> string list option" where
  "readExistingRoutes openable file =
     (case file of
        None \<Rightarrow> Some []
      | Some content \<Rightarrow>
          let ls = raw_lines content
          in if \<not> openable \<or> (\<exists>l \<in> set ls. max_token \<le> length l) then None
             else Some (filter (\<lambda>l. l \<noteq> '''' \<and> \<not> HasPrefix l ''#'') (map (\<lambda>l. TrimSpace (drop_cr l)) ls)))"

definition removeRoutes :: "string list \<Rightarrow> string list \<Rightarrow> string list" where
  "removeRoutes existing toRemove =
     (let removeSet = foldl (\<lambda>m r. AList.update (TrimSpace r) True m) [] toRemove
      in filter (\<lambda>route. map_of removeSet (TrimSpace route) \<noteq> Some True) existing)"

definition apply_operation :: "string list \<Rightarrow> RouteOperation \<Rightarrow> string list" where
  "apply_operation routes op =
     (let action = ToLower (ro_Action op)
      in if action = ''add'' then routes @ ro_Routes op
         else if action = ''remove'' then removeRoutes routes (ro_Routes op)
         else if action = ''replace'' then ro_Routes op
         else routes)"

definition BatchUpdateRoutes ::
  "'b bird \<Rightarrow> disk \<Rightarrow> bool \<Rightarrow> RouteOperation list \<Rightarrow> string option \<times> 'b \<Rightarrow>
   (bird_error + update_result) \<times> string option \<times> 'b" where
  "BatchUpdateRoutes bird dk openable operations w =
     (case readExistingRoutes openable (fst w) of
        None \<Rightarrow> (Inl ReadExistingFailed, w)
      | Some existingRoutes \<Rightarrow> UpdateStaticRoutes bird dk (foldl apply_operation existingRoutes operations) w)"


section \<open>The program\<close>

text \<open>\<^verbatim>\<open>main\<close>: an update, a batch of two operations and a status command; errors are printed and the next
  step is taken. \<open>dk1\<close> and \<open>dk2\<close> are the disk at the two writes.\<close>

definition main_routes :: "string list" where
  "main_routes =
     [''route 203.0.113.0/24 blackhole;'', ''route 198.51.100.0/24 blackhole;'', ''# Added via Go API'']"

definition main_operations :: "RouteOperation list" where
  "main_operations =
     [\<lparr>ro_Action = ''add'', ro_Routes = [''route 192.0.2.0/24 blackhole;''], ro_Comment = ''Add test network''\<rparr>,
      \<lparr>ro_Action = ''remove'', ro_Routes = [''route 198.51.100.0/24 blackhole;''], ro_Comment = ''Remove old test''\<rparr>]"

definition bird_main ::
  "'b bird \<Rightarrow> disk \<Rightarrow> disk \<Rightarrow> bool \<Rightarrow> string option \<times> 'b \<Rightarrow>
   (bird_error + update_result) \<times> (bird_error + update_result) \<times> (bird_error + string) \<times> string option \<times> 'b" where
  "bird_main bird dk1 dk2 openable w =
     (case UpdateStaticRoutes bird dk1 main_routes w of
        (r1, w1) \<Rightarrow>
          (case BatchUpdateRoutes bird dk2 openable main_operations w1 of
             (r2, w2) \<Rightarrow>
               (case SendCommand bird ''show status'' (snd w2) of (r3, b) \<Rightarrow> (r1, r2, r3, fst w2, b))))"

end
