(* ===== verification/Bird_Props.thy ===== *)
theory Bird_Props
  imports Bird_Client
begin

text \<open>
  What a batch of route operations leaves in the configuration of BIRD, and what happens when the
  disk is full.
\<close>

definition routes_text :: "string list \<Rightarrow> string" where
  "routes_text routes = concat (map (\<lambda>r. r @ [newline]) routes)"

section \<open>The buffered writer\<close>

text \<open>One round of the writer.\<close>

lemma buf_write_round:
  assumes "k = buffer_size - length b"
  shows "length s \<le> k \<Longrightarrow> buf_write room (c, b) s = ((c, b @ s), True)"
    "\<not> length s \<le> k \<Longrightarrow> b = '''' \<Longrightarrow>
       buf_write room (c, b) s = ((take room (c @ s), ''''), length (c @ s) \<le> room)"
    "\<not> length s \<le> k \<Longrightarrow> b \<noteq> '''' \<Longrightarrow> length (c @ b @ take k s) \<le> room \<Longrightarrow>
       buf_write room (c, b) s = buf_write room (c @ b @ take k s, '''') (drop k s)"
    "\<not> length s \<le> k \<Longrightarrow> b \<noteq> '''' \<Longrightarrow> \<not> length (c @ b @ take k s) \<le> room \<Longrightarrow>
       \<not> snd (buf_write room (c, b) s)"
  unfolding buf_write.simps [of room c b s] disk_write_def Let_def assms by simp_all

lemma buf_write_direct:
  "buf_write room (c, '''') s = ((c', b'), True) \<Longrightarrow> length c \<le> room \<Longrightarrow> c' @ b' = c @ s \<and> length c' \<le> room"
  using buf_write_round(1,2) [of buffer_size "''''" s room c] by (cases "length s \<le> buffer_size") auto

lemma buf_write_ok:
  assumes "buf_write room (c, b) s = ((c', b'), True)" "length c \<le> room"
  shows "c' @ b' = c @ b @ s \<and> length c' \<le> room"
proof (cases "b = ''''")
  case False
  define k where "k = buffer_size - length b"
  note r = buf_write_round [OF k_def]
  show ?thesis
  proof (cases "length s \<le> k")
    case True
    then show ?thesis using assms r(1) [of s room c] by auto
  next
    case long: False
    have room: "length (c @ b @ take k s) \<le> room"
      using r(4) [OF long False] assms(1) by fastforce
    have "buf_write room (c @ b @ take k s, '''') (drop k s) = ((c', b'), True)"
      using r(3) [OF long False room] assms(1) by simp
    from buf_write_direct [OF this room] show ?thesis by simp
  qed
qed (use assms buf_write_direct in simp)

lemma buf_write_room:
  assumes "length c + length b + length s \<le> room" shows "snd (buf_write room (c, b) s)"
proof (cases "b = ''''")
  case True
  then show ?thesis using buf_write_round(1,2) [of buffer_size "''''" s room c] assms
    by (cases "length s \<le> buffer_size") auto
next
  case False
  define k where "k = buffer_size - length b"
  note r = buf_write_round [OF k_def]
  show ?thesis
  proof (cases "length s \<le> k")
    case long: False
    have "buf_write room (c, b) s = buf_write room (c @ b @ take k s, '''') (drop k s)"
      using assms by (intro r(3) [OF long False]) simp
    moreover have "snd (buf_write room (c @ b @ take k s, '''') (drop k s))"
      using buf_write_round(1,2) [of buffer_size "''''" "drop k s" room "c @ b @ take k s"] assms
      by (cases "length (drop k s) \<le> buffer_size") auto
    ultimately show ?thesis by simp
  qed (simp add: r(1))
qed

lemma write_routes_ok:
  "write_routes room (c, b) routes = ((c', b'), True) \<Longrightarrow> length c \<le> room \<Longrightarrow>
   c' @ b' = c @ b @ routes_text routes"
proof (induction routes arbitrary: c b)
  case (Cons r rs)
  obtain c1 b1 ok where w: "buf_write room (c, b) (r @ [newline]) = ((c1, b1), ok)" by (metis prod_cases3 surj_pair)
  with Cons.prems have ok by (auto split: bool.splits)
  with w have "c1 @ b1 = c @ b @ r @ [newline]" "length c1 \<le> room"
    using buf_write_ok [of room c b "r @ [newline]" c1 b1] Cons.prems(2) by simp_all
  moreover have "c' @ b' = c1 @ b1 @ routes_text rs"
    using Cons.IH [of c1 b1] Cons.prems w \<open>ok\<close> \<open>length c1 \<le> room\<close> by simp
  ultimately show ?case by (simp add: routes_text_def flip: append_assoc)
qed (simp add: routes_text_def)

lemma write_routes_room:
  "length c + length b + length (routes_text routes) \<le> room \<Longrightarrow> snd (write_routes room (c, b) routes)"
proof (induction routes arbitrary: c b)
  case (Cons r rs)
  obtain c1 b1 ok where w: "buf_write room (c, b) (r @ [newline]) = ((c1, b1), ok)" by (metis prod_cases3 surj_pair)
  have "snd (buf_write room (c, b) (r @ [newline]))"
    using Cons.prems by (intro buf_write_room) (simp add: routes_text_def)
  with w have ok by simp
  with w have "c1 @ b1 = c @ b @ r @ [newline]"
    using buf_write_ok [of room c b "r @ [newline]" c1 b1] Cons.prems by simp
  then have "length c1 + length b1 = length c + length b + length r + 1"
    by (metis length_append length_Cons list.size(3) add.assoc One_nat_def add_Suc_right add_0_right)
  then show ?case using Cons.IH [of c1 b1] Cons.prems w \<open>ok\<close> by (simp add: routes_text_def)
qed simp

lemma write_routes_buffered:
  "length b + length (routes_text routes) \<le> buffer_size \<Longrightarrow>
   write_routes room (c, b) routes = ((c, b @ routes_text routes), True)"
proof (induction routes arbitrary: b)
  case (Cons r rs)
  then have "buf_write room (c, b) (r @ [newline]) = ((c, b @ r @ [newline]), True)"
    by (intro buf_write_round(1) [OF refl]) (simp add: routes_text_def)
  with Cons.IH [of "b @ r @ [newline]"] Cons.prems show ?case by (simp add: routes_text_def)
qed (simp add: routes_text_def)

section \<open>What is written\<close>

text \<open>The file after an update that got as far as the reload, and BIRD.\<close>

lemma Update_file:
  assumes "dk_create dk" "dk_rename dk" "write_routes (dk_room dk) ('''', '''') routes = (st, True)"
  shows "fst (snd (UpdateStaticRoutes bird dk routes w)) = Some (take (dk_room dk) (routes_text routes))"
    "fst (UpdateStaticRoutes bird dk routes w) \<noteq> Inl WriteFailed"
proof -
  have "fst st @ snd st = routes_text routes"
    using write_routes_ok [of "dk_room dk" "''''" "''''" routes "fst st" "snd st"] assms(3) by simp
  then have f: "flush (dk_room dk) st = take (dk_room dk) (routes_text routes)"
    by (simp add: flush_def disk_write_def)
  show "fst (snd (UpdateStaticRoutes bird dk routes w)) = Some (take (dk_room dk) (routes_text routes))"
    "fst (UpdateStaticRoutes bird dk routes w) \<noteq> Inl WriteFailed"
    using assms by (auto simp: UpdateStaticRoutes_def f Let_def split: sum.splits prod.splits)
qed

lemma Update_reloads:
  assumes "dk_create dk" "dk_rename dk" "write_routes (dk_room dk) ('''', '''') routes = (st, True)"
    "SendCommand bird ''configure soft'' (snd w) = (Inr resp, b)" "Contains resp ''Reconfigured''"
  shows "\<exists>r w'. UpdateStaticRoutes bird dk routes w = (Inr r, w') \<and> ur_success r"
  using assms by (auto simp: UpdateStaticRoutes_def Let_def split: sum.splits prod.splits)

section \<open>Reading back\<close>

lemma routes_text_lines:
  "\<forall>r \<in> set routes. newline \<notin> set r \<Longrightarrow> Split newline (routes_text routes) = routes @ ['''']"
  by (induction routes) (simp_all add: routes_text_def Split_append_sep)

lemma raw_lines_routes_text:
  "\<forall>r \<in> set routes. newline \<notin> set r \<Longrightarrow> raw_lines (routes_text routes) = routes"
  by (simp add: raw_lines_def routes_text_lines)

lemma TrimSpace_snoc_space: "is_space c \<Longrightarrow> TrimSpace (s @ [c]) = TrimSpace s"
proof -
  assume c: "is_space c"
  show ?thesis
  proof (cases "dropWhile is_space s = []")
    case True
    then have d: "dropWhile is_space (s @ [c]) = []" using c by (simp add: dropWhile_eq_Nil_conv)
    show ?thesis unfolding TrimSpace_def d True ..
  next
    case False
    then obtain x where "x \<in> set s" "\<not> is_space x" by (auto simp: dropWhile_eq_Nil_conv)
    then have "dropWhile is_space (s @ [c]) = dropWhile is_space s @ [c]" by (rule dropWhile_append1)
    with c show ?thesis by (simp add: TrimSpace_def)
  qed
qed

lemma TrimSpace_drop_cr [simp]: "TrimSpace (drop_cr l) = TrimSpace l"
proof (cases "HasSuffix l [CHR 0x0D]")
  case True
  then obtain r where "l = r @ [CHR 0x0D]" by (auto simp: HasSuffix_iff)
  moreover have "is_space CHR 0x0D" by (simp add: char_defs)
  ultimately show ?thesis using TrimSpace_snoc_space [of "CHR 0x0D" r] by (simp add: drop_cr_def)
qed (simp add: drop_cr_def TrimSuffix_no)

definition is_route :: "string \<Rightarrow> bool" where
  "is_route l \<longleftrightarrow> l \<noteq> '''' \<and> \<not> HasPrefix l ''#''"

lemma read_back:
  "\<forall>r \<in> set routes. newline \<notin> set r \<and> length r < max_token \<Longrightarrow>
   readExistingRoutes True (Some (routes_text routes)) = Some (filter is_route (map TrimSpace routes))"
  by (auto simp: readExistingRoutes_def raw_lines_routes_text is_route_def Let_def not_le
      intro!: filter_cong)

lemma removeSet_Some:
  "map_of (foldl (\<lambda>m r. AList.update (TrimSpace r) True m) m rs) k = Some True \<longleftrightarrow>
   map_of m k = Some True \<or> k \<in> TrimSpace ` set rs"
  by (induction rs arbitrary: m) auto

lemma removeRoutes_filter:
  "removeRoutes existing rs = filter (\<lambda>route. TrimSpace route \<notin> TrimSpace ` set rs) existing"
  by (simp add: removeRoutes_def removeSet_Some)

text \<open>What a batch is meant to do: operations apply from the first to the last, their action in any
  case. To add appends the routes, to remove takes every route that is the same up to the white
  space around it, to replace leaves only the new ones, and any other action does nothing.\<close>

inductive batch_result :: "string list \<Rightarrow> RouteOperation list \<Rightarrow> string list \<Rightarrow> bool" where
  finished: "batch_result routes [] routes"
| add: "ToLower (ro_Action op) = ''add'' \<Longrightarrow> batch_result (routes @ ro_Routes op) ops res \<Longrightarrow>
    batch_result routes (op # ops) res"
| remove: "ToLower (ro_Action op) = ''remove'' \<Longrightarrow>
    batch_result [r \<leftarrow> routes. \<forall>x \<in> set (ro_Routes op). TrimSpace r \<noteq> TrimSpace x] ops res \<Longrightarrow>
    batch_result routes (op # ops) res"
| replace: "ToLower (ro_Action op) = ''replace'' \<Longrightarrow> batch_result (ro_Routes op) ops res \<Longrightarrow>
    batch_result routes (op # ops) res"
| other: "ToLower (ro_Action op) \<notin> {''add'', ''remove'', ''replace''} \<Longrightarrow> batch_result routes ops res \<Longrightarrow>
    batch_result routes (op # ops) res"

lemma removed_routes:
  "removeRoutes existing rs = [r \<leftarrow> existing. \<forall>x \<in> set rs. TrimSpace r \<noteq> TrimSpace x]"
  by (auto simp: removeRoutes_filter intro: filter_cong)

lemma apply_operation_simps:
  "ToLower (ro_Action op) = ''add'' \<Longrightarrow> apply_operation routes op = routes @ ro_Routes op"
  "ToLower (ro_Action op) = ''remove'' \<Longrightarrow>
     apply_operation routes op = [r \<leftarrow> routes. \<forall>x \<in> set (ro_Routes op). TrimSpace r \<noteq> TrimSpace x]"
  "ToLower (ro_Action op) = ''replace'' \<Longrightarrow> apply_operation routes op = ro_Routes op"
  "ToLower (ro_Action op) \<notin> {''add'', ''remove'', ''replace''} \<Longrightarrow> apply_operation routes op = routes"
  by (simp_all add: apply_operation_def Let_def removed_routes)

lemma batch_result_iff: "batch_result routes ops res \<longleftrightarrow> res = foldl apply_operation routes ops"
proof
  show "res = foldl apply_operation routes ops" if "batch_result routes ops res"
    using that by induction (simp_all add: apply_operation_simps)
  have "batch_result routes ops (foldl apply_operation routes ops)"
  proof (induction ops arbitrary: routes)
    case (Cons op ops)
    consider "ToLower (ro_Action op) = ''add''" | "ToLower (ro_Action op) = ''remove''"
      | "ToLower (ro_Action op) = ''replace''" | "ToLower (ro_Action op) \<notin> {''add'', ''remove'', ''replace''}" by blast
    then show ?case
    proof cases
      case 1 then show ?thesis using Cons by (auto intro: batch_result.add simp: apply_operation_simps)
    next
      case 2 then show ?thesis using Cons by (auto intro: batch_result.remove simp: apply_operation_simps)
    next
      case 3 then show ?thesis using Cons by (auto intro: batch_result.replace simp: apply_operation_simps)
    next
      case 4 then show ?thesis using Cons by (auto intro: batch_result.other simp: apply_operation_simps(4))
    qed
  qed (simp add: batch_result.finished)
  then show "batch_result routes ops res" if "res = foldl apply_operation routes ops" using that by simp
qed

section \<open>Properties\<close>

text \<open>C38. After a batch on a disk with room, the configuration holds exactly the routes that the
  operations give when they are carried out in order on the routes that were there
  (\<open>batch_result\<close>), as the next batch reads them; routes of a final remove are gone, however they
  were spaced. The routes are single lines, short enough for the scanner that reads them back.\<close>

theorem batch_applies_in_order:
  assumes "readExistingRoutes openable (fst w) = Some existing"
    and "batch_result existing operations routes"
    and "\<forall>r \<in> set routes. newline \<notin> set r \<and> length r < max_token"
    and "dk_create dk" "dk_rename dk" "length (routes_text routes) \<le> dk_room dk"
  shows "readExistingRoutes True (fst (snd (BatchUpdateRoutes bird dk openable operations w))) =
      Some (filter is_route (map TrimSpace routes)) \<and>
    (operations \<noteq> [] \<and> ToLower (ro_Action (last operations)) = ''remove'' \<longrightarrow>
      (\<forall>r \<in> set (ro_Routes (last operations)). TrimSpace r \<notin> set (map TrimSpace routes)))"
proof -
  have routes: "routes = foldl apply_operation existing operations" using assms(2) by (simp only: batch_result_iff)
  obtain st where st: "write_routes (dk_room dk) ('''', '''') routes = (st, True)"
    using write_routes_room [of "''''" "''''" routes "dk_room dk"] assms(6) by (metis add_0 list.size(3) prod.collapse)
  have "readExistingRoutes True (fst (snd (BatchUpdateRoutes bird dk openable operations w))) =
      Some (filter is_route (map TrimSpace routes))"
    using Update_file(1) [OF assms(4,5) st, of bird w] assms(6) read_back [OF assms(3)]
    by (simp add: BatchUpdateRoutes_def assms(1) flip: routes)
  moreover have "TrimSpace r \<notin> set (map TrimSpace routes)"
    if "operations \<noteq> []" "ToLower (ro_Action (last operations)) = ''remove''" "r \<in> set (ro_Routes (last operations))" for r
    using that routes by (cases operations rule: rev_cases) (auto simp: apply_operation_simps)
  ultimately show ?thesis by blast
qed

text \<open>A full disk is not noticed: a configuration of at most 4096 bytes is written by the final
  flush, whose error is ignored. Whatever room there is, the old configuration is replaced by as
  many bytes as fit, BIRD is told to reload it, and if BIRD confirms the update is a success.\<close>

theorem full_disk_installs_truncated_config:
  assumes "dk_create dk" "dk_rename dk" "length (routes_text routes) \<le> buffer_size"
    and "SendCommand bird ''configure soft'' (snd w) = (Inr resp, b)" "Contains resp ''Reconfigured''"
  shows "fst (snd (UpdateStaticRoutes bird dk routes w)) = Some (take (dk_room dk) (routes_text routes)) \<and>
    (\<exists>r w'. UpdateStaticRoutes bird dk routes w = (Inr r, w') \<and> ur_success r)"
proof -
  have w: "write_routes (dk_room dk) ('''', '''') routes = (('''', routes_text routes), True)"
    using write_routes_buffered [of "''''" routes "dk_room dk" "''''"] assms(3) by simp
  show ?thesis using Update_file(1) [OF assms(1,2) w] Update_reloads [OF assms(1,2) w assms(4,5)] by simp
qed

section \<open>The properties at concrete inputs\<close>

text \<open>A BIRD that confirms every command, and a configuration of two routes.\<close>

definition ex_bird :: "string list bird" where
  "ex_bird b command = (b @ [command],
     \<lparr>br_dial = True, br_write = True, br_text = ''0003 Reconfigured'' @ [newline], br_eof = True\<rparr>)"

definition ex_routes :: "string list" where
  "ex_routes = [''route 203.0.113.0/24 blackhole;'', ''route 198.51.100.0/24 blackhole;'']"

definition ex_operations :: "RouteOperation list" where
  "ex_operations =
     [\<lparr>ro_Action = ''ADD'', ro_Routes = [''route 192.0.2.0/24 blackhole;''], ro_Comment = ''''\<rparr>,
      \<lparr>ro_Action = ''remove'', ro_Routes = ['' route 198.51.100.0/24 blackhole; ''], ro_Comment = ''''\<rparr>]"

lemma ex_read: "readExistingRoutes True (Some (routes_text ex_routes)) = Some ex_routes"
proof -
  have "\<forall>r \<in> set ex_routes. newline \<notin> set r \<and> length r < max_token"
    by (simp add: ex_routes_def newline_def max_token_def)
  moreover have "filter is_route (map TrimSpace ex_routes) = ex_routes" by code_simp
  ultimately show ?thesis by (simp only: read_back)
qed

lemma ex_applied:
  "foldl apply_operation ex_routes ex_operations =
     [''route 203.0.113.0/24 blackhole;'', ''route 192.0.2.0/24 blackhole;'']"
  by code_simp

theorem batch_applies_in_order_witness:
  "readExistingRoutes True (fst (snd (BatchUpdateRoutes ex_bird
      \<lparr>dk_create = True, dk_room = 1000, dk_rename = True\<rparr> True ex_operations (Some (routes_text ex_routes), [])))) =
   Some [''route 203.0.113.0/24 blackhole;'', ''route 192.0.2.0/24 blackhole;'']"
proof -
  define w :: "string option \<times> string list" where "w = (Some (routes_text ex_routes), [])"
  define routes where "routes = [''route 203.0.113.0/24 blackhole;'', ''route 192.0.2.0/24 blackhole;'']"
  have r: "readExistingRoutes True (fst w) = Some ex_routes" by (simp add: w_def ex_read)
  have f: "batch_result ex_routes ex_operations routes" by (simp only: batch_result_iff ex_applied routes_def)
  have l: "\<forall>r \<in> set routes. newline \<notin> set r \<and> length r < max_token"
    by (simp add: routes_def newline_def max_token_def)
  have t: "filter is_route (map TrimSpace routes) = routes" unfolding routes_def by code_simp
  have "length (routes_text routes) \<le> 1000" by (simp add: routes_def routes_text_def)
  then show ?thesis
    using batch_applies_in_order [OF r f l, of "\<lparr>dk_create = True, dk_room = 1000, dk_rename = True\<rparr>" ex_bird]
    by (simp only: t select_convs simp_thms w_def) (simp add: routes_def)
qed

theorem full_disk_installs_truncated_config_witness:
  "fst (snd (UpdateStaticRoutes ex_bird \<lparr>dk_create = True, dk_room = 22, dk_rename = True\<rparr> ex_routes (None, []))) =
   Some ''route 203.0.113.0/24 b''"
proof -
  have s: "SendCommand ex_bird ''configure soft'' (snd (None, [])) =
      (Inr (''0003 Reconfigured'' @ [newline]), [''configure soft''])" by code_simp
  have c: "Contains (''0003 Reconfigured'' @ [newline]) ''Reconfigured''" by code_simp
  have l: "length (routes_text ex_routes) \<le> buffer_size"
    by (simp add: routes_text_def ex_routes_def buffer_size_def)
  have t: "take 22 (routes_text ex_routes) = ''route 203.0.113.0/24 b''" by code_simp
  show ?thesis
    using full_disk_installs_truncated_config [OF _ _ l s c, of "\<lparr>dk_create = True, dk_room = 22, dk_rename = True\<rparr>"]
    by (simp add: t)
qed


text \<open>The example of \<^verbatim>\<open>main\<close> on a disk with room: whatever BIRD answers, the file is left with the first
  and the added route; the comment is lost when the batch reads the file back.\<close>

lemma bird_main_leaves_two_routes:
  "fst (snd (snd (snd (bird_main bird \<lparr>dk_create = True, dk_room = 4096, dk_rename = True\<rparr>
       \<lparr>dk_create = True, dk_room = 4096, dk_rename = True\<rparr> True w)))) =
   Some (routes_text [''route 203.0.113.0/24 blackhole;'', ''route 192.0.2.0/24 blackhole;''])"
proof -
  let ?dk = "\<lparr>dk_create = True, dk_room = 4096, dk_rename = True\<rparr>"
  define rs where "rs = [''route 203.0.113.0/24 blackhole;'', ''route 198.51.100.0/24 blackhole;'', ''route 192.0.2.0/24 blackhole;'']"
  have written: "fst (snd (UpdateStaticRoutes bird ?dk routes v)) = Some (routes_text routes)"
    if "length (routes_text routes) \<le> 4096" for routes v
  proof -
    have "write_routes (dk_room ?dk) ('''', '''') routes = (('''', routes_text routes), True)"
      using write_routes_buffered [of "''''" routes "dk_room ?dk" "''''"] that by (simp add: buffer_size_def)
    from Update_file(1) [OF _ _ this, of bird v] that show ?thesis by simp
  qed
  obtain r1 f1 b1 where u: "UpdateStaticRoutes bird ?dk main_routes w = (r1, f1, b1)" by (metis prod.collapse)
  have f1: "f1 = Some (routes_text main_routes)"
    using written [of main_routes w] u by (simp add: main_routes_def routes_text_def)
  have n: "\<forall>r \<in> set main_routes. newline \<notin> set r \<and> length r < max_token"
    by (simp add: main_routes_def newline_def max_token_def)
  have k: "filter is_route (map TrimSpace main_routes) = [''route 203.0.113.0/24 blackhole;'', ''route 198.51.100.0/24 blackhole;'']"
    by code_simp
  have "readExistingRoutes True f1 = Some [''route 203.0.113.0/24 blackhole;'', ''route 198.51.100.0/24 blackhole;'']"
    unfolding f1 using read_back [OF n] k by simp
  moreover have "foldl apply_operation [''route 203.0.113.0/24 blackhole;'', ''route 198.51.100.0/24 blackhole;''] main_operations
      = [''route 203.0.113.0/24 blackhole;'', ''route 192.0.2.0/24 blackhole;'']" by code_simp
  ultimately have "fst (snd (BatchUpdateRoutes bird ?dk True main_operations (f1, b1)))
      = Some (routes_text [''route 203.0.113.0/24 blackhole;'', ''route 192.0.2.0/24 blackhole;''])"
    using written [of "[''route 203.0.113.0/24 blackhole;'', ''route 192.0.2.0/24 blackhole;'']"]
    by (simp add: BatchUpdateRoutes_def routes_text_def)
  then show ?thesis by (auto simp: bird_main_def u split: prod.split)
qed

end
