(* ===== verification/Route_Lookup.thy ===== *)
theory Route_Lookup
  imports Go_Text
begin

text \<open>
  The route lookup service (\<^verbatim>\<open>cmd-route/server.go\<close>): for an address or a name it reports the route of
  every address and, if asked, the network it belongs to, which it keeps in a cache. The commands
  \<^verbatim>\<open>whois\<close> and \<^verbatim>\<open>ip r get\<close>, the resolver and the answer of \<^verbatim>\<open>ipinfo.io\<close> are parameters
  (\<open>network\<close>); what the service makes of their texts is modelled. The HTML page, the headers and
  the time a request took are not.
\<close>

section \<open>Addresses as text\<close>

fun groups_of :: "bytes \<Rightarrow> nat list" where
  "groups_of (a # b # rest) = (unat a * 256 + unat b) # groups_of rest"
| "groups_of _ = []"

definition hex_digit :: "nat \<Rightarrow> char" where
  "hex_digit d = (if d < 10 then char_of (48 + d) else char_of (87 + d))"

fun hex_string :: "nat \<Rightarrow> string" where
  "hex_string n = (if n < 16 then [hex_digit n] else hex_string (n div 16) @ [hex_digit (n mod 16)])"

declare hex_string.simps [simp del]

definition zero_run :: "nat list \<Rightarrow> nat \<Rightarrow> nat" where
  "zero_run gs i = length (takeWhile (\<lambda>g. g = 0) (drop i gs))"

definition longest_run :: "nat list \<Rightarrow> nat \<times> nat" where
  "longest_run gs =
     foldl (\<lambda>(start, len) i. if 2 \<le> zero_run gs i \<and> len < zero_run gs i then (i, zero_run gs i) else (start, len))
       (0, 0) [0..<length gs]"

text \<open>\<^verbatim>\<open>net.IP.String\<close> of 4 or 16 bytes.\<close>

definition ip_string :: "bytes \<Rightarrow> string" where
  "ip_string ip =
     (case To4 ip of
        Some ip4 \<Rightarrow> ip4_string ip4
      | None \<Rightarrow>
          (let gs = groups_of ip; (start, len) = longest_run gs
           in if len = 0 then Join CHR '':'' (map hex_string gs)
              else Join CHR '':'' (map hex_string (take start gs)) @ ''::'' @
                   Join CHR '':'' (map hex_string (drop (start + len) gs))))"

definition IsLoopback :: "bytes \<Rightarrow> bool" where
  "IsLoopback ip =
     (case To4 ip of
        Some ip4 \<Rightarrow> hd ip4 = 127
      | None \<Rightarrow> ip = replicate 15 0 @ [1])"

section \<open>Data\<close>

record IpRouteInfo =
  rt_Destination :: string
  rt_Via :: string
  rt_Interface :: string
  rt_Source :: string
  rt_Error :: string

record NetworkInfo =
  ni_IP :: string
  ni_ASN :: string
  ni_ASName :: string
  ni_Network :: string
  ni_CIDR :: string
  ni_Country :: string
  ni_ISP :: string
  ni_Error :: string
  ni_ResolvedFrom :: string

record RouteResponse =
  rr_Input :: string
  rr_ResolvedIP :: "string list"
  rr_IsDomain :: bool
  rr_Routes :: "IpRouteInfo list"
  rr_NetworkInfo :: "NetworkInfo list"
  rr_Error :: string

type_synonym whoisCache = "(string, NetworkInfo) gomap"

datatype api_result = RequestFailed string | ApiStatus nat | BadJson string | ApiResponse string string

text \<open>The outside: \<^verbatim>\<open>whois\<close> and \<^verbatim>\<open>ip r get\<close> with their output, or \<open>Inl\<close> the text of the error;
  the answer of the API (with the fields \<^verbatim>\<open>org\<close> and \<^verbatim>\<open>country\<close>), and the resolver.\<close>

record network =
  nw_whois :: "string \<Rightarrow> string option"
  nw_api :: "string \<Rightarrow> api_result"
  nw_ip_get :: "string \<Rightarrow> string + string"
  nw_LookupIP :: "string \<Rightarrow> string + bytes list"
  nw_status_text :: "nat \<Rightarrow> string"

definition getFromCache :: "whoisCache \<Rightarrow> string \<Rightarrow> NetworkInfo option" where
  "getFromCache c ip = map_of c ip"

definition saveToCache :: "string \<Rightarrow> NetworkInfo \<Rightarrow> whoisCache \<Rightarrow> whoisCache" where
  "saveToCache ip info c = AList.update ip info c"

definition empty_info :: "string \<Rightarrow> NetworkInfo" where
  "empty_info ip = \<lparr>ni_IP = ip, ni_ASN = '''', ni_ASName = '''', ni_Network = '''', ni_CIDR = '''',
     ni_Country = '''', ni_ISP = '''', ni_Error = '''', ni_ResolvedFrom = ''''\<rparr>"

section \<open>The network of an address\<close>

text \<open>The text after the first colon of a line, as \<^verbatim>\<open>SplitN(line, ":", 2)\<close> gives it.\<close>

definition line_value :: "string \<Rightarrow> string option" where
  "line_value line =
     (case SplitN2 CHR '':'' line of [_, v] \<Rightarrow> Some (TrimSpace v) | _ \<Rightarrow> None)"

definition has_field :: "string \<Rightarrow> string list \<Rightarrow> bool" where
  "has_field line names \<longleftrightarrow> (\<exists>f \<in> set names. HasPrefix line f)"

text \<open>\<^verbatim>\<open>strings.Split(s, " - ")\<close>.\<close>

fun split_range :: "string \<Rightarrow> string \<Rightarrow> string list" where
  "split_range acc [] = [rev acc]"
| "split_range acc (c # cs) =
     (if HasPrefix (c # cs) '' - '' then rev acc # split_range '''' (drop 2 cs) else split_range (c # acc) cs)"

definition asn_field :: "string \<Rightarrow> NetworkInfo \<Rightarrow> NetworkInfo" where
  "asn_field line info =
     (if has_field line [''origin:'', ''Origin:''] \<or> Contains line ''aut-num:''
      then (case line_value line of Some v \<Rightarrow> info\<lparr>ni_ASN := v\<rparr> | None \<Rightarrow> info) else info)"

definition as_name_field :: "string \<Rightarrow> NetworkInfo \<Rightarrow> NetworkInfo" where
  "as_name_field line info =
     (if has_field line [''descr:'', ''Descr:'']
      then (case line_value line of
              Some v \<Rightarrow> if ni_ASName info = '''' then info\<lparr>ni_ASName := v\<rparr> else info
            | None \<Rightarrow> info) else info)"

definition network_field :: "string \<Rightarrow> NetworkInfo \<Rightarrow> NetworkInfo" where
  "network_field line info =
     (if has_field line [''route:'', ''Route:'', ''inetnum:'', ''Inetnum:'', ''CIDR:'', ''cidr:'']
      then (case line_value line of
              None \<Rightarrow> info
            | Some cidr \<Rightarrow>
                (let info = info\<lparr>ni_Network := cidr\<rparr>
                 in if Contains cidr ''/'' then info\<lparr>ni_CIDR := cidr\<rparr>
                    else if \<not> Contains cidr '' - '' then info
                    else case split_range '''' cidr of
                      [a, b] \<Rightarrow>
                        (case (ParseIP (TrimSpace a), ParseIP (TrimSpace b)) of
                           (Some startIP, Some _) \<Rightarrow> info\<lparr>ni_CIDR := ip_string startIP @ ''/24''\<rparr>
                         | _ \<Rightarrow> info)
                    | _ \<Rightarrow> info)) else info)"

definition country_field :: "string \<Rightarrow> NetworkInfo \<Rightarrow> NetworkInfo" where
  "country_field line info =
     (if has_field line [''country:'', ''Country:'']
      then (case line_value line of Some v \<Rightarrow> info\<lparr>ni_Country := v\<rparr> | None \<Rightarrow> info) else info)"

definition isp_field :: "string \<Rightarrow> NetworkInfo \<Rightarrow> NetworkInfo" where
  "isp_field line info =
     (if has_field line [''netname:'', ''NetName:'', ''org-name:'', ''OrgName:'']
      then (case line_value line of
              Some v \<Rightarrow> if ni_ISP info = '''' then info\<lparr>ni_ISP := v\<rparr> else info
            | None \<Rightarrow> info) else info)"

definition whois_line :: "NetworkInfo \<Rightarrow> string \<Rightarrow> NetworkInfo" where
  "whois_line info text_line =
     (let line = TrimSpace text_line
      in isp_field line (country_field line (network_field line (as_name_field line (asn_field line info)))))"

definition getNetworkInfoFromWhois :: "network \<Rightarrow> string \<Rightarrow> NetworkInfo" where
  "getNetworkInfoFromWhois nw ip =
     (case nw_whois nw ip of
        None \<Rightarrow> (empty_info ip)\<lparr>ni_Error := ''whois command failed''\<rparr>
      | Some result \<Rightarrow>
          (let info = foldl whois_line (empty_info ip) (lines_of result)
           in if ni_ASN info \<noteq> '''' \<or> ni_Network info \<noteq> '''' \<or> ni_Country info \<noteq> ''''
              then info\<lparr>ni_Error := ''''\<rparr> else info))"

definition org_field :: "string \<Rightarrow> NetworkInfo \<Rightarrow> NetworkInfo" where
  "org_field org info =
     (if org = '''' then info
      else case Fields org of
        p # ps \<Rightarrow>
          (if HasPrefix p ''AS''
           then info\<lparr>ni_ASN := p, ni_ASName := (if ps = [] then ni_ASName info else Join CHR '' '' ps), ni_ISP := org\<rparr>
           else info\<lparr>ni_ISP := org\<rparr>)
      | [] \<Rightarrow> info\<lparr>ni_ISP := org\<rparr>)"

definition getNetworkInfoFromAPI :: "network \<Rightarrow> string \<Rightarrow> NetworkInfo" where
  "getNetworkInfoFromAPI nw ip =
     (let info = empty_info ip
      in case nw_api nw ip of
        RequestFailed e \<Rightarrow> info\<lparr>ni_Error := ''API request failed: '' @ e\<rparr>
      | ApiStatus n \<Rightarrow> info\<lparr>ni_Error := ''API returned status: '' @ nw_status_text nw n\<rparr>
      | BadJson e \<Rightarrow> info\<lparr>ni_Error := ''Failed to parse API response: '' @ e\<rparr>
      | ApiResponse org country \<Rightarrow>
          (let info = (org_field org info)\<lparr>ni_Country := country\<rparr>
           in case Option.bind (ParseIP ip) To4 of
                Some [a, b, c, _] \<Rightarrow>
                  info\<lparr>ni_CIDR := ip4_string [a, b, c, 0] @ ''/24'', ni_Network := ip4_string [a, b, c, 0]\<rparr>
              | _ \<Rightarrow> info))"

definition getNetworkInfo :: "network \<Rightarrow> string \<Rightarrow> whoisCache \<Rightarrow> NetworkInfo \<times> whoisCache" where
  "getNetworkInfo nw ip c =
     (case getFromCache c ip of
        Some cachedInfo \<Rightarrow> (cachedInfo, c)
      | None \<Rightarrow>
          (let info = getNetworkInfoFromWhois nw ip
           in if ni_Error info = '''' then (info, saveToCache ip info c)
              else let info = getNetworkInfoFromAPI nw ip
                   in if ni_Error info = '''' then (info, saveToCache ip info c) else (info, c)))"

section \<open>The route of an address\<close>

definition resolveDomain :: "network \<Rightarrow> string \<Rightarrow> string + string list" where
  "resolveDomain nw domain =
     (case nw_LookupIP nw domain of
        Inl e \<Rightarrow> Inl (''failed to resolve domain: '' @ e)
      | Inr ips \<Rightarrow>
          (let ipv4Addrs = map ip4_string (List.map_filter To4 ips)
           in if ipv4Addrs = [] then Inl ''no IPv4 addresses found for domain'' else Inr ipv4Addrs))"

text \<open>The loop over the words: every keyword sets its field to the next word, if there is one.\<close>

fun route_words :: "IpRouteInfo \<Rightarrow> string list \<Rightarrow> IpRouteInfo" where
  "route_words r [] = r"
| "route_words r [p] = r"
| "route_words r (p # v # ps) =
     route_words
       (if p = ''via'' then r\<lparr>rt_Via := v\<rparr>
        else if p = ''dev'' then r\<lparr>rt_Interface := v\<rparr>
        else if p = ''src'' then r\<lparr>rt_Source := v\<rparr> else r) (v # ps)"

definition local_route :: "bytes \<Rightarrow> string \<Rightarrow> IpRouteInfo \<Rightarrow> IpRouteInfo" where
  "local_route parsedIP result r =
     (if IsLoopback parsedIP \<or> Contains result ''local'' then r\<lparr>rt_Interface := ''lo'', rt_Via := ''local''\<rparr>
      else if Contains result ''linkdown''
        then r\<lparr>rt_Interface := ''unknown'', rt_Error := ''interface unavailable (linkdown)''\<rparr>
      else r\<lparr>rt_Interface := ''unknown'', rt_Error := ''failed to determine interface''\<rparr>)"

definition getRouteInfo :: "network \<Rightarrow> string \<Rightarrow> string + IpRouteInfo" where
  "getRouteInfo nw ip =
     (case ParseIP ip of
        None \<Rightarrow> Inl (''invalid IP address: '' @ ip)
      | Some parsedIP \<Rightarrow>
          (case nw_ip_get nw ip of
             Inl e \<Rightarrow> Inl (''error executing ip command: '' @ e)
           | Inr out \<Rightarrow>
               (let result = TrimSpace out;
                    routeInfo = \<lparr>rt_Destination = ip, rt_Via = '''', rt_Interface = '''', rt_Source = '''', rt_Error = ''''\<rparr>;
                    parts = Fields result
                in if length parts < 2
                   then Inr (routeInfo\<lparr>rt_Error := ''unexpected ip command output format''\<rparr>)
                   else let r = route_words routeInfo parts
                        in Inr (if rt_Interface r = '''' then local_route parsedIP result r else r))))"

section \<open>Requests\<close>

definition lookup_ip :: "network \<Rightarrow> string \<Rightarrow> IpRouteInfo" where
  "lookup_ip nw ip =
     (case getRouteInfo nw ip of
        Inl e \<Rightarrow> \<lparr>rt_Destination = ip, rt_Via = '''', rt_Interface = '''', rt_Source = '''', rt_Error = e\<rparr>
      | Inr r \<Rightarrow> r)"

fun network_infos :: "network \<Rightarrow> string \<Rightarrow> string list \<Rightarrow> whoisCache \<Rightarrow> NetworkInfo list \<times> whoisCache" where
  "network_infos nw input [] c = ([], c)"
| "network_infos nw input (ip # ips) c =
     (case getNetworkInfo nw ip c of
        (info, c1) \<Rightarrow>
          (case network_infos nw input ips c1 of
             (infos, c2) \<Rightarrow> (info\<lparr>ni_ResolvedFrom := input\<rparr> # infos, c2)))"

definition asked_infos :: "network \<Rightarrow> bool \<Rightarrow> string \<Rightarrow> string list \<Rightarrow> whoisCache \<Rightarrow> NetworkInfo list \<times> whoisCache" where
  "asked_infos nw asQuery input ips c = (if asQuery then network_infos nw input ips c else ([], c))"

definition processInput :: "network \<Rightarrow> string \<Rightarrow> bool \<Rightarrow> whoisCache \<Rightarrow> (string + RouteResponse) \<times> whoisCache" where
  "processInput nw input asQuery c =
     (if ParseIP input \<noteq> None
      then (case getRouteInfo nw input of
              Inl e \<Rightarrow> (Inl e, c)
            | Inr routeInfo \<Rightarrow>
                (case asked_infos nw asQuery ''direct_ip'' [input] c of
                   (infos, c') \<Rightarrow>
                     (Inr \<lparr>rr_Input = input, rr_ResolvedIP = [input], rr_IsDomain = False, rr_Routes = [routeInfo],
                           rr_NetworkInfo = infos, rr_Error = ''''\<rparr>, c')))
      else case resolveDomain nw input of
        Inl e \<Rightarrow> (Inl e, c)
      | Inr ips \<Rightarrow>
          (case asked_infos nw asQuery input ips c of
             (infos, c') \<Rightarrow>
               (Inr \<lparr>rr_Input = input, rr_ResolvedIP = ips, rr_IsDomain = True, rr_Routes = map (lookup_ip nw) ips,
                     rr_NetworkInfo = infos, rr_Error = ''''\<rparr>, c')))"

text \<open>A request: its method, the parameters \<^verbatim>\<open>ip\<close> of the query and of the form, and \<^verbatim>\<open>as\<close>.\<close>

record lookup_request =
  lk_Method :: string
  lk_query_ip :: string
  lk_form_ip :: string
  lk_query_as :: string

datatype lookup_reply = Preflight | IpRequired | JsonReply RouteResponse

definition routeHandler :: "network \<Rightarrow> lookup_request \<Rightarrow> whoisCache \<Rightarrow> lookup_reply \<times> whoisCache" where
  "routeHandler nw r c =
     (if lk_Method r = ''OPTIONS'' then (Preflight, c)
      else
        let input = (if lk_query_ip r = '''' \<and> lk_Method r = ''POST'' then lk_form_ip r else lk_query_ip r)
        in if input = '''' then (IpRequired, c)
           else case processInput nw input (lk_query_as r = ''1'') c of
             (Inl e, c') \<Rightarrow>
               (JsonReply \<lparr>rr_Input = input, rr_ResolvedIP = [], rr_IsDomain = False, rr_Routes = [],
                           rr_NetworkInfo = [], rr_Error = e\<rparr>, c')
           | (Inr response, c') \<Rightarrow> (JsonReply response, c'))"

end
