(* ===== verification/Route_Lookup_Props.thy ===== *)
theory Route_Lookup_Props
  imports Route_Lookup
begin

text \<open>
  What a lookup answers: one route for every address of a name, in the order of the resolver, and a
  cache that never forgets.
\<close>

section \<open>The cache only grows\<close>

lemma getNetworkInfo_extends:
  "map_of c \<subseteq>\<^sub>m map_of (snd (getNetworkInfo nw ip c))"
  by (auto simp: getNetworkInfo_def getFromCache_def saveToCache_def Let_def map_le_def split: option.splits)

lemma network_infos_extends: "map_of c \<subseteq>\<^sub>m map_of (snd (network_infos nw input ips c))"
proof (induction nw input ips c rule: network_infos.induct)
  case (2 nw input ip ips c)
  obtain info c1 where g: "getNetworkInfo nw ip c = (info, c1)" by (cases "getNetworkInfo nw ip c")
  have "map_of c \<subseteq>\<^sub>m map_of c1" using getNetworkInfo_extends [of c nw ip] g by simp
  moreover have "map_of c1 \<subseteq>\<^sub>m map_of (snd (network_infos nw input ips c1))" using 2 [OF g [symmetric]] by simp
  ultimately show ?case using g by (auto split: prod.split dest: map_le_trans)
qed simp

lemma asked_infos_extends: "asked_infos nw q input ips c = (infos, c') \<Longrightarrow> map_of c \<subseteq>\<^sub>m map_of c'"
  using network_infos_extends [of c nw input ips] by (auto simp: asked_infos_def split: if_splits)

lemma processInput_extends: "map_of c \<subseteq>\<^sub>m map_of (snd (processInput nw input asQuery c))"
  by (auto simp: processInput_def split: sum.split prod.split intro: asked_infos_extends)

lemma routeHandler_extends: "map_of c \<subseteq>\<^sub>m map_of (snd (routeHandler nw r c))"
proof -
  have "map_of c \<subseteq>\<^sub>m map_of c'" if "processInput nw i q c = (x, c')" for i q x c'
    using processInput_extends [of c nw i q] that by simp
  then show ?thesis by (auto simp: routeHandler_def Let_def split: prod.split sum.split)
qed

text \<open>Requests, each with the network it finds.\<close>

fun serve_lookups :: "(network \<times> lookup_request) list \<Rightarrow> whoisCache \<Rightarrow> whoisCache" where
  "serve_lookups [] c = c"
| "serve_lookups ((nw, r) # rs) c = serve_lookups rs (snd (routeHandler nw r c))"

lemma serve_lookups_extends: "map_of c \<subseteq>\<^sub>m map_of (serve_lookups rs c)"
proof (induction rs c rule: serve_lookups.induct)
  case (2 nw r rs c)
  then show ?case using routeHandler_extends [of c nw r] by (auto intro: map_le_trans)
qed simp

lemma field_errors [simp]:
  "ni_Error (asn_field l i) = ni_Error i" "ni_Error (as_name_field l i) = ni_Error i"
  "ni_Error (network_field l i) = ni_Error i" "ni_Error (country_field l i) = ni_Error i"
  "ni_Error (isp_field l i) = ni_Error i"
  by (auto simp: asn_field_def as_name_field_def network_field_def country_field_def isp_field_def Let_def
      split: option.split list.split)

lemma whois_no_error: "nw_whois nw ip = Some out \<Longrightarrow> ni_Error (getNetworkInfoFromWhois nw ip) = ''''"
proof -
  assume w: "nw_whois nw ip = Some out"
  have "ni_Error (foldl whois_line i ls) = ni_Error i" for i ls
    by (induction ls arbitrary: i) (simp_all add: whois_line_def Let_def)
  then show ?thesis by (simp add: getNetworkInfoFromWhois_def w empty_info_def Let_def)
qed

text \<open>If the \<^verbatim>\<open>whois\<close> command runs at all, its answer for an address is final, even when
  nothing in it was understood: the API is not asked, and every later lookup of the address gives the
  same answer, whatever \<^verbatim>\<open>whois\<close> and the API would say by then.\<close>

theorem first_whois_answer_is_final:
  assumes "map_of c ip = None" "nw_whois nw ip = Some out"
    and "c' = serve_lookups rs (snd (getNetworkInfo nw ip c))"
  shows "getNetworkInfo nw' ip c' = (getNetworkInfoFromWhois nw ip, c')"
proof -
  have "map_of (snd (getNetworkInfo nw ip c)) ip = Some (getNetworkInfoFromWhois nw ip)"
    using whois_no_error [OF assms(2)] assms(1)
    by (simp add: getNetworkInfo_def getFromCache_def saveToCache_def Let_def)
  then have "map_of c' ip = Some (getNetworkInfoFromWhois nw ip)"
    unfolding assms(3) using serve_lookups_extends [of "snd (getNetworkInfo nw ip c)" rs]
    by (metis domI map_le_def)
  then show ?thesis by (simp add: getNetworkInfo_def getFromCache_def)
qed

section \<open>Routes\<close>

lemma route_words_destination [simp]: "rt_Destination (route_words r ps) = rt_Destination r"
  by (induction r ps rule: route_words.induct) auto

lemma local_route_simps [simp]:
  "rt_Destination (local_route ip result r) = rt_Destination r" "rt_Interface (local_route ip result r) \<noteq> ''''"
  by (simp_all add: local_route_def)

lemma getRouteInfo_Inr:
  assumes "getRouteInfo nw ip = Inr r"
  shows "rt_Destination r = ip \<and> (rt_Error r \<noteq> '''' \<or> rt_Interface r \<noteq> '''')"
proof -
  define z where "z = \<lparr>rt_Destination = ip, rt_Via = '''', rt_Interface = '''', rt_Source = '''', rt_Error = ''''\<rparr>"
  obtain b out where "ParseIP ip = Some b" "nw_ip_get nw ip = Inr out"
    using assms by (auto simp: getRouteInfo_def split: option.splits sum.splits)
  then have "r = (let ps = Fields (TrimSpace out) in
      if length ps < 2 then z\<lparr>rt_Error := ''unexpected ip command output format''\<rparr>
      else if rt_Interface (route_words z ps) = '''' then local_route b (TrimSpace out) (route_words z ps)
      else route_words z ps)"
    using assms by (simp add: getRouteInfo_def z_def Let_def split: if_splits)
  then show ?thesis by (simp add: Let_def z_def split: if_splits)
qed

lemma getRouteInfo_Inl: "getRouteInfo nw ip = Inl e \<Longrightarrow> e \<noteq> ''''"
  by (cases "ParseIP ip"; cases "nw_ip_get nw ip") (auto simp: getRouteInfo_def Let_def split: if_splits)

lemma lookup_ip_shape:
  "rt_Destination (lookup_ip nw ip) = ip \<and> (rt_Error (lookup_ip nw ip) \<noteq> '''' \<or> rt_Interface (lookup_ip nw ip) \<noteq> '''')"
proof (cases "getRouteInfo nw ip")
  case (Inl e)
  with getRouteInfo_Inl [OF Inl] show ?thesis by (simp add: lookup_ip_def)
next
  case (Inr r)
  with getRouteInfo_Inr [OF Inr] show ?thesis by (simp add: lookup_ip_def)
qed

lemma network_infos_shape:
  "length (fst (network_infos nw input ips c)) = length ips \<and>
   (\<forall>info \<in> set (fst (network_infos nw input ips c)). ni_ResolvedFrom info = input)"
proof (induction ips arbitrary: c)
  case (Cons ip ips)
  obtain info c1 infos c2 where "getNetworkInfo nw ip c = (info, c1)" "network_infos nw input ips c1 = (infos, c2)"
    by (metis surj_pair)
  with Cons [of c1] show ?case by simp
qed simp

lemma resolved_valid: "resolveDomain nw domain = Inr ips \<Longrightarrow> ip \<in> set ips \<Longrightarrow> ParseIP ip \<noteq> None"
proof -
  have "length b4 = 4" if "To4 b = Some b4" for b b4
    using that by (auto simp: To4_def split: if_splits)
  moreover assume "resolveDomain nw domain = Inr ips" "ip \<in> set ips"
  then obtain b b4 where "To4 b = Some b4" "ip = ip4_string b4"
    by (auto simp: resolveDomain_def Let_def map_filter_def split: sum.splits if_splits)
  ultimately show ?thesis by (simp add: ParseIP_ip4_string)
qed

text \<open>C39. A name is answered with one route for every IPv4 address the resolver gives, in its order:
  each is for its address, and carries an error or names an interface; networks are reported only if
  asked for, one for each address. A name without an IPv4 address is the only error.\<close>

theorem name_lookup_reports_every_address:
  assumes "ParseIP input = None" "nw_LookupIP nw input = Inr ips"
    and "addrs = map ip4_string (List.map_filter To4 ips)"
  shows "if addrs = [] then fst (processInput nw input asQuery c) = Inl ''no IPv4 addresses found for domain''
    else \<exists>resp. fst (processInput nw input asQuery c) = Inr resp \<and>
      rr_ResolvedIP resp = addrs \<and> map rt_Destination (rr_Routes resp) = addrs \<and>
      (\<forall>r \<in> set (rr_Routes resp). rt_Error r \<noteq> '''' \<or> rt_Interface r \<noteq> '''') \<and>
      length (rr_NetworkInfo resp) = (if asQuery then length addrs else 0) \<and>
      (\<forall>info \<in> set (rr_NetworkInfo resp). ni_ResolvedFrom info = input)"
proof (cases "addrs = []")
  case True
  then show ?thesis using assms by (simp add: processInput_def resolveDomain_def)
next
  case False
  then have r: "resolveDomain nw input = Inr addrs" using assms by (simp add: resolveDomain_def)
  obtain infos c' where i: "asked_infos nw asQuery input addrs c = (infos, c')" by (metis surj_pair)
  have "length infos = (if asQuery then length addrs else 0) \<and> (\<forall>info \<in> set infos. ni_ResolvedFrom info = input)"
    using network_infos_shape [of nw input addrs c] i by (auto simp: asked_infos_def split: if_splits)
  moreover have "fst (processInput nw input asQuery c) =
      Inr \<lparr>rr_Input = input, rr_ResolvedIP = addrs, rr_IsDomain = True, rr_Routes = map (lookup_ip nw) addrs,
           rr_NetworkInfo = infos, rr_Error = ''''\<rparr>"
    using assms(1) i by (simp add: processInput_def r)
  ultimately show ?thesis using lookup_ip_shape [of nw] False by (simp add: map_idI)
qed

section \<open>The properties at concrete inputs\<close>

definition ex_network :: "string \<Rightarrow> network" where
  "ex_network text =
     \<lparr>nw_whois = \<lambda>_. Some text,
      nw_api = \<lambda>_. ApiResponse ''AS13335 Cloudflare'' ''US'',
      nw_ip_get = \<lambda>ip. Inr (ip @ '' via 10.0.0.1 dev eth0 src 10.0.0.2''),
      nw_LookupIP = \<lambda>_. Inr [[1, 1, 1, 1], replicate 15 0 @ [1]],
      nw_status_text = \<lambda>_. ''''\<rparr>"

theorem first_whois_answer_is_final_witness:
  "ni_ASN (fst (getNetworkInfo (ex_network ''origin: AS13335'') ''1.1.1.1''
     (snd (getNetworkInfo (ex_network ''no match'') ''1.1.1.1'' [])))) = ''''"
proof -
  have n: "map_of ([] :: whoisCache) ''1.1.1.1'' = None" by simp
  have w: "nw_whois (ex_network ''no match'') ''1.1.1.1'' = Some ''no match''" by (simp add: ex_network_def)
  have s: "snd (getNetworkInfo (ex_network ''no match'') ''1.1.1.1'' []) =
      serve_lookups [] (snd (getNetworkInfo (ex_network ''no match'') ''1.1.1.1'' []))" by simp
  have "ni_ASN (getNetworkInfoFromWhois (ex_network ''no match'') ''1.1.1.1'') = ''''" by code_simp
  then show ?thesis using first_whois_answer_is_final [OF n w s] by simp
qed

theorem name_lookup_reports_every_address_witness:
  "\<exists>resp. fst (processInput (ex_network ''no match'') ''one.one'' True []) = Inr resp \<and>
     rr_ResolvedIP resp = [''1.1.1.1''] \<and> length (rr_NetworkInfo resp) = 1"
proof -
  have p: "ParseIP ''one.one'' = None" by code_simp
  have l: "nw_LookupIP (ex_network ''no match'') ''one.one'' = Inr [[1, 1, 1, 1], replicate 15 0 @ [1]]"
    by (simp add: ex_network_def)
  have a: "[''1.1.1.1''] = map ip4_string (List.map_filter To4 [[1, 1, 1, 1], replicate 15 0 @ [1]])" by code_simp
  show ?thesis using name_lookup_reports_every_address [OF p l a, of True "[]"] by auto
qed

end
