(* ===== verification/Route_Table.thy ===== *)
theory Route_Table
  imports Session_Props
begin

text \<open>
  The learned table against its abstract specification. The specification is an unbounded map from
  hosts to upstreams that takes every operation at its word; the table of
  \<^verbatim>\<open>internal/routing/learned.go\<close> evicts, expires and prunes. The locale \<open>lossy_map\<close> is the contract
  between the two: an operation ends, it may forget bindings but not change them, and it reports how many
  it forgot.
\<close>

section \<open>Tables that may forget\<close>

text \<open>A sequence of operations, with what each reports: success, and the number of dropped entries.\<close>

fun run_ops ::
  "('op \<Rightarrow> 's \<Rightarrow> ((bool \<times> nat) \<times> 's) option) \<Rightarrow> 'op list \<Rightarrow> 's \<Rightarrow> ((bool \<times> nat) list \<times> 's) option" where
  "run_ops act [] s = Some ([], s)"
| "run_ops act (op # ops) s =
     (case act op s of None \<Rightarrow> None
      | Some (rep, s1) \<Rightarrow> map_option (\<lambda>(reps, s2). (rep # reps, s2)) (run_ops act ops s1))"

text \<open>The specification takes the operations that succeeded.\<close>

fun said_after ::
  "('op \<Rightarrow> ('k \<rightharpoonup> 'v) \<Rightarrow> 'k \<rightharpoonup> 'v) \<Rightarrow> 'op list \<Rightarrow> (bool \<times> nat) list \<Rightarrow> ('k \<rightharpoonup> 'v) \<Rightarrow> 'k \<rightharpoonup> 'v" where
  "said_after said (op # ops) ((ok, n) # reps) m = said_after said ops reps (if ok then said op m else m)"
| "said_after said ops reps m = m"

locale lossy_map =
  fixes act :: "'op \<Rightarrow> 's \<Rightarrow> ((bool \<times> nat) \<times> 's) option"
    and said :: "'op \<Rightarrow> ('k \<rightharpoonup> 'v) \<Rightarrow> 'k \<rightharpoonup> 'v"
    and route :: "'s \<Rightarrow> 'k \<rightharpoonup> 'v"
    and good :: "'s \<Rightarrow> bool"
  assumes total: "good s \<Longrightarrow> \<exists>ok n s'. act op s = Some ((ok, n), s')"
    and keeps: "good s \<Longrightarrow> act op s = Some ((ok, n), s') \<Longrightarrow> good s'"
    and follows: "good s \<Longrightarrow> act op s = Some ((ok, n), s') \<Longrightarrow>
      route s' \<subseteq>\<^sub>m (if ok then said op (route s) else route s)"
    and reports: "good s \<Longrightarrow> act op s = Some ((ok, n), s') \<Longrightarrow>
      card (dom (if ok then said op (route s) else route s) - dom (route s')) \<le> n"
    and said_mono: "m \<subseteq>\<^sub>m m' \<Longrightarrow> said op m \<subseteq>\<^sub>m said op m'"
    and said_dom: "dom (said op m') - dom (said op m) \<subseteq> dom m' - dom m"
    and said_finite: "finite (dom m) \<Longrightarrow> finite (dom (said op m))"
begin

text \<open>One step of the simulation: what is missing grows by at most what the operation reports.\<close>

lemma step:
  assumes "good s" and a: "act op s = Some ((ok, n), s')" and m: "route s \<subseteq>\<^sub>m m" "finite (dom m)"
  defines "m' \<equiv> if ok then said op m else m"
  shows "route s' \<subseteq>\<^sub>m m'" and "finite (dom m')"
    and "card (dom m' - dom (route s')) \<le> card (dom m - dom (route s)) + n"
proof -
  let ?r = "if ok then said op (route s) else route s"
  have r: "?r \<subseteq>\<^sub>m m'" using m said_mono by (simp add: m'_def)
  with follows [OF assms(1) a] show "route s' \<subseteq>\<^sub>m m'" by (rule map_le_trans)
  show f: "finite (dom m')" using m said_finite by (simp add: m'_def)
  have sub: "dom m' - dom (route s') \<subseteq> (dom m - dom (route s)) \<union> (dom ?r - dom (route s'))"
    using said_dom [of op m "route s"] by (auto simp: m'_def)
  have "finite (dom ?r)" using f r by (meson finite_subset map_le_implies_dom_le)
  with m(2) sub have "card (dom m' - dom (route s')) \<le> card ((dom m - dom (route s)) \<union> (dom ?r - dom (route s')))"
    by (intro card_mono) auto
  also have "\<dots> \<le> card (dom m - dom (route s)) + card (dom ?r - dom (route s'))" by (rule card_Un_le)
  finally show "card (dom m' - dom (route s')) \<le> card (dom m - dom (route s)) + n"
    using reports [OF assms(1) a] by linarith
qed

lemma run_missing:
  assumes "good s" and "route s \<subseteq>\<^sub>m m" and "finite (dom m)"
  shows "\<exists>reps s'. run_ops act ops s = Some (reps, s') \<and> good s' \<and> route s' \<subseteq>\<^sub>m said_after said ops reps m
    \<and> finite (dom (said_after said ops reps m))
    \<and> card (dom (said_after said ops reps m) - dom (route s')) \<le> card (dom m - dom (route s)) + sum_list (map snd reps)"
  using assms
proof (induction ops arbitrary: s m)
  case (Cons op ops)
  from total [OF Cons.prems(1)] obtain ok n s1 where a: "act op s = Some ((ok, n), s1)" by blast
  note st = step [OF Cons.prems(1) a Cons.prems(2,3)]
  from Cons.IH [OF keeps [OF Cons.prems(1) a] st(1,2)] st(3) a show ?case by fastforce
qed simp

text \<open>From equal maps: a submap, with as many losses as reported; without losses, the same map.\<close>

lemma run_refines:
  assumes "good s" and "finite (dom (route s))"
  shows "\<exists>reps s'. run_ops act ops s = Some (reps, s') \<and> good s' \<and> route s' \<subseteq>\<^sub>m said_after said ops reps (route s)
    \<and> card (dom (said_after said ops reps (route s)) - dom (route s')) \<le> sum_list (map snd reps)
    \<and> (sum_list (map snd reps) = 0 \<longrightarrow> route s' = said_after said ops reps (route s))"
proof -
  from run_missing [OF assms(1) map_le_refl assms(2), of ops] obtain reps s' where
    run: "run_ops act ops s = Some (reps, s')" "good s'" and le: "route s' \<subseteq>\<^sub>m said_after said ops reps (route s)"
    and fin: "finite (dom (said_after said ops reps (route s)))"
    and card: "card (dom (said_after said ops reps (route s)) - dom (route s')) \<le> sum_list (map snd reps)" by auto
  have "route s' = said_after said ops reps (route s)" if "sum_list (map snd reps) = 0"
  proof (rule map_le_antisym [OF le])
    have "dom (said_after said ops reps (route s)) \<subseteq> dom (route s')" using card fin that by simp
    with le show "said_after said ops reps (route s) \<subseteq>\<^sub>m route s'" by (force simp: map_le_def)
  qed
  with run le card show ?thesis by (intro exI [of _ reps] exI [of _ s']) simp
qed

end

section \<open>The operations of the store\<close>

datatype table_op =
    Learn save_fault time string string string int
  | Forget save_fault string
  | Use string time
  | Expire save_fault duration time
  | Shrink save_fault int
  | Save save_fault

definition report :: "('e + 'a) \<times> 's \<Rightarrow> ('a \<Rightarrow> nat) \<Rightarrow> (bool \<times> nat) \<times> 's" where
  "report r dropped = (case r of (Inl _, s) \<Rightarrow> ((False, 0), s) | (Inr x, s) \<Rightarrow> ((True, dropped x), s))"

fun perform :: "'y yaml \<Rightarrow> table_op \<Rightarrow> 'y Store \<Rightarrow> ((bool \<times> nat) \<times> 'y Store) option" where
  "perform Y (Learn f now host up reason limit) s =
     Some (report (AddWithLimit Y f now s host up reason limit) (\<lambda>(added, ev). if ev = None then 0 else 1))"
| "perform Y (Forget f host) s = Some (report (Delete Y f s host) (\<lambda>_. 0))"
| "perform Y (Use host now) s = Some (case MarkUsed s host now of (found, s') \<Rightarrow> ((found, 0), s'))"
| "perform Y (Expire f ttl now) s = Some (report (PruneExpired Y f s ttl now) nat)"
| "perform Y (Shrink f limit) s = map_option (\<lambda>r. report r nat) (PruneToLimit Y f s limit)"
| "perform Y (Save f) s = Some (case Flush Y f s of (e, s') \<Rightarrow> ((e = None, 0), s'))"

text \<open>The same operations on the specification: only learning and forgetting say anything.\<close>

fun said :: "table_op \<Rightarrow> (string \<rightharpoonup> string) \<Rightarrow> string \<rightharpoonup> string" where
  "said (Learn f now host up reason limit) m = m(normalizeHost host \<mapsto> up)"
| "said (Forget f host) m = m(normalizeHost host := None)"
| "said op m = m"

definition routes :: "'y Store \<Rightarrow> string \<rightharpoonup> string" where
  "routes s = (\<lambda>k. map_option ld_Upstream (map_of (st_domains s) k))"

lemma dom_routes: "dom (routes s) = dom (map_of (st_domains s))"
  by (auto simp: routes_def)

lemma same_routes_iff: "same_routes s s' \<longleftrightarrow> routes s' = routes s"
  by (simp add: same_routes_def routes_def fun_eq_iff)

lemma same_store_routes: "same_store s s' \<Longrightarrow> routes s' = routes s"
  by (simp add: same_store_def routes_def)

text \<open>What an operation must do to the table, as the contract asks for it.\<close>

definition simulated :: "table_op \<Rightarrow> 'y Store \<Rightarrow> bool \<times> nat \<Rightarrow> 'y Store \<Rightarrow> bool" where
  "simulated op s rep s' \<longleftrightarrow> store_ok s' \<and> (let m = (if fst rep then said op (routes s) else routes s)
     in routes s' \<subseteq>\<^sub>m m \<and> card (dom m - dom (routes s')) \<le> snd rep)"

lemma simulated_same: "store_ok s' \<Longrightarrow> routes s' = routes s \<Longrightarrow> \<not> ok \<or> said op (routes s) = routes s \<Longrightarrow> simulated op s (ok, n) s'"
  by (auto simp: simulated_def Let_def)


lemma learn_simulated:
  assumes ok: "store_ok s"
  shows "\<exists>rep s'. perform Y (Learn f now host up reason limit) s = Some (rep, s')
    \<and> simulated (Learn f now host up reason limit) s rep s'"
proof -
  obtain r s' where a: "AddWithLimit Y f now s host up reason limit = (r, s')" by fastforce
  have ok': "store_ok s'" by (rule AddWithLimit_ok [OF ok a])
  let ?h = "normalizeHost host"
  from a show ?thesis
  proof (cases rule: AddWithLimit_cases)
    case present
    then have "routes s' = (routes s)(?h \<mapsto> up)" by (auto simp: routes_def routed_to_def fun_eq_iff)
    with a present ok show ?thesis by (simp add: report_def simulated_def)
  next
    case (added content)
    let ?ev = "evicts s ?h limit"
    have "routes s' \<subseteq>\<^sub>m (routes s)(?h \<mapsto> up)"
      and "dom ((routes s)(?h \<mapsto> up)) - dom (routes s') \<subseteq> ld_Host ` set_option ?ev"
      using added(6) by (auto simp: routes_def map_le_def with_new_def without_evicted_def new_entry_def split: option.splits if_splits)
    moreover from card_mono [OF _ this(2)] have
      "card (dom ((routes s)(?h \<mapsto> up)) - dom (routes s')) \<le> (if ?ev = None then 0 else 1)"
      by (cases ?ev) simp_all
    ultimately show ?thesis using a added(5) ok' by (simp add: report_def simulated_def)
  next
    case (undone err)
    with AddWithLimit_failed [OF ok] a have "routes s' = routes s" by (auto intro: same_store_routes)
    with a undone(5) ok' show ?thesis by (simp add: report_def simulated_same)
  qed (use a ok in \<open>simp_all add: report_def simulated_same\<close>)
qed

lemma forget_simulated:
  assumes ok: "store_ok s"
  shows "\<exists>rep s'. perform Y (Forget f host) s = Some (rep, s') \<and> simulated (Forget f host) s rep s'"
proof -
  obtain r s' where d: "Delete Y f s host = (r, s')" by fastforce
  have ok': "store_ok s'" by (rule Delete_ok [OF ok d])
  show ?thesis
  proof (cases r)
    case (Inl err)
    with d have "routes s' = routes s" by (auto intro: same_store_routes Delete_failed)
    with d Inl ok' show ?thesis by (simp add: report_def simulated_same)
  next
    case (Inr b)
    with Delete_deleted d have "routes s' = (routes s)(normalizeHost host := None)"
      by (fastforce simp: routes_def)
    with d Inr ok' show ?thesis by (simp add: report_def simulated_def)
  qed
qed

text \<open>Both pruning operations end in \<open>finish_prune\<close>.\<close>

lemma prune_simulated:
  assumes ok: "store_ok s" and split: "splits_table (st_domains s) kept removed"
    and p: "finish_prune Y f s kept removed = (r, s')" and said: "said op (routes s) = routes s"
  shows "\<exists>rep s''. report (r, s') nat = (rep, s'') \<and> simulated op s rep s''"
proof (cases r)
  case (Inl err)
  with finish_prune_failed [OF split] p have "routes s' = routes s" by (auto intro: same_store_routes)
  with Inl finish_prune_ok [OF split p] show ?thesis by (simp add: report_def simulated_same)
next
  case (Inr n)
  with finish_prune_done [of Y f s kept removed n s'] p have k: "st_domains s' = kept" "nat n = length removed" by simp_all
  have "map_of (st_domains s) h = Some e" if "map_of kept h = Some e" for h e
    using that by (simp add: splits_table_mem [OF split])
  then have "routes s' \<subseteq>\<^sub>m routes s"
    by (auto simp: map_le_def routes_def k(1))
  moreover have "dom (routes s) - dom (routes s') = dom (map_of removed)"
    using splits_table_mem [OF split] split by (auto simp: dom_routes k(1) splits_table_def)
  moreover have "card (dom (map_of removed)) = length removed"
    using split by (simp add: splits_table_def length_wf_map table_ok_wf)
  ultimately show ?thesis using Inr finish_prune_ok [OF split p] said k(2)
    by (simp add: report_def simulated_def)
qed

lemma expire_simulated:
  assumes ok: "store_ok s"
  shows "\<exists>rep s'. perform Y (Expire f ttl now) s = Some (rep, s') \<and> simulated (Expire f ttl now) s rep s'"
  using prune_simulated [OF ok splits_expired [OF ok] surjective_pairing, of "Expire f ttl now" Y f ttl now] ok
  by (cases "ttl \<le> 0") (simp_all add: PruneExpired_def report_def simulated_same)

lemma shrink_simulated:
  assumes ok: "store_ok s"
  shows "\<exists>rep s'. perform Y (Shrink f limit) s = Some (rep, s') \<and> simulated (Shrink f limit) s rep s'"
proof (cases "0 < limit")
  case True
  obtain kept removed where "PruneToLimit Y f s limit = Some (finish_prune Y f s kept removed)"
    and "splits_table (st_domains s) kept removed"
    by (rule PruneToLimit_cases [OF ok True])
  with prune_simulated [OF ok this(2) surjective_pairing, of "Shrink f limit" Y f] show ?thesis by simp
qed (simp add: PruneToLimit_def report_def simulated_same ok)

lemma perform_simulated:
  assumes ok: "store_ok s"
  shows "\<exists>rep s'. perform Y op s = Some (rep, s') \<and> simulated op s rep s'"
proof (cases op)
  case (Use host now)
  with MarkUsed_effect [OF ok, of host now] show ?thesis
    by (cases "MarkUsed s host now") (simp add: simulated_same same_routes_iff)
next
  case (Save f)
  obtain e s' where "Flush Y f s = (e, s')" by fastforce
  with Flush_domains [OF this] Save ok show ?thesis
    by (simp add: simulated_same store_ok_iff routes_def)
qed (use ok in \<open>simp_all only: learn_simulated forget_simulated expire_simulated shrink_simulated\<close>)

lemma perform_simulatedD:
  assumes "store_ok s" and "perform Y op s = Some (rep, s')"
  shows "simulated op s rep s'"
  using perform_simulated [OF assms(1), of Y op] assms(2) by auto

lemma said_mono: "m \<subseteq>\<^sub>m m' \<Longrightarrow> said op m \<subseteq>\<^sub>m said op m'"
  by (cases op) (auto simp: map_le_def)

lemma said_dom: "dom (said op m') - dom (said op m) \<subseteq> dom m' - dom m"
  by (cases op) auto

lemma said_finite: "finite (dom m) \<Longrightarrow> finite (dom (said op m))"
  by (cases op) simp_all

interpretation table: lossy_map "perform Y" said routes store_ok for Y :: "'y yaml"
proof unfold_locales
  fix op and s :: "'y Store"
  assume ok: "store_ok s"
  from perform_simulated [OF ok, of Y op] show "\<exists>ok n s'. perform Y op s = Some ((ok, n), s')" by fastforce
  fix b n s'
  assume "perform Y op s = Some ((b, n), s')"
  from perform_simulatedD [OF ok this]
  show "store_ok s'" and "routes s' \<subseteq>\<^sub>m (if b then said op (routes s) else routes s)"
    and "card (dom (if b then said op (routes s) else routes s) - dom (routes s')) \<le> n"
    by (simp_all add: simulated_def Let_def)
qed (simp_all only: said_mono said_dom said_finite)

section \<open>The property\<close>

text \<open>C12. After any sequence of operations on the learned table, whatever saves fail, the upstream it gives
  for a host is the one an unbounded map would give that took each successful operation at its
  word; and the hosts it has lost are at most as many as the operations reported to have evicted,
  expired or pruned. So a table that reports no loss answers exactly as the unbounded map.\<close>

theorem learned_table_refines_map:
  assumes "store_ok s"
  shows "\<exists>reps s'. run_ops (perform Y) ops s = Some (reps, s')
    \<and> (\<forall>host e. Lookup s' host = Some e \<longrightarrow>
         said_after said ops reps (routes s) (normalizeHost host) = Some (ld_Upstream e))
    \<and> card {h. said_after said ops reps (routes s) h \<noteq> None \<and> map_of (st_domains s') h = None} \<le> sum_list (map snd reps)
    \<and> (sum_list (map snd reps) = 0 \<longrightarrow>
         (\<forall>host. map_option ld_Upstream (Lookup s' host) = said_after said ops reps (routes s) (normalizeHost host)))"
proof -
  have fin: "finite (dom (routes s))" by (simp add: dom_routes finite_dom_map_of)
  from table.run_refines [OF assms fin, of Y ops] obtain reps s' where
    run: "run_ops (perform Y) ops s = Some (reps, s')"
    and le: "routes s' \<subseteq>\<^sub>m said_after said ops reps (routes s)"
    and card: "card (dom (said_after said ops reps (routes s)) - dom (routes s')) \<le> sum_list (map snd reps)"
    and full: "sum_list (map snd reps) = 0 \<Longrightarrow> routes s' = said_after said ops reps (routes s)" by auto
  have "said_after said ops reps (routes s) k = Some (ld_Upstream e)" if "map_of (st_domains s') k = Some e" for k e
    using le that by (auto simp: map_le_def routes_def dom_def)
  moreover have "{h. said_after said ops reps (routes s) h \<noteq> None \<and> map_of (st_domains s') h = None}
      = dom (said_after said ops reps (routes s)) - dom (routes s')"
    by (auto simp: dom_routes)
  ultimately show ?thesis using run card full
    by (intro exI [of _ reps] exI [of _ s']) (auto simp: Lookup_def routes_def dest: fun_cong)
qed

text \<open>Two hosts in a table of one entry: the first one is lost, and the table says so.\<close>

lemma learned_table_refines_map_witness:
  "\<exists>reps s'. run_ops (perform id_yaml) [Learn NoFault 5 ''a'' ''vpn'' ''t'' 1, Learn NoFault 6 ''b'' ''vpn'' ''t'' 1] empty_store
      = Some (reps, s') \<and> reps = [(True, 0), (True, 1)] \<and> Lookup s' ''a'' = None \<and> Lookup s' ''b'' \<noteq> None
    \<and> card {h. said_after said [Learn NoFault 5 ''a'' ''vpn'' ''t'' 1, Learn NoFault 6 ''b'' ''vpn'' ''t'' 1] reps
        (routes (empty_store :: learnedFile Store)) h \<noteq> None \<and> map_of (st_domains s') h = None} \<le> 1"
proof -
  let ?ops = "[Learn NoFault 5 ''a'' ''vpn'' ''t'' 1, Learn NoFault 6 ''b'' ''vpn'' ''t'' 1]"
  obtain reps s' where "run_ops (perform id_yaml) ?ops empty_store = Some (reps, s')"
    and "card {h. said_after said ?ops reps (routes (empty_store :: learnedFile Store)) h \<noteq> None \<and> map_of (st_domains s') h = None} \<le> sum_list (map snd reps)"
    using learned_table_refines_map [OF empty_store_ok, of id_yaml ?ops] by blast
  moreover from this(1) have "reps = [(True, 0), (True, 1)] \<and> Lookup s' ''a'' = None \<and> Lookup s' ''b'' \<noteq> None"
    by (auto simp: report_def AddWithLimit_def empty_store_def saveLocked_def Lookup_def
        host_eval Let_def evictionCandidateLocked_def)
  ultimately show ?thesis by (intro exI [of _ reps] exI [of _ s']) simp
qed

end
