(* ===== verification/Spec2Isabelle.thy ===== *)
theory Spec2Isabelle
  imports Upstream_Props Client_Props Capture_Props Accept_Props Monitor_Props Startup_Props Legacy_Stream Key_Share
    Route_Manager_Props Bird_Props Route_Lookup_Props Route_Table
begin

text \<open>
  A verification development of a SOCKS5 proxy with learning routes, and of the three route
  services that live beside it. All paths below are under \<^verbatim>\<open>src/\<close>; a definition carries the name of
  the Go function or type it translates wherever the two languages allow it.

  \<^bold>\<open>The program.\<close> The proxy (\<^verbatim>\<open>cmd/\<close>) accepts SOCKS5 connections. For each it authenticates the client,
  reads the request, chooses an egress from the configuration and the learned routing table, dials
  the target directly or through a SOCKS5 upstream, and then copies both directions. While it copies it
  inspects the first TLS record of the client: it may send a fake ClientHello with another server
  name, split the first bytes into fragments, and start a probe that asks an upstream for the same
  site. A direct dial that fails, or a direct target that stays silent while the probe succeeds, teaches
  the table that the host is to be reached through the upstream. A circuit breaker guards every
  upstream; a dashboard shows and edits the learned routes; the configuration can be reloaded while
  sessions run; a shutdown waits for the sessions and saves the table. Shared state is guarded
  by mutexes, so its operations are atomic and a run of the program is an interleaving of them.

  \<^bold>\<open>Foundations.\<close>
  \<^item> \<open>Prelude\<close>: results of fallible calls (\<open>outcome\<close>: a value, an error or a panic), byte slices and
    big-endian integers, time, and Go maps as association lists (\<open>gomap\<close>), with the simplification
    rules the other theories rely on.
  \<^item> \<open>Go_Strings\<close>, \<open>Go_Text\<close>, \<open>Ip_Addr\<close>: what the program uses of \<^verbatim>\<open>strings\<close>, \<^verbatim>\<open>strconv\<close>, \<^verbatim>\<open>time\<close>, \<^verbatim>\<open>bufio\<close>
    and \<^verbatim>\<open>net\<close>: trimming, duration syntax, lines and fields, addresses and prefixes.
  \<^item> \<open>Net_Conn\<close>: a connection is what is still to arrive, what was delivered, and a script of write
    results. The locale \<open>ordered_writer\<close> is the contract of anything that writes to a connection:
    an ordered prefix is delivered, all of it if there is no error.

  \<^bold>\<open>The components of the proxy.\<close>
  \<^item> \<open>Learned\<close>, \<open>Learned_Lemmas\<close>, \<open>Learned_Props\<close> (\<^verbatim>\<open>internal/routing/learned.go\<close>): the table \<open>Store\<close> with its
    file, all operations, and each way a save can fail. The locale \<open>recency\<close> (any strict order with
    unique keys) gives the choice of the entry to evict; it is interpreted on \<open>lessRecentlyUsed\<close>.
    Shown: the invariant and the size bound over all histories, undone failures, least recently used
    eviction and pruning, termination of \<open>PruneToLimit\<close>, expiry, persistence. \<open>Route_Table\<close>: the table
    refines an unbounded map; the locale \<open>lossy_map\<close> (an operation may forget bindings, not change them,
    and reports how many it forgot) is interpreted on all its operations.
  \<^item> \<open>Domain_List\<close>, \<open>Config\<close>, \<open>Config_Props\<close> (\<^verbatim>\<open>internal/config\<close>): structs, defaults, validation, list files
    with the regular expressions built from them and the errors of their lines, policies. Shown: what an
    accepted configuration guarantees (and which of its values nobody checks), which policy a host gets, and
    that matching the expressions is covering by names.
  \<^item> \<open>Upstream_Manager\<close>, \<open>Upstream_Props\<close> (\<^verbatim>\<open>internal/upstream/manager.go\<close>): the breaker per upstream. The
    locale \<open>half_open_gate\<close> states once why a tripped gate admits at most one request; it is interpreted
    on \<open>Allow\<close>. Shown: consistency of the states (closed exactly below the threshold), threshold, cooldown,
    admission.
  \<^item> \<open>Tls\<close>, \<open>Tls_Lemmas\<close>, \<open>Tls_Props\<close>, \<open>Key_Share\<close> (\<^verbatim>\<open>internal/libtls\<close>): decoder, encoder and operations on
    extensions, with lengths at their width. The locale \<open>sequence_codec\<close> (a loop that reads encoded elements
    at an offset) is interpreted on the cipher suites and on the extensions. Shown: no panic in
    the decoder, round trips, what replacing the server name changes.
  \<^item> \<open>Socks_Client\<close>, \<open>Client_Props\<close> (\<^verbatim>\<open>internal/socksclient/client.go\<close>): the client side of the handshake,
    byte by byte.
  \<^item> \<open>Probe\<close> (\<^verbatim>\<open>probeCoordinator\<close> of \<^verbatim>\<open>cmd/socks5.go\<close>): which hosts are being probed. The locale
    \<open>once_per_key\<close> states mutual exclusion per key for every interleaving.
  \<^item> \<open>Session\<close>, \<open>Session_Metrics\<close>, \<open>Session_Props\<close> (\<^verbatim>\<open>cmd/socks5.go\<close>): authentication, request, routing, dials
    with fallback and learning, reply, and the probe; \<open>Session_Metrics\<close> has what the same code reports to the
    monitor, function by function.
  \<^item> \<open>Forward\<close>, \<open>Forward_Props\<close>: the forward loop with inspection, fake packet and fragmenter; \<open>send cx\<close> is
    an \<open>ordered_writer\<close> in every mode. \<open>Accept\<close>, \<open>Accept_Props\<close>: the whole of \<open>AcceptConnection\<close>.
  \<^item> \<open>Capture\<close>, \<open>Capture_Props\<close> (\<^verbatim>\<open>cmd/capture.go\<close>, \<^verbatim>\<open>cmd/capture_nocgo.go\<close>): the buffer of observed
    handshakes, a \<open>log_window\<close> of 500 entries or of all, and the layers of the fake packet.
  \<^item> \<open>Monitor\<close>, \<open>Monitor_Props\<close> (\<^verbatim>\<open>internal/monitor/monitor.go\<close>): the snapshot, the registry (with the Go and
    process collectors, whose names are reserved) and the list of calls made on the Prometheus collectors.
    Shown: the calls are valid while names and results are UTF-8, and they add up to the snapshot, active
    sessions included as long as no session finishes before it starts.
  \<^item> \<open>Admin\<close>, \<open>Admin_Props\<close> (\<^verbatim>\<open>internal/admin/server.go\<close>): the handlers of the dashboard.
  \<^item> \<open>Runtime\<close>, \<open>Runtime_Props\<close> (\<^verbatim>\<open>cmd/runtime.go\<close>): all shared state (\<open>system\<close>) with one rule of \<open>sys_step\<close> per
    atomic operation; sessions and probes are runs of it. A reload is two steps, its pruning and its
    publication, between which others may run; \<open>reloadRuntime\<close> is the case that none does. Shown: the invariant \<open>sys_ok\<close> of every
    interleaving, and that a reload is all or nothing.
  \<^item> \<open>Lifecycle\<close>, \<open>Lifecycle_Props\<close> (\<^verbatim>\<open>cmd/micro-socks.go\<close>, \<^verbatim>\<open>cmd/signals_*.go\<close>): the process around it: accept loop,
    tickers, health checks, signals, shutdown. \<open>phase\<close> follows \<^verbatim>\<open>main\<close> and the goroutine of the signal through the
    close of the listener, the end of the loop, the shutdown of the admin server, the wait, the final flush and
    the exit, each a step of its own. Shown: what the file holds in every reachable state (\<open>kept\<close>), and that
    the time-out ends the process (six more steps of \<^verbatim>\<open>main\<close>, one per phase, are enough). \<open>Startup\<close>, \<open>Startup_Props\<close>: the start of \<open>main\<close>, the set-up
    of the capture, and the requests of the dashboard on the running process.
  \<^item> \<open>Legacy_Handshake\<close>, \<open>Legacy_Stream\<close> (\<^verbatim>\<open>internal/libtls/runtime.go\<close>, \<^verbatim>\<open>cmd/socks5.go\<close>): the parser and the loops
    that the program has replaced and keeps; nothing reached from \<^verbatim>\<open>main\<close> calls them.

  \<^bold>\<open>The route services.\<close> \<open>Route_Manager\<close> (\<^verbatim>\<open>cmd-route-manager/main.go\<close>) keeps static routes in a file of BIRD behind
  an HTTP interface; \<open>Bird_Client\<close> (\<^verbatim>\<open>cmd-bird-manager/main.go\<close>) replaces the configuration of BIRD and applies
  batches; \<open>Route_Lookup\<close> (\<^verbatim>\<open>cmd-route/server.go\<close>) reports the route of an address or name. Each has a theory
  \<open>_Props\<close>. Shown: what is read back of what was written, the order of batches, what a lookup answers.

  \<^bold>\<open>Parameters.\<close> Code that is not in the repository is an argument of the definitions that use it: the
  YAML package (\<open>yaml\<close>, with the round-trip law as a hypothesis where persistence needs it), files,
  listeners, devices and the resolver, the network (\<open>env\<close>, \<open>probe_env\<close>, connections), BIRD and \<^verbatim>\<open>birdc\<close>, whois and
  the HTTP API of the lookup service, the pattern matching of the router, and the serializer of packets.
  Times are integers (nanoseconds), one for each place where the code reads the clock, so no theorem
  assumes that a clock advances. Failures of the file system are a choice at every save. Theorems hold for all
  values of these parameters.

  \<^bold>\<open>Termination.\<close> All loops are total functions with a measure, except \<open>prune_loop\<close>, which is a partial function
  (its end depends on an invariant of the map) and is proved to return on every well-formed table. No fuel is
  used. Loops over reads (\<open>StreamForward\<close>, \<open>StreamReverse\<close>) recurse over the list of read results, so they
  describe every finite prefix of a run. Servers that run for ever are step relations.

  \<^bold>\<open>Widths.\<close> Integers of the wire are words of their width (\<open>u8\<close>, \<open>u16\<close>, \<open>u32\<close>), and offsets that the code computes
  in 16 bits wrap. \<^verbatim>\<open>int\<close> and \<^verbatim>\<open>int64\<close> are plain integers where they count entries, bytes of a session or nanoseconds,
  which do not reach 2^63; the 64-bit counters of the monitor wrap.

  \<^bold>\<open>Concurrency.\<close> The granularity is that of the mutexes. A runtime that a session still holds stays in
  the list \<open>sy_runtimes\<close>; a session uses the index of its snapshot. After a shutdown times out, sessions
  run on between the last flush and the exit: what they learn is saved by their own insertion, and a mark
  of use they make then is lost, which is why the claim on restarts is split by whether the sessions completed.
  Only a session uses a learned route, so a process without sessions does not mark a clean table (\<open>marks_dirty\<close>).
  Inside one session the two directions write to different connections and are modelled one after the other.

  \<^bold>\<open>Not modelled.\<close>
  \<^item> Log output, sleeps and delays, and the texts of errors except where a client sees them.
  \<^item> The HTTP servers with their time-outs, JSON coding, the \<^verbatim>\<open>/metrics\<close> handlers and the HTML pages: third-party
    code and text. The dashboard is modelled from the decoded request to the response value.
  \<^item> The pcap handle and the decoding of packets: a packet is the layers the library gives.
  \<^item> The wiring in \<^verbatim>\<open>main\<close> of the two HTTP route services: flags, the registration of handlers, tickers.
  \<^item> The blocks under \<^verbatim>\<open>if false\<close> in the legacy code.
\<close>

end
